(* ===== verification/Prelude.thy ===== *)
theory Prelude
  imports Main "HOL-Library.Word"
begin

text \<open>
  Shared vocabulary of the development: Go's machine integers and byte slices, the
  conversion between Go strings and byte slices, decimal and quoted formatting as used by
  \<^verbatim>\<open>fmt\<close>, big-endian integers as written by \<^verbatim>\<open>encoding/binary\<close>, and the lemmas on them
  that the component theories use.

  A Go \<^verbatim>\<open>string\<close> is an immutable byte sequence and an Isabelle \<open>char\<close> is one byte, so
  \<open>string\<close> models it exactly. A byte slice is a \<open>bytes\<close> (nil and empty slices are
  the same list: no code of the repository distinguishes them).
\<close>

type_synonym byte = "8 word"
type_synonym bytes = "8 word list"
type_synonym u16 = "16 word"
type_synonym u32 = "32 word"
type_synonym u64 = "64 word"

named_theorems go_defs \<open>definitions of the model that proofs unfold\<close>

subsection \<open>Strings, decimal numbers and quoting\<close>

definition bytes_of_string :: "string \<Rightarrow> bytes" where
  "bytes_of_string s = map (\<lambda>c. word_of_nat (of_char c)) s"

definition string_of_bytes :: "bytes \<Rightarrow> string" where
  "string_of_bytes bs = map (\<lambda>b. char_of (unat b)) bs"

fun decimal :: "nat \<Rightarrow> string" where
  "decimal n = (if n < 10 then [char_of (48 + n)] else decimal (n div 10) @ [char_of (48 + n mod 10)])"

declare decimal.simps [simp del]

definition decimal_int :: "int \<Rightarrow> string" where
  "decimal_int i = (if i < 0 then ''-'' @ decimal (nat (- i)) else decimal (nat i))"

definition hex_digit :: "nat \<Rightarrow> char" where
  "hex_digit n = (if n < 10 then char_of (48 + n) else char_of (87 + n))"

text \<open>
  \<open>go_quote\<close> renders a string as the verb \<^verbatim>\<open>%q\<close> does for ASCII text: the two characters
  that need escaping, the control characters with a letter escape, the other control
  characters in hexadecimal. Bytes above 127 are copied, which is what \<^verbatim>\<open>%q\<close> does for
  printable UTF-8.
\<close>

definition quote_char :: "char \<Rightarrow> string" where
  "quote_char c =
     (let n = of_char c :: nat in
      if n = 34 then [char_of (92::nat), char_of (34::nat)]
      else if n = 92 then [char_of (92::nat), char_of (92::nat)]
      else if n = 7 then char_of (92::nat) # ''a''
      else if n = 8 then char_of (92::nat) # ''b''
      else if n = 12 then char_of (92::nat) # ''f''
      else if n = 10 then char_of (92::nat) # ''n''
      else if n = 13 then char_of (92::nat) # ''r''
      else if n = 9 then char_of (92::nat) # ''t''
      else if n = 11 then char_of (92::nat) # ''v''
      else if n < 32 \<or> n = 127 then char_of (92::nat) # ''x'' @ [hex_digit (n div 16), hex_digit (n mod 16)]
      else [c])"

definition go_quote :: "string \<Rightarrow> string" where
  "go_quote s = [char_of (34::nat)] @ concat (map quote_char s) @ [char_of (34::nat)]"

subsection \<open>Big-endian integers\<close>

definition PutUint16 :: "u16 \<Rightarrow> bytes" where
  "PutUint16 v = [ucast (drop_bit 8 v), ucast v]"

definition PutUint32 :: "u32 \<Rightarrow> bytes" where
  "PutUint32 v = [ucast (drop_bit 24 v), ucast (drop_bit 16 v), ucast (drop_bit 8 v), ucast v]"

definition be_nat :: "bytes \<Rightarrow> nat" where
  "be_nat bs = foldl (\<lambda>acc b. acc * 256 + unat b) 0 bs"

subsection \<open>Machine arithmetic\<close>

definition wrap_i64 :: "int \<Rightarrow> int" where
  "wrap_i64 x = signed_take_bit 63 x"

definition MaxInt64 :: int where
  "MaxInt64 = 9223372036854775807"

definition MaxUint32 :: int where
  "MaxUint32 = 4294967295"


subsection \<open>Tables\<close>

text \<open>A Go map whose size and iteration matter: an association list with distinct keys. The order
  stands for the order of one iteration, which Go leaves open.\<close>

definition tbl_put :: "'k \<Rightarrow> 'v \<Rightarrow> ('k \<times> 'v) list \<Rightarrow> ('k \<times> 'v) list" where
  "tbl_put k v t = (k, v) # filter (\<lambda>p. fst p \<noteq> k) t"

definition tbl_del :: "'k \<Rightarrow> ('k \<times> 'v) list \<Rightarrow> ('k \<times> 'v) list" where
  "tbl_del k t = filter (\<lambda>p. fst p \<noteq> k) t"

definition tbl_ok :: "('k \<times> 'v) list \<Rightarrow> bool" where
  "tbl_ok t \<longleftrightarrow> distinct (map fst t)"

subsection \<open>Facts the components share\<close>

lemma map_of_tbl_del [simp]: "map_of (tbl_del k t) = (map_of t)(k := None)"
  by (induction t) (auto simp: tbl_del_def fun_eq_iff)

lemma map_of_tbl_put [simp]: "map_of (tbl_put k v t) = (map_of t)(k \<mapsto> v)"
  using map_of_tbl_del [of k t] by (simp add: tbl_put_def tbl_del_def fun_eq_iff)

lemma tbl_ok_Nil [simp]: "tbl_ok []"
  by (simp add: tbl_ok_def)

lemma tbl_ok_del [simp]: "tbl_ok t \<Longrightarrow> tbl_ok (tbl_del k t)"
  unfolding tbl_ok_def tbl_del_def by (induction t) auto

lemma tbl_ok_put [simp]: "tbl_ok t \<Longrightarrow> tbl_ok (tbl_put k v t)"
  using tbl_ok_del [of t k] by (auto simp: tbl_ok_def tbl_put_def tbl_del_def)

lemma set_tbl_del [simp]: "set (tbl_del k t) = {p \<in> set t. fst p \<noteq> k}"
  by (auto simp: tbl_del_def)

lemma set_tbl_put [simp]: "set (tbl_put k v t) = insert (k, v) {p \<in> set t. fst p \<noteq> k}"
  by (auto simp: tbl_put_def)

lemma length_tbl_del: "length (tbl_del k t) \<le> length t"
  by (simp add: tbl_del_def)

lemma length_tbl_put: "length (tbl_put k v t) \<le> Suc (length t)"
  by (simp add: tbl_put_def)

lemma tbl_del_other [simp]: "map_of t k = None \<Longrightarrow> tbl_del k t = t"
  unfolding tbl_del_def by (induction t) (auto split: if_splits)

lemma tbl_del_put: "map_of t k = None \<Longrightarrow> tbl_del k (tbl_put k v t) = t"
  using tbl_del_other [of t k] by (simp add: tbl_del_def tbl_put_def)

lemma of_char_less_256: "(of_char c :: nat) < 256"
  using of_char_mod_256 [of c, where 'a = nat]
  by (metis mod_less_divisor zero_less_numeral)

lemma string_of_bytes_of_string [simp]: "string_of_bytes (bytes_of_string s) = s"
  by (simp add: string_of_bytes_def bytes_of_string_def comp_def unat_of_nat)

lemma bytes_of_string_inject [simp]: "bytes_of_string s = bytes_of_string t \<longleftrightarrow> s = t"
  by (metis string_of_bytes_of_string)

lemma length_bytes_of_string [simp]: "length (bytes_of_string s) = length s"
  by (simp add: bytes_of_string_def)

lemma length_PutUint16 [simp]: "length (PutUint16 v) = 2"
  by (simp add: PutUint16_def)

lemma length_PutUint32 [simp]: "length (PutUint32 v) = 4"
  by (simp add: PutUint32_def)

lemma be_digit: "(n::nat) div (256 * k) * 256 + n div k mod 256 = n div k"
  by (metis Euclidean_Rings.div_mult2_eq mult.commute div_mult_mod_eq)

lemma be32_digits: "(n::nat) < 4294967296 \<Longrightarrow>
   ((n div 16777216 mod 256 * 256 + n div 65536 mod 256) * 256 + n div 256 mod 256) * 256 + n mod 256 = n"
  using be_digit [of n 65536] be_digit [of n 256] be_digit [of n 1] by simp

lemma be_nat_PutUint32 [simp]: "be_nat (PutUint32 v) = unat v"
proof -
  have v: "unat v < 4294967296" using unsigned_less [of v] by simp
  then have "unat v div 16777216 mod 256 = unat v div 16777216" by simp
  with be32_digits [OF v] show ?thesis
    by (simp add: be_nat_def PutUint32_def unsigned_ucast_eq unat_drop_bit_eq drop_bit_eq_div
        take_bit_eq_mod unat_div)
qed

lemma be_nat_PutUint16 [simp]: "be_nat (PutUint16 v) = unat v"
proof -
  have "unat v < 65536" using unsigned_less [of v] by simp
  then have "unat v div 256 mod 256 * 256 + unat v mod 256 = unat v" by simp
  then show ?thesis
    by (simp add: be_nat_def PutUint16_def unsigned_ucast_eq unat_drop_bit_eq drop_bit_eq_div
        take_bit_eq_mod unat_div)
qed

lemma PutUint32_inject [simp]: "PutUint32 v = PutUint32 w \<longleftrightarrow> v = w"
  by (metis be_nat_PutUint32 unsigned_word_eqI)

lemma PutUint16_inject [simp]: "PutUint16 v = PutUint16 w \<longleftrightarrow> v = w"
  by (metis be_nat_PutUint16 unsigned_word_eqI)

lemma be_nat_bound: "be_nat bs < 256 ^ length bs"
proof (induction bs rule: rev_induct)
  case Nil
  show ?case by (simp add: be_nat_def)
next
  case (snoc b bs)
  have "unat b < 256" using unsigned_less [of b] by simp
  with snoc show ?case by (simp add: be_nat_def)
qed

lemma be_nat_inject: "length xs = length ys \<Longrightarrow> be_nat xs = be_nat ys \<Longrightarrow> xs = ys"
proof (induction xs arbitrary: ys rule: rev_induct)
  case (snoc a xs)
  then obtain b zs where ys: "ys = zs @ [b]" by (cases ys rule: rev_cases) auto
  with snoc.prems have eq: "be_nat xs * 256 + unat a = be_nat zs * 256 + unat b"
    by (simp add: be_nat_def)
  have lt: "unat a < 256" "unat b < 256" using unsigned_less [of a] unsigned_less [of b] by simp_all
  have "be_nat xs = be_nat zs" using arg_cong [OF eq, of "\<lambda>n. n div 256"] lt by simp
  moreover have "unat a = unat b" using arg_cong [OF eq, of "\<lambda>n. n mod 256"] lt by simp
  ultimately show ?case using snoc ys by (simp add: unsigned_word_eqI)
qed simp

lemma PutUint32_be_nat: "length p = 4 \<Longrightarrow> PutUint32 (word_of_nat (be_nat p)) = p"
  using be_nat_bound [of p] by (intro be_nat_inject) (simp_all add: unat_of_nat)

lemma unat_word_of_nat_32 [simp]: "n \<le> nat MaxUint32 \<Longrightarrow> unat (word_of_nat n :: u32) = n"
  by (simp add: unat_of_nat MaxUint32_def)

text \<open>Unsigned 64-bit counters: additions and subtractions that stay in range are exact.\<close>

lemma unat_add_u64: "unat (a :: u64) + unat b < 2 ^ 64 \<Longrightarrow> unat (a + b) = unat a + unat b"
  by (simp add: unat_word_ariths)

lemma unat_sub_u64: "(b :: u64) \<le> a \<Longrightarrow> unat (a - b) = unat a - unat b"
  by (rule unat_sub)

lemma unat_of_nat_u64: "n < 2 ^ 64 \<Longrightarrow> unat (word_of_nat n :: u64) = n"
  by (simp add: unat_of_nat)

lemma u64_le_iff: "(a :: u64) \<le> b \<longleftrightarrow> unat a \<le> unat b"
  by (rule word_le_nat_alt)

lemma u64_less_iff: "(a :: u64) < b \<longleftrightarrow> unat a < unat b"
  by (rule word_less_nat_alt)

lemma u64_eq_0_iff: "(a :: u64) = 0 \<longleftrightarrow> unat a = 0"
  by (simp add: unat_eq_zero)

lemmas u64_nat = u64_le_iff u64_less_iff u64_eq_0_iff unat_add_u64 unat_sub_u64 unat_of_nat_u64

text \<open>Signed 64-bit values in range are not changed by wrapping.\<close>

lemma wrap_i64_id: "- MaxInt64 - 1 \<le> x \<Longrightarrow> x \<le> MaxInt64 \<Longrightarrow> wrap_i64 x = x"
  by (simp add: wrap_i64_def MaxInt64_def signed_take_bit_int_eq_self_iff)

lemma wrap_i64_range: "- MaxInt64 - 1 \<le> wrap_i64 x \<and> wrap_i64 x \<le> MaxInt64"
  using signed_take_bit_int_greater_eq_minus_exp [of 63 x] signed_take_bit_int_less_exp [of 63 x]
  by (simp add: wrap_i64_def MaxInt64_def)

end
