(* ===== verification/Errors.thy ===== *)
theory Errors
  imports Prelude
begin

text \<open>
  The error values of the library (\<^verbatim>\<open>errors.go\<close>, with the sentinels of \<^verbatim>\<open>frame.go\<close>,
  \<^verbatim>\<open>msgpack.go\<close> and the ones of the Go standard library that the code compares against).

  A Go error is one of: a sentinel; a \<^verbatim>\<open>*RemoteError\<close>, which may be a typed nil pointer
  (\<open>RemoteErr None\<close>); an error built by \<^verbatim>\<open>fmt.Errorf\<close> with one \<^verbatim>\<open>%w\<close> verb
  (\<open>Wrapped pre e post\<close>, the texts before and after the wrapped error); an error of any
  other type (\<open>Custom text is es\<close>: its text, the sentinels its own method \<^verbatim>\<open>Is\<close> accepts and
  what its method \<^verbatim>\<open>Unwrap\<close> returns, so \<^verbatim>\<open>errors.Join\<close> and \<^verbatim>\<open>fmt.Errorf\<close> with several \<^verbatim>\<open>%w\<close> are
  \<open>Custom text [] es\<close>); or one without such methods (\<open>Opaque\<close>). \<open>errors_Is\<close> and
  \<open>errors_As_RemoteError\<close> search the tree of wrapped errors in the order of \<^verbatim>\<open>errors.Is\<close> and
  \<^verbatim>\<open>errors.As\<close>, first the error itself and then what it wraps, depth first. A nil error is
  \<open>None\<close> of type \<open>gerror option\<close>. An error type with a method \<^verbatim>\<open>As\<close> of its own is not modelled.

  The values of the \<^verbatim>\<open>Details\<close> map are application values that the library never looks
  into; they are carried as their encoding.
\<close>

datatype sentinel =
    ErrClosed | ErrAuthentication | ErrDuplicateFunction | ErrInvalidFunction
  | ErrInvalidHandler | ErrInvalidResponse | ErrUnavailable | ErrBackpressure
  | ErrPeerConnected | ErrPeerConfiguration | ErrPeerIdentityRequired | ErrPeerSelfConnection
  | ErrFrameTooLarge | ErrProtocol
  | ErrMessagePackCode | ErrMessagePackDepth | ErrMessagePackTrailing
  | ContextCanceled | ContextDeadlineExceeded
  | IoEOF | IoErrUnexpectedEOF | IoErrShortWrite | NetErrClosed

record RemoteError =
  Code :: string
  Message :: string
  Details :: "(string \<times> bytes) list"

datatype gerror =
    Sentinel sentinel
  | RemoteErr "RemoteError option"
  | Wrapped string gerror string
  | Custom string "sentinel list" "gerror list"
  | Opaque string

type_synonym 'a res = "gerror + 'a"

definition ErrorCodeCanceled :: string where "ErrorCodeCanceled = ''canceled''"
definition ErrorCodeDeadlineExceeded :: string where "ErrorCodeDeadlineExceeded = ''deadline_exceeded''"
definition ErrorCodeInternal :: string where "ErrorCodeInternal = ''internal''"
definition ErrorCodeInvalidRequest :: string where "ErrorCodeInvalidRequest = ''invalid_request''"
definition ErrorCodeNotFound :: string where "ErrorCodeNotFound = ''not_found''"
definition ErrorCodeUnauthorized :: string where "ErrorCodeUnauthorized = ''unauthorized''"
definition ErrorCodeUnavailable :: string where "ErrorCodeUnavailable = ''unavailable''"
definition ErrorCodeBackpressure :: string where "ErrorCodeBackpressure = ''backpressure''"
definition ErrorCodePeerConnected :: string where "ErrorCodePeerConnected = ''peer_connected''"

lemmas error_code_defs =
  ErrorCodeCanceled_def ErrorCodeDeadlineExceeded_def ErrorCodeInternal_def
  ErrorCodeInvalidRequest_def ErrorCodeNotFound_def ErrorCodeUnauthorized_def
  ErrorCodeUnavailable_def ErrorCodeBackpressure_def ErrorCodePeerConnected_def

fun sentinel_text :: "sentinel \<Rightarrow> string" where
  "sentinel_text ErrClosed = ''gorpc: closed''"
| "sentinel_text ErrAuthentication = ''gorpc: authentication failed''"
| "sentinel_text ErrDuplicateFunction = ''gorpc: duplicate function''"
| "sentinel_text ErrInvalidFunction = ''gorpc: invalid function''"
| "sentinel_text ErrInvalidHandler = ''gorpc: invalid handler''"
| "sentinel_text ErrInvalidResponse = ''gorpc: invalid response''"
| "sentinel_text ErrUnavailable = ''gorpc: unavailable''"
| "sentinel_text ErrBackpressure = ''gorpc: backpressure''"
| "sentinel_text ErrPeerConnected = ''gorpc: peer already connected''"
| "sentinel_text ErrPeerConfiguration = ''gorpc: peer configuration conflict''"
| "sentinel_text ErrPeerIdentityRequired = ''gorpc: peer identity is required''"
| "sentinel_text ErrPeerSelfConnection = ''gorpc: peer cannot connect to itself''"
| "sentinel_text ErrFrameTooLarge = ''gorpc: frame too large''"
| "sentinel_text ErrProtocol = ''gorpc: protocol error''"
| "sentinel_text ErrMessagePackCode = ''gorpc: invalid MessagePack code''"
| "sentinel_text ErrMessagePackDepth = ''gorpc: MessagePack nesting exceeds 64 levels''"
| "sentinel_text ErrMessagePackTrailing = ''gorpc: trailing data after MessagePack value''"
| "sentinel_text ContextCanceled = ''context canceled''"
| "sentinel_text ContextDeadlineExceeded = ''context deadline exceeded''"
| "sentinel_text IoEOF = ''EOF''"
| "sentinel_text IoErrUnexpectedEOF = ''unexpected EOF''"
| "sentinel_text IoErrShortWrite = ''short write''"
| "sentinel_text NetErrClosed = ''use of closed network connection''"

fun RemoteError_Error :: "RemoteError option \<Rightarrow> string" where
  "RemoteError_Error None = ''remote error''"
| "RemoteError_Error (Some e) =
     (if Code e = '''' then Message e
      else if Message e = '''' then ''remote error: '' @ Code e
      else ''remote error '' @ Code e @ '': '' @ Message e)"

fun RemoteError_Is :: "RemoteError option \<Rightarrow> sentinel \<Rightarrow> bool" where
  "RemoteError_Is None target = False"
| "RemoteError_Is (Some e) target =
     (if Code e = ErrorCodeCanceled then target = ContextCanceled
      else if Code e = ErrorCodeDeadlineExceeded then target = ContextDeadlineExceeded
      else if Code e = ErrorCodeUnavailable then target = ErrUnavailable
      else if Code e = ErrorCodeBackpressure then target = ErrBackpressure
      else if Code e = ErrorCodeUnauthorized then target = ErrAuthentication
      else if Code e = ErrorCodePeerConnected then target = ErrPeerConnected
      else False)"

fun error_text :: "gerror \<Rightarrow> string" where
  "error_text (Sentinel s) = sentinel_text s"
| "error_text (RemoteErr r) = RemoteError_Error r"
| "error_text (Wrapped pre e post) = pre @ error_text e @ post"
| "error_text (Custom t is es) = t"
| "error_text (Opaque t) = t"

fun errors_Is :: "gerror \<Rightarrow> sentinel \<Rightarrow> bool" where
  "errors_Is (Sentinel s) target = (s = target)"
| "errors_Is (RemoteErr r) target = RemoteError_Is r target"
| "errors_Is (Wrapped pre e post) target = errors_Is e target"
| "errors_Is (Custom t is es) target = (target \<in> set is \<or> (\<exists>e \<in> set es. errors_Is e target))"
| "errors_Is (Opaque t) target = False"

fun errors_As_RemoteError :: "gerror \<Rightarrow> RemoteError option option"
  and errors_As_first :: "gerror list \<Rightarrow> RemoteError option option" where
  "errors_As_RemoteError (Sentinel s) = None"
| "errors_As_RemoteError (RemoteErr r) = Some r"
| "errors_As_RemoteError (Wrapped pre e post) = errors_As_RemoteError e"
| "errors_As_RemoteError (Custom t is es) = errors_As_first es"
| "errors_As_RemoteError (Opaque t) = None"
| "errors_As_first [] = None"
| "errors_As_first (e # es) =
     (case errors_As_RemoteError e of None \<Rightarrow> errors_As_first es | Some r \<Rightarrow> Some r)"

definition NewRemoteError :: "string \<Rightarrow> string \<Rightarrow> (string \<times> bytes) list \<Rightarrow> RemoteError" where
  "NewRemoteError code message details = \<lparr>Code = code, Message = message, Details = details\<rparr>"

text \<open>\<open>fmt.Errorf("%w: text", e)\<close> and \<open>fmt.Errorf("text: %w", e)\<close>.\<close>

definition Errorf_suffix :: "sentinel \<Rightarrow> string \<Rightarrow> gerror" where
  "Errorf_suffix s t = Wrapped '''' (Sentinel s) ('': '' @ t)"

definition Errorf_prefix :: "string \<Rightarrow> gerror \<Rightarrow> gerror" where
  "Errorf_prefix t e = Wrapped (t @ '': '') e ''''"

definition remoteErrorFromError :: "gerror option \<Rightarrow> RemoteError" where
  "remoteErrorFromError err =
     (case err of
        None \<Rightarrow> NewRemoteError '''' '''' []
      | Some e \<Rightarrow>
          (case errors_As_RemoteError e of
             Some (Some r) \<Rightarrow> r
           | _ \<Rightarrow>
             (if errors_Is e ContextCanceled then NewRemoteError ErrorCodeCanceled (error_text e) []
              else if errors_Is e ContextDeadlineExceeded then NewRemoteError ErrorCodeDeadlineExceeded (error_text e) []
              else if errors_Is e ErrBackpressure then NewRemoteError ErrorCodeBackpressure (error_text e) []
              else if errors_Is e ErrUnavailable then NewRemoteError ErrorCodeUnavailable (error_text e) []
              else NewRemoteError ErrorCodeInternal (error_text e) [])))"

subsection \<open>Facts\<close>

lemma errors_Is_Errorf_suffix [simp]: "errors_Is (Errorf_suffix s t) u \<longleftrightarrow> s = u"
  by (simp add: Errorf_suffix_def)

lemma errors_Is_Errorf_prefix [simp]: "errors_Is (Errorf_prefix t e) u \<longleftrightarrow> errors_Is e u"
  by (simp add: Errorf_prefix_def)

lemma error_text_Errorf_suffix [simp]: "error_text (Errorf_suffix s t) = sentinel_text s @ '': '' @ t"
  by (simp add: Errorf_suffix_def)

text \<open>An error that does not branch: a chain of wrapped errors that ends in one leaf.\<close>

fun chain :: "gerror \<Rightarrow> bool" where
  "chain (Wrapped pre e post) = chain e"
| "chain (Custom t [] [e]) = chain e"
| "chain (Custom t is es) = (es = [] \<and> length is \<le> 1)"
| "chain e = True"

text \<open>A chain matches at most one sentinel: the switch order of \<open>remoteErrorFromError\<close> is irrelevant for it.\<close>

lemma RemoteError_Is_unique: "RemoteError_Is r s \<Longrightarrow> RemoteError_Is r t \<Longrightarrow> s = t"
  by (cases r) (auto split: if_splits)

lemma errors_Is_unique: "chain e \<Longrightarrow> errors_Is e s \<Longrightarrow> errors_Is e t \<Longrightarrow> s = t"
  by (induction e rule: chain.induct)
    (auto simp: le_Suc_eq length_Suc_conv simp del: RemoteError_Is.simps dest: RemoteError_Is_unique)

text \<open>The sentinels a remote error code stands for.\<close>

fun transported :: "sentinel \<Rightarrow> bool" where
  "transported ContextCanceled = True"
| "transported ContextDeadlineExceeded = True"
| "transported ErrBackpressure = True"
| "transported ErrUnavailable = True"
| "transported _ = False"

lemma errors_As_RemoteError_Is:
  "errors_As_RemoteError e = Some (Some r) \<Longrightarrow> RemoteError_Is (Some r) t \<Longrightarrow> errors_Is e t"
  "errors_As_first es = Some (Some r) \<Longrightarrow> RemoteError_Is (Some r) t \<Longrightarrow> \<exists>e \<in> set es. errors_Is e t"
  by (induction e and es rule: errors_As_RemoteError_errors_As_first.induct) (auto simp del: RemoteError_Is.simps split: option.splits)

lemma chain_As_RemoteError_Is:
  "chain e \<Longrightarrow> errors_As_RemoteError e = Some (Some r) \<Longrightarrow> errors_Is e t = RemoteError_Is (Some r) t"
  by (induction e rule: chain.induct) (auto simp del: RemoteError_Is.simps split: option.splits)

lemma RemoteError_Is_code [simp]:
  "RemoteError_Is (Some (NewRemoteError ErrorCodeCanceled m d)) t \<longleftrightarrow> t = ContextCanceled"
  "RemoteError_Is (Some (NewRemoteError ErrorCodeDeadlineExceeded m d)) t \<longleftrightarrow> t = ContextDeadlineExceeded"
  "RemoteError_Is (Some (NewRemoteError ErrorCodeUnavailable m d)) t \<longleftrightarrow> t = ErrUnavailable"
  "RemoteError_Is (Some (NewRemoteError ErrorCodeBackpressure m d)) t \<longleftrightarrow> t = ErrBackpressure"
  "RemoteError_Is (Some (NewRemoteError ErrorCodeUnauthorized m d)) t \<longleftrightarrow> t = ErrAuthentication"
  "RemoteError_Is (Some (NewRemoteError ErrorCodePeerConnected m d)) t \<longleftrightarrow> t = ErrPeerConnected"
  "\<not> RemoteError_Is (Some (NewRemoteError ErrorCodeInternal m d)) t"
  by (simp_all add: NewRemoteError_def error_code_defs)

declare RemoteError_Is.simps(2) [simp del]

text \<open>The order in which \<open>remoteErrorFromError\<close> asks for them.\<close>

definition transport_order :: "sentinel list" where
  "transport_order = [ContextCanceled, ContextDeadlineExceeded, ErrBackpressure, ErrUnavailable]"

lemma transported_order: "transported t \<longleftrightarrow> t \<in> set transport_order"
  by (cases t) (simp_all add: transport_order_def)

lemma remoteErrorFromError_class:
  assumes "\<nexists>r. errors_As_RemoteError e = Some (Some r)"
  shows "RemoteError_Is (Some (remoteErrorFromError (Some e))) t \<longleftrightarrow> find (errors_Is e) transport_order = Some t"
proof -
  have "errors_As_RemoteError e = None \<or> errors_As_RemoteError e = Some None"
    using assms by (metis option.exhaust)
  then show ?thesis by (auto simp: remoteErrorFromError_def transport_order_def)
qed

text \<open>C5. What an error is at the other side. The error of a failed handler is converted by
  remoteErrorFromError, sent as an error frame and surfaces at the caller as a *RemoteError. For every
  error, with any tree of wrapped errors, typed nil pointers included: the caller's errors.Is says
  yes only where it would have said yes on the handler's error; a remote error inside it is passed on as it
  is; any other error has the identity of exactly the first of cancellation, deadline expiry,
  backpressure and unavailability that it is, if any, so that of several joined together one is
  kept. For an error that wraps a single chain this is all of its identity: errors.Is gives the same
  answer on both sides for these four.\<close>

theorem remoteErrorFromError_preserves_sentinels:
  fixes e :: gerror
  defines "R \<equiv> RemoteErr (Some (remoteErrorFromError (Some e)))"
  shows "(errors_Is R t \<longrightarrow> errors_Is e t) \<and>
    (\<forall>r. errors_As_RemoteError e = Some (Some r) \<longrightarrow> remoteErrorFromError (Some e) = r) \<and>
    ((\<nexists>r. errors_As_RemoteError e = Some (Some r)) \<longrightarrow>
      (errors_Is R t \<longleftrightarrow> find (errors_Is e) transport_order = Some t)) \<and>
    (chain e \<and> transported t \<longrightarrow> (errors_Is R t \<longleftrightarrow> errors_Is e t))"
proof (cases "\<exists>r. errors_As_RemoteError e = Some (Some r)")
  case True
  then obtain r where r: "errors_As_RemoteError e = Some (Some r)" by blast
  then have "remoteErrorFromError (Some e) = r" by (simp add: remoteErrorFromError_def)
  with r errors_As_RemoteError_Is(1) [OF r] chain_As_RemoteError_Is [OF _ r] show ?thesis by (auto simp: R_def)
next
  case False
  note c = remoteErrorFromError_class [OF this]
  have "errors_Is e t" if "find (errors_Is e) transport_order = Some t" using that by (auto simp: find_Some_iff)
  moreover have "find (errors_Is e) transport_order = Some t" if "chain e" "transported t" "errors_Is e t"
  proof (cases "find (errors_Is e) transport_order")
    case None
    with that(2,3) show ?thesis by (simp add: find_None_iff transported_order)
  next
    case (Some u)
    then have "errors_Is e u" by (auto simp: find_Some_iff)
    with errors_Is_unique [OF that(1) _ that(3)] Some show ?thesis by blast
  qed
  ultimately show ?thesis using False c by (auto simp: R_def)
qed

theorem remoteErrorFromError_preserves_sentinels_witness:
  "errors_Is (RemoteErr (Some (remoteErrorFromError (Some (Errorf_suffix ErrUnavailable ''ping timeout''))))) ErrUnavailable \<and>
   (let e = Custom ''both'' [] [Sentinel ErrUnavailable, Sentinel ContextCanceled] in
    errors_Is e ErrUnavailable \<and> \<not> errors_Is (RemoteErr (Some (remoteErrorFromError (Some e)))) ErrUnavailable \<and>
    errors_Is (RemoteErr (Some (remoteErrorFromError (Some e)))) ContextCanceled)"
  using remoteErrorFromError_preserves_sentinels [of "Errorf_suffix ErrUnavailable ''ping timeout''" ErrUnavailable]
    remoteErrorFromError_preserves_sentinels [of "Custom ''both'' [] [Sentinel ErrUnavailable, Sentinel ContextCanceled]" ErrUnavailable]
    remoteErrorFromError_preserves_sentinels [of "Custom ''both'' [] [Sentinel ErrUnavailable, Sentinel ContextCanceled]" ContextCanceled]
  by (simp add: Errorf_suffix_def transport_order_def)

end
