(* ===== verification/Msgpack.thy ===== *)
theory Msgpack
  imports Errors
begin

unbundle bit_operations_syntax

text \<open>
  The structural validator of MessagePack input (\<^verbatim>\<open>msgpack.go\<close>) and the default codec
  built on it (\<^verbatim>\<open>codec.go\<close>).

  The format bytes come from the third-party package \<^verbatim>\<open>msgpcode\<close>, so they are a
  parameter: a record \<open>msgpcode\<close> with the predicates and constants the source uses.
  \<open>msgpcode_documented\<close> states what the code relies on: they are the bytes of the
  published MessagePack format.

  \<open>validate_loop\<close> is the \<^verbatim>\<open>for\<close> loop of \<^verbatim>\<open>validateMessagePack\<close>: the fixed array of
  65 counters, the current depth and the unread input. An index outside the array would be
  a run-time panic and is the result \<open>VPanic\<close>. The reference definition is the grammar
  \<open>mp_value\<close>, written from the MessagePack format independently of the validator.
\<close>

subsection \<open>The validator\<close>

record msgpcode =
  IsFixedNum :: "byte \<Rightarrow> bool"
  IsFixedString :: "byte \<Rightarrow> bool"
  IsFixedArray :: "byte \<Rightarrow> bool"
  IsFixedMap :: "byte \<Rightarrow> bool"
  FixedStrMask :: byte
  FixedArrayMask :: byte
  FixedMapMask :: byte
  mcNil :: byte
  mcFalse :: byte
  mcTrue :: byte
  mcUint8 :: byte
  mcInt8 :: byte
  mcUint16 :: byte
  mcInt16 :: byte
  mcUint32 :: byte
  mcInt32 :: byte
  mcFloat :: byte
  mcUint64 :: byte
  mcInt64 :: byte
  mcDouble :: byte
  FixExt1 :: byte
  FixExt2 :: byte
  FixExt4 :: byte
  FixExt8 :: byte
  FixExt16 :: byte
  Str8 :: byte
  Bin8 :: byte
  Ext8 :: byte
  Str16 :: byte
  Bin16 :: byte
  Ext16 :: byte
  Array16 :: byte
  Map16 :: byte
  Str32 :: byte
  Bin32 :: byte
  Ext32 :: byte
  Array32 :: byte
  Map32 :: byte

definition maxMessagePackDepth :: nat where
  "maxMessagePackDepth = 64"

datatype vresult = VOk | VErr gerror | VPanic

text \<open>The outer and the inner switch on the code byte: size, children, width and the container
  flag, or \<open>None\<close> for the \<^verbatim>\<open>errMessagePackCode\<close> branch.\<close>

definition code_shape :: "msgpcode \<Rightarrow> byte \<Rightarrow> (u64 \<times> u64 \<times> nat \<times> bool) option" where
  "code_shape mc code =
     (if IsFixedNum mc code then Some (0, 0, 0, False)
      else if IsFixedString mc code then Some (ucast (code AND FixedStrMask mc), 0, 0, False)
      else if IsFixedArray mc code then Some (0, ucast (code AND FixedArrayMask mc), 0, True)
      else if IsFixedMap mc code then Some (0, 2 * ucast (code AND FixedMapMask mc), 0, True)
      else if code \<in> {mcNil mc, mcFalse mc, mcTrue mc} then Some (0, 0, 0, False)
      else if code \<in> {mcUint8 mc, mcInt8 mc} then Some (1, 0, 0, False)
      else if code \<in> {mcUint16 mc, mcInt16 mc} then Some (2, 0, 0, False)
      else if code \<in> {mcUint32 mc, mcInt32 mc, mcFloat mc} then Some (4, 0, 0, False)
      else if code \<in> {mcUint64 mc, mcInt64 mc, mcDouble mc} then Some (8, 0, 0, False)
      else if code \<in> {FixExt1 mc, FixExt2 mc, FixExt4 mc, FixExt8 mc, FixExt16 mc}
        then Some (1 + push_bit (unat (code - FixExt1 mc)) 1, 0, 0, False)
      else if code \<in> {Str8 mc, Bin8 mc, Ext8 mc} then Some (0, 0, 1, False)
      else if code \<in> {Str16 mc, Bin16 mc, Ext16 mc, Array16 mc, Map16 mc} then Some (0, 0, 2, False)
      else if code \<in> {Str32 mc, Bin32 mc, Ext32 mc, Array32 mc, Map32 mc} then Some (0, 0, 4, False)
      else None)"

text \<open>The \<^verbatim>\<open>if width != 0\<close> block: the count is read from the next bytes and distributed.
  \<open>None\<close> is the \<^verbatim>\<open>io.ErrUnexpectedEOF\<close> return.\<close>

definition read_count ::
  "msgpcode \<Rightarrow> byte \<Rightarrow> (u64 \<times> u64 \<times> nat \<times> bool) \<Rightarrow> bytes \<Rightarrow> (u64 \<times> u64 \<times> bool \<times> bytes) option" where
  "read_count mc code shape data =
     (case shape of (sz, children, width, container) \<Rightarrow>
        if width = 0 then Some (sz, children, container, data)
        else if length data < width then None
        else
          let count = word_of_nat (be_nat (take width data)) :: u64;
              data' = drop width data
          in if code \<in> {Array16 mc, Array32 mc} then Some (sz, count, True, data')
             else if code \<in> {Map16 mc, Map32 mc} then Some (sz, 2 * count, True, data')
             else if code \<in> {Ext8 mc, Ext16 mc, Ext32 mc} then Some (count + 1, children, container, data')
             else Some (count, children, container, data'))"

lemma read_count_shorter: "read_count mc code shape data = Some (s, c, k, data') \<Longrightarrow> length data' \<le> length data"
  by (auto simp: read_count_def Let_def split: prod.splits if_splits)

function validate_loop :: "msgpcode \<Rightarrow> u64 list \<Rightarrow> nat \<Rightarrow> bytes \<Rightarrow> vresult" where
  "validate_loop mc remaining depth data =
     (if length remaining \<le> depth then VPanic
      else if remaining ! depth = 0 then
        (if depth = 0 then (if data \<noteq> [] then VErr (Sentinel ErrMessagePackTrailing) else VOk)
         else validate_loop mc remaining (depth - 1) data)
      else
        (case data of
           [] \<Rightarrow> VErr (Sentinel IoErrUnexpectedEOF)
         | code # data1 \<Rightarrow>
             (let remaining1 = remaining[depth := remaining ! depth - 1] in
              case code_shape mc code of
                None \<Rightarrow> VErr (Sentinel ErrMessagePackCode)
              | Some shape \<Rightarrow>
                  (case read_count mc code shape data1 of
                     None \<Rightarrow> VErr (Sentinel IoErrUnexpectedEOF)
                   | Some (sz, children, container, data2) \<Rightarrow>
                       (if unat sz > length data2 \<or> unat children > length data2
                          then VErr (Sentinel IoErrUnexpectedEOF)
                        else if container \<and> depth = maxMessagePackDepth
                          then VErr (Sentinel ErrMessagePackDepth)
                        else if container \<and> children \<noteq> 0
                          then (if length remaining \<le> depth + 1 then VPanic
                                else validate_loop mc (remaining1[depth + 1 := children]) (depth + 1)
                                       (drop (unat sz) data2))
                        else validate_loop mc remaining1 depth (drop (unat sz) data2))))))"
  by pat_completeness auto
termination
  by (relation "measures [\<lambda>(mc, r, d, xs). length xs, \<lambda>(mc, r, d, xs). d]")
     (auto dest!: read_count_shorter)

declare validate_loop.simps [simp del]

definition validateMessagePack :: "msgpcode \<Rightarrow> bytes \<Rightarrow> vresult" where
  "validateMessagePack mc data =
     validate_loop mc ((replicate (maxMessagePackDepth + 1) 0)[0 := 1]) 0 data"

subsection \<open>The format, independently of the validator\<close>

definition msgpcode_spec :: msgpcode where
  "msgpcode_spec = \<lparr>
     IsFixedNum = (\<lambda>c. c \<le> 0x7f \<or> 0xe0 \<le> c),
     IsFixedString = (\<lambda>c. 0xa0 \<le> c \<and> c \<le> 0xbf),
     IsFixedArray = (\<lambda>c. 0x90 \<le> c \<and> c \<le> 0x9f),
     IsFixedMap = (\<lambda>c. 0x80 \<le> c \<and> c \<le> 0x8f),
     FixedStrMask = 0x1f, FixedArrayMask = 0x0f, FixedMapMask = 0x0f,
     mcNil = 0xc0, mcFalse = 0xc2, mcTrue = 0xc3,
     mcUint8 = 0xcc, mcInt8 = 0xd0, mcUint16 = 0xcd, mcInt16 = 0xd1,
     mcUint32 = 0xce, mcInt32 = 0xd2, mcFloat = 0xca,
     mcUint64 = 0xcf, mcInt64 = 0xd3, mcDouble = 0xcb,
     FixExt1 = 0xd4, FixExt2 = 0xd5, FixExt4 = 0xd6, FixExt8 = 0xd7, FixExt16 = 0xd8,
     Str8 = 0xd9, Bin8 = 0xc4, Ext8 = 0xc7,
     Str16 = 0xda, Bin16 = 0xc5, Ext16 = 0xc8, Array16 = 0xdc, Map16 = 0xde,
     Str32 = 0xdb, Bin32 = 0xc6, Ext32 = 0xc9, Array32 = 0xdd, Map32 = 0xdf\<rparr>"

definition msgpcode_documented :: "msgpcode \<Rightarrow> bool" where
  "msgpcode_documented mc \<longleftrightarrow> mc = msgpcode_spec"

text \<open>
  The families of the MessagePack format, by the number of the first byte: a scalar with a
  fixed number of following bytes, a blob whose length field has a width (an extension has
  one more byte, its type), a container whose count is in the first byte, and a container
  whose count field has a width. A map has two values per entry.
\<close>

datatype family = Scalar nat | Blob nat nat | Small nat | Counted nat nat

definition mp_family :: "byte \<Rightarrow> family option" where
  "mp_family c =
     (let n = unat c in
      if n \<le> 0x7f then Some (Scalar 0)
      else if n \<le> 0x8f then Some (Small (2 * (n - 0x80)))
      else if n \<le> 0x9f then Some (Small (n - 0x90))
      else if n \<le> 0xbf then Some (Scalar (n - 0xa0))
      else if n = 0xc0 then Some (Scalar 0)
      else if n = 0xc1 then None
      else if n \<le> 0xc3 then Some (Scalar 0)
      else if n \<le> 0xc6 then Some (Blob (2 ^ (n - 0xc4)) 0)
      else if n \<le> 0xc9 then Some (Blob (2 ^ (n - 0xc7)) 1)
      else if n = 0xca then Some (Scalar 4)
      else if n = 0xcb then Some (Scalar 8)
      else if n \<le> 0xcf then Some (Scalar (2 ^ (n - 0xcc)))
      else if n \<le> 0xd3 then Some (Scalar (2 ^ (n - 0xd0)))
      else if n \<le> 0xd8 then Some (Scalar (1 + 2 ^ (n - 0xd4)))
      else if n \<le> 0xdb then Some (Blob (2 ^ (n - 0xd9)) 0)
      else if n \<le> 0xdd then Some (Counted (2 ^ (n - 0xdb)) 1)
      else if n \<le> 0xdf then Some (Counted (2 ^ (n - 0xdd)) 2)
      else Some (Scalar 0))"

text \<open>\<open>mp_value d bs\<close>: the bytes are exactly one value with at most \<open>d\<close> nested containers;
  \<open>mp_values d n bs\<close>: they are \<open>n\<close> such values one after the other.\<close>

inductive mp_value :: "nat \<Rightarrow> bytes \<Rightarrow> bool" and mp_values :: "nat \<Rightarrow> nat \<Rightarrow> bytes \<Rightarrow> bool" where
  mp_scalar: "mp_family c = Some (Scalar (length body)) \<Longrightarrow> mp_value d (c # body)"
| mp_blob: "mp_family c = Some (Blob (length pfx) extra) \<Longrightarrow> length body = be_nat pfx + extra \<Longrightarrow>
     mp_value d (c # pfx @ body)"
| mp_small: "mp_family c = Some (Small n) \<Longrightarrow> mp_values d n body \<Longrightarrow> mp_value (Suc d) (c # body)"
| mp_counted: "mp_family c = Some (Counted (length pfx) k) \<Longrightarrow> mp_values d (k * be_nat pfx) body \<Longrightarrow>
     mp_value (Suc d) (c # pfx @ body)"
| mp_nil: "mp_values d 0 []"
| mp_cons: "mp_value d v \<Longrightarrow> mp_values d n vs \<Longrightarrow> mp_values d (Suc n) (v @ vs)"

subsection \<open>Facts about the format\<close>

inductive_simps mp_value_Cons: "mp_value d (c # xs)"
inductive_simps mp_values_0 [simp]: "mp_values d 0 xs"
inductive_simps mp_values_Suc: "mp_values d (Suc n) xs"
inductive_simps mp_value_Nil [simp]: "mp_value d []"

lemma mp_values_length: "mp_values d n xs \<Longrightarrow> n \<le> length xs"
proof (induction n arbitrary: xs)
  case 0
  show ?case by simp
next
  case (Suc n)
  then obtain v vs where "xs = v @ vs" and v: "mp_value d v" and "n \<le> length vs"
    by (auto simp: mp_values_Suc)
  moreover from v have "v \<noteq> []" by auto
  ultimately show ?case by (cases v) auto
qed

lemma consume_scalar:
  assumes "mp_family c = Some (Scalar n)"
  shows "(\<exists>v rest. c # xs = v @ rest \<and> mp_value d v \<and> P rest) \<longleftrightarrow> n \<le> length xs \<and> P (drop n xs)"
proof
  assume "\<exists>v rest. c # xs = v @ rest \<and> mp_value d v \<and> P rest"
  then obtain v rest where eq: "c # xs = v @ rest" and v: "mp_value d v" and P: "P rest" by blast
  from v eq obtain b where b: "v = c # b" by (cases v) auto
  with v assms have "n = length b" by (auto simp: mp_value_Cons)
  with b eq P show "n \<le> length xs \<and> P (drop n xs)" by auto
next
  assume "n \<le> length xs \<and> P (drop n xs)"
  then show "\<exists>v rest. c # xs = v @ rest \<and> mp_value d v \<and> P rest"
    using assms by (intro exI [of _ "c # take n xs"] exI [of _ "drop n xs"]) (auto intro: mp_scalar)
qed

lemma consume_blob:
  assumes "mp_family c = Some (Blob w x)"
  shows "(\<exists>v rest. c # xs = v @ rest \<and> mp_value d v \<and> P rest) \<longleftrightarrow>
    w \<le> length xs \<and> be_nat (take w xs) + x \<le> length (drop w xs) \<and>
    P (drop (be_nat (take w xs) + x) (drop w xs))"
proof
  assume "\<exists>v rest. c # xs = v @ rest \<and> mp_value d v \<and> P rest"
  then obtain v rest where eq: "c # xs = v @ rest" and v: "mp_value d v" and P: "P rest" by blast
  from v eq obtain b where b: "v = c # b" by (cases v) auto
  with v assms obtain p q where
    "b = p @ q" "length p = w" "length q = be_nat p + x" by (auto simp: mp_value_Cons)
  with b eq P show "w \<le> length xs \<and> be_nat (take w xs) + x \<le> length (drop w xs) \<and>
    P (drop (be_nat (take w xs) + x) (drop w xs))" by auto
next
  let ?m = "be_nat (take w xs) + x"
  assume a: "w \<le> length xs \<and> ?m \<le> length (drop w xs) \<and> P (drop ?m (drop w xs))"
  have "mp_value d (c # take w xs @ take ?m (drop w xs))"
    using assms a by (intro mp_blob [where extra = x]) auto
  moreover have "c # xs = (c # take w xs @ take ?m (drop w xs)) @ drop ?m (drop w xs)"
    by (metis append_Cons append_assoc append_take_drop_id)
  ultimately show "\<exists>v rest. c # xs = v @ rest \<and> mp_value d v \<and> P rest" using a by blast
qed

lemma consume_small:
  assumes "mp_family c = Some (Small n)"
  shows "(\<exists>v rest. c # xs = v @ rest \<and> mp_value d v \<and> P rest) \<longleftrightarrow>
    0 < d \<and> (\<exists>a b. xs = a @ b \<and> mp_values (d - 1) n a \<and> P b)"
proof
  assume "\<exists>v rest. c # xs = v @ rest \<and> mp_value d v \<and> P rest"
  then obtain v rest where eq: "c # xs = v @ rest" and v: "mp_value d v" and P: "P rest" by blast
  from v eq obtain b where b: "v = c # b" by (cases v) auto
  with v assms have "0 < d \<and> mp_values (d - 1) n b"
    by (auto simp: mp_value_Cons)
  with b eq P show "0 < d \<and> (\<exists>a b. xs = a @ b \<and> mp_values (d - 1) n a \<and> P b)" by auto
next
  assume "0 < d \<and> (\<exists>a b. xs = a @ b \<and> mp_values (d - 1) n a \<and> P b)"
  then obtain a b where "0 < d" "xs = a @ b" "mp_values (d - 1) n a" "P b" by blast
  with assms mp_small [of c n "d - 1" a] have "mp_value d (c # a)" "c # xs = (c # a) @ b" by auto
  with \<open>P b\<close> show "\<exists>v rest. c # xs = v @ rest \<and> mp_value d v \<and> P rest" by blast
qed

lemma consume_counted:
  assumes "mp_family c = Some (Counted w k)"
  shows "(\<exists>v rest. c # xs = v @ rest \<and> mp_value d v \<and> P rest) \<longleftrightarrow>
    0 < d \<and> w \<le> length xs \<and> (\<exists>a b. drop w xs = a @ b \<and> mp_values (d - 1) (k * be_nat (take w xs)) a \<and> P b)"
proof
  assume "\<exists>v rest. c # xs = v @ rest \<and> mp_value d v \<and> P rest"
  then obtain v rest where eq: "c # xs = v @ rest" and v: "mp_value d v" and P: "P rest" by blast
  from v eq obtain b where b: "v = c # b" by (cases v) auto
  with v assms obtain p q where
    "0 < d" "b = p @ q" "length p = w" "mp_values (d - 1) (k * be_nat p) q" by (auto simp: mp_value_Cons)
  with b eq P show "0 < d \<and> w \<le> length xs \<and>
    (\<exists>a b. drop w xs = a @ b \<and> mp_values (d - 1) (k * be_nat (take w xs)) a \<and> P b)" by auto
next
  assume "0 < d \<and> w \<le> length xs \<and>
    (\<exists>a b. drop w xs = a @ b \<and> mp_values (d - 1) (k * be_nat (take w xs)) a \<and> P b)"
  then obtain a b where d: "0 < d" and w: "w \<le> length xs" and ab: "drop w xs = a @ b"
    and a: "mp_values (d - 1) (k * be_nat (take w xs)) a" and P: "P b" by blast
  from assms w d a mp_counted [of c "take w xs" k "d - 1" a] have "mp_value d (c # take w xs @ a)" by simp
  moreover have "c # xs = (c # take w xs @ a) @ b"
    by (metis ab append_Cons append_assoc append_take_drop_id)
  ultimately show "\<exists>v rest. c # xs = v @ rest \<and> mp_value d v \<and> P rest" using P by blast
qed

definition shape_agrees :: "byte \<Rightarrow> bool" where
  "shape_agrees c \<longleftrightarrow>
     code_shape msgpcode_spec c =
       (case mp_family c of
          None \<Rightarrow> None
        | Some (Scalar n) \<Rightarrow> Some (word_of_nat n, 0, 0, False)
        | Some (Small n) \<Rightarrow> Some (0, word_of_nat n, 0, True)
        | Some (Blob w x) \<Rightarrow> Some (0, 0, w, False)
        | Some (Counted w k) \<Rightarrow> Some (0, 0, w, False)) \<and>
     (case mp_family c of
        Some (Scalar n) \<Rightarrow> n < 32
      | Some (Small n) \<Rightarrow> n < 32
      | Some (Blob w x) \<Rightarrow> w \<in> {1, 2, 4} \<and> c \<notin> {0xdc, 0xdd, 0xde, 0xdf} \<and>
          x = (if c \<in> {0xc7, 0xc8, 0xc9} then 1 else 0)
      | Some (Counted w k) \<Rightarrow> w \<in> {2, 4} \<and> c \<in> {0xdc, 0xdd, 0xde, 0xdf} \<and>
          k = (if c \<in> {0xdc, 0xdd} then 1 else 2)
      | None \<Rightarrow> True)"

lemma shape_agrees_table: "list_all (\<lambda>n. shape_agrees (word_of_nat n)) [0x80..<0xe0]"
  by code_simp

lemma shape_agrees: "shape_agrees c"
proof -
  consider "unat c \<le> 0x7f" | "0xe0 \<le> unat c" | "0x80 \<le> unat c \<and> unat c < 0xe0" by linarith
  then show ?thesis
  proof cases
    case 3
    with shape_agrees_table have "shape_agrees (word_of_nat (unat c))"
      by (simp only: list_all_iff set_upt atLeastLessThan_iff)
    then show ?thesis by simp
  qed (simp_all add: shape_agrees_def code_shape_def mp_family_def msgpcode_spec_def word_le_nat_alt)
qed

lemma code_shape_family:
  "mp_family c = None \<Longrightarrow> code_shape msgpcode_spec c = None"
  "mp_family c = Some (Scalar n) \<Longrightarrow> code_shape msgpcode_spec c = Some (word_of_nat n, 0, 0, False)"
  "mp_family c = Some (Small n) \<Longrightarrow> code_shape msgpcode_spec c = Some (0, word_of_nat n, 0, True)"
  "mp_family c = Some (Blob w x) \<Longrightarrow> code_shape msgpcode_spec c = Some (0, 0, w, False)"
  "mp_family c = Some (Counted w k) \<Longrightarrow> code_shape msgpcode_spec c = Some (0, 0, w, False)"
  using shape_agrees [of c] by (simp_all add: shape_agrees_def)

lemma read_count_plain: "read_count mc c (s, n, 0, k) data = Some (s, n, k, data)"
  by (simp add: read_count_def)

lemma unat_count:
  "length p \<le> 4 \<Longrightarrow> x \<le> 1 \<Longrightarrow> unat (word_of_nat (be_nat p) + word_of_nat x :: u64) = be_nat p + x"
  "length p \<le> 4 \<Longrightarrow> k \<le> 2 \<Longrightarrow> unat (word_of_nat k * word_of_nat (be_nat p) :: u64) = k * be_nat p"
proof -
  assume "length p \<le> 4"
  then have "(256::nat) ^ length p \<le> 256 ^ 4" by (intro power_increasing) auto
  then have b: "be_nat p < 4294967296" using be_nat_bound [of p] by simp
  show "x \<le> 1 \<Longrightarrow> unat (word_of_nat (be_nat p) + word_of_nat x :: u64) = be_nat p + x"
    using b by (simp add: unat_of_nat flip: of_nat_add)
  assume "k \<le> 2"
  then have "k * be_nat p \<le> 2 * be_nat p" by (rule mult_le_mono1)
  also have "2 * be_nat p < 2 ^ 64" using b by simp
  finally have "k * be_nat p < 2 ^ 64" .
  then show "unat (word_of_nat k * word_of_nat (be_nat p) :: u64) = k * be_nat p"
    by (simp add: unat_of_nat flip: of_nat_mult)
qed

lemma read_count_blob:
  assumes "mp_family c = Some (Blob w x)"
  shows "read_count msgpcode_spec c (0, 0, w, False) data =
    (if length data < w then None
     else Some (word_of_nat (be_nat (take w data)) + word_of_nat x, 0, False, drop w data))"
    and "x \<le> 1" and "0 < w" and "w \<le> 4"
  using shape_agrees [of c] assms
  by (auto simp: shape_agrees_def read_count_def msgpcode_spec_def Let_def)

lemma read_count_counted:
  assumes "mp_family c = Some (Counted w k)"
  shows "read_count msgpcode_spec c (0, 0, w, False) data =
    (if length data < w then None
     else Some (0, word_of_nat k * word_of_nat (be_nat (take w data)), True, drop w data))"
    and "k \<le> 2" and "0 < w" and "w \<le> 4"
  using shape_agrees [of c] assms
  by (auto simp: shape_agrees_def read_count_def msgpcode_spec_def Let_def)
subsection \<open>The stack of counters\<close>

text \<open>What the loop still accepts: the values the innermost counter asks for, then those of the
  counters below it, each with the nesting budget of its level.\<close>

fun stack_accepts :: "u64 list \<Rightarrow> nat \<Rightarrow> bytes \<Rightarrow> bool" where
  "stack_accepts rem 0 data = mp_values maxMessagePackDepth (unat (rem ! 0)) data"
| "stack_accepts rem (Suc d) data =
     (\<exists>a b. data = a @ b \<and> mp_values (maxMessagePackDepth - Suc d) (unat (rem ! Suc d)) a \<and>
            stack_accepts rem d b)"

lemma stack_accepts_cong: "(\<And>i. i \<le> d \<Longrightarrow> r ! i = r' ! i) \<Longrightarrow> stack_accepts r d = stack_accepts r' d"
  by (induction d) (auto simp: fun_eq_iff)

lemma stack_accepts_pop: "rem ! Suc d = 0 \<Longrightarrow> stack_accepts rem (Suc d) data = stack_accepts rem d data"
  by simp

lemma stack_accepts_push:
  "d + 1 < length rem \<Longrightarrow> stack_accepts (rem[d + 1 := n]) (d + 1) data \<longleftrightarrow>
     (\<exists>a b. data = a @ b \<and> mp_values (maxMessagePackDepth - d - 1) (unat n) a \<and> stack_accepts rem d b)"
  using stack_accepts_cong [of d "rem[Suc d := n]" rem] by simp

lemma mp_values_pred:
  "n \<noteq> (0 :: u64) \<Longrightarrow> mp_values d (unat n) xs \<longleftrightarrow>
     (\<exists>v vs. xs = v @ vs \<and> mp_value d v \<and> mp_values d (unat (n - 1)) vs)"
proof -
  assume "n \<noteq> 0"
  then have "0 < unat n" by (simp add: unat_gt_0)
  then have "unat n = Suc (unat (n - 1))" by (subst unat_sub) (simp_all add: word_le_nat_alt)
  then show ?thesis by (simp only: mp_values_Suc)
qed

lemma stack_accepts_consume:
  assumes "rem ! d \<noteq> 0" and "d < length rem"
  shows "stack_accepts rem d data \<longleftrightarrow>
    (\<exists>v rest. data = v @ rest \<and> mp_value (maxMessagePackDepth - d) v \<and>
              stack_accepts (rem[d := rem ! d - 1]) d rest)"
proof (cases d)
  case 0
  with assms show ?thesis by (simp add: mp_values_pred)
next
  case (Suc e)
  have "stack_accepts (rem[d := rem ! d - 1]) e = stack_accepts rem e"
    using Suc by (intro stack_accepts_cong) simp
  with Suc assms show ?thesis
    by (simp add: mp_values_pred) (metis append_assoc)
qed
text \<open>One iteration of the loop on a value's first byte, with the two switches and the count
  field resolved to the family of the byte.\<close>

lemma validate_loop_value:
  assumes "depth < length remaining" and "remaining ! depth \<noteq> 0"
  shows "validate_loop msgpcode_spec remaining depth (c # xs) =
    (let rem1 = remaining[depth := remaining ! depth - 1] in
     case mp_family c of
       None \<Rightarrow> VErr (Sentinel ErrMessagePackCode)
     | Some (Scalar n) \<Rightarrow>
         (if n > length xs then VErr (Sentinel IoErrUnexpectedEOF)
          else validate_loop msgpcode_spec rem1 depth (drop n xs))
     | Some (Blob w x) \<Rightarrow>
         (if length xs < w \<or> be_nat (take w xs) + x > length xs - w then VErr (Sentinel IoErrUnexpectedEOF)
          else validate_loop msgpcode_spec rem1 depth (drop (be_nat (take w xs) + x) (drop w xs)))
     | Some (Small n) \<Rightarrow>
         (if n > length xs then VErr (Sentinel IoErrUnexpectedEOF)
          else if depth = maxMessagePackDepth then VErr (Sentinel ErrMessagePackDepth)
          else if n = 0 then validate_loop msgpcode_spec rem1 depth xs
          else if length remaining \<le> depth + 1 then VPanic
          else validate_loop msgpcode_spec (rem1[depth + 1 := word_of_nat n]) (depth + 1) xs)
     | Some (Counted w k) \<Rightarrow>
         (if length xs < w \<or> k * be_nat (take w xs) > length xs - w then VErr (Sentinel IoErrUnexpectedEOF)
          else if depth = maxMessagePackDepth then VErr (Sentinel ErrMessagePackDepth)
          else if k * be_nat (take w xs) = 0 then validate_loop msgpcode_spec rem1 depth (drop w xs)
          else if length remaining \<le> depth + 1 then VPanic
          else validate_loop msgpcode_spec
                 (rem1[depth + 1 := word_of_nat (k * be_nat (take w xs))]) (depth + 1) (drop w xs)))"
proof (cases "mp_family c")
  case None
  with assms code_shape_family(1) [OF None] show ?thesis
    by (subst validate_loop.simps) simp
next
  case (Some f)
  note small = shape_agrees [of c]
  show ?thesis
  proof (cases f)
    case (Scalar n)
    with Some have fam: "mp_family c = Some (Scalar n)" by simp
    with small have "n < 32" by (simp add: shape_agrees_def)
    then have "unat (word_of_nat n :: u64) = n" by (simp add: unat_of_nat)
    with assms fam code_shape_family(2) [OF fam] show ?thesis
      by (subst validate_loop.simps) (simp add: read_count_plain Let_def)
  next
    case (Small n)
    with Some have fam: "mp_family c = Some (Small n)" by simp
    with small have "n < 32" by (simp add: shape_agrees_def)
    then have n: "unat (word_of_nat n :: u64) = n" by (simp add: unat_of_nat)
    then have "(word_of_nat n :: u64) = 0 \<longleftrightarrow> n = 0" by (metis unat_eq_zero)
    with assms fam n code_shape_family(3) [OF fam] show ?thesis
      by (subst validate_loop.simps) (simp add: read_count_plain Let_def)
  next
    case (Blob w x)
    with Some have fam: "mp_family c = Some (Blob w x)" by simp
    from read_count_blob(2,4) [OF fam]
    have u: "unat (word_of_nat (be_nat (take w xs)) + word_of_nat x :: u64) = be_nat (take w xs) + x"
      by (intro unat_count) auto
    show ?thesis
      using assms code_shape_family(4) [OF fam]
      by (subst validate_loop.simps) (simp add: read_count_blob [OF fam] Let_def fam u del: of_nat_add)
  next
    case (Counted w k)
    with Some have fam: "mp_family c = Some (Counted w k)" by simp
    from read_count_counted(2,4) [OF fam]
    have u: "unat (word_of_nat k * word_of_nat (be_nat (take w xs)) :: u64) = k * be_nat (take w xs)"
      by (intro unat_count) auto
    then have z: "(word_of_nat k * word_of_nat (be_nat (take w xs)) :: u64) = 0 \<longleftrightarrow> k * be_nat (take w xs) = 0"
      by (metis unat_eq_zero)
    show ?thesis
      using assms code_shape_family(5) [OF fam]
      by (subst validate_loop.simps) (simp add: read_count_counted [OF fam] Let_def fam u z)
  qed
qed

subsection \<open>Correctness of the validator\<close>

lemma container_accepts:
  assumes len: "length remaining = maxMessagePackDepth + 1" and dep: "depth \<le> maxMessagePackDepth"
    and n: "unat (word_of_nat n :: u64) = n"
    and IH: "\<And>rem' d'. length rem' = maxMessagePackDepth + 1 \<Longrightarrow> d' \<le> maxMessagePackDepth \<Longrightarrow> d' \<le> depth + 1 \<Longrightarrow>
      validate_loop mc rem' d' xs \<noteq> VPanic \<and> (validate_loop mc rem' d' xs = VOk \<longleftrightarrow> stack_accepts rem' d' xs)"
    and L: "L = (if n > length xs then VErr e1 else if depth = maxMessagePackDepth then VErr e2
          else if n = 0 then validate_loop mc remaining depth xs
          else if length remaining \<le> depth + 1 then VPanic
          else validate_loop mc (remaining[depth + 1 := word_of_nat n]) (depth + 1) xs)"
  shows "L \<noteq> VPanic \<and> (L = VOk \<longleftrightarrow> 0 < maxMessagePackDepth - depth \<and>
     (\<exists>a b. xs = a @ b \<and> mp_values (maxMessagePackDepth - depth - 1) n a \<and> stack_accepts remaining depth b))"
proof (cases "n > length xs \<or> depth = maxMessagePackDepth")
  case True
  with L show ?thesis by (auto dest!: mp_values_length)
next
  case False
  show ?thesis
  proof (cases "n = 0")
    case True
    with False L IH [of remaining depth] len dep show ?thesis by auto
  next
    case nz: False
    with False L IH [of "remaining[depth + 1 := word_of_nat n]" "depth + 1"] len dep
      stack_accepts_push [of depth remaining "word_of_nat n" xs] n
    show ?thesis by auto
  qed
qed

lemma validate_loop_accepts:
  assumes "length remaining = maxMessagePackDepth + 1" and "depth \<le> maxMessagePackDepth"
  shows "validate_loop msgpcode_spec remaining depth data \<noteq> VPanic \<and>
    (validate_loop msgpcode_spec remaining depth data = VOk \<longleftrightarrow> stack_accepts remaining depth data)"
  using assms
proof (induction "length data * 66 + depth" arbitrary: remaining depth data rule: less_induct)
  case less
  note len = less.prems(1) and dep = less.prems(2)
  let ?r = "remaining[depth := remaining ! depth - 1]"
  have inb: "depth < length remaining" using len dep by simp
  have IH: "validate_loop msgpcode_spec rem' d' ys \<noteq> VPanic \<and>
      (validate_loop msgpcode_spec rem' d' ys = VOk \<longleftrightarrow> stack_accepts rem' d' ys)"
    if "length rem' = maxMessagePackDepth + 1" "d' \<le> maxMessagePackDepth" "d' \<le> depth + 1" "length ys < length data"
    for rem' d' ys
    using that less.hyps [of ys d' rem'] by simp
  show ?case
  proof (cases "remaining ! depth = 0")
    case True
    show ?thesis
    proof (cases depth)
      case 0
      with True inb show ?thesis by (subst (1 2) validate_loop.simps) simp
    next
      case (Suc e)
      with True less.hyps [of data e remaining] len dep inb show ?thesis
        by (subst (1 2) validate_loop.simps) simp
    qed
  next
    case nz: False
    note consume = stack_accepts_consume [OF nz inb, of data]
    show ?thesis
    proof (cases data)
      case Nil
      with nz inb consume show ?thesis by (subst (1 2) validate_loop.simps) simp
    next
      case (Cons c xs)
      note V = validate_loop_value [OF inb nz, of c xs, unfolded Let_def]
      show ?thesis
      proof (cases "mp_family c")
        case None
        have "\<not> mp_value d (c # ys)" for d ys by (simp add: mp_value_Cons None)
        then have "\<not> stack_accepts remaining depth data"
          unfolding consume using Cons by (auto simp: Cons_eq_append_conv)
        with None V Cons show ?thesis by simp
      next
        case (Some f)
        show ?thesis
        proof (cases f)
          case (Scalar n)
          with Some V Cons consume consume_scalar [of c n xs] IH [of ?r depth "drop n xs"] len dep
          show ?thesis by auto
        next
          case (Blob w x)
          with Some V Cons consume consume_blob [of c w x xs]
            IH [of ?r depth "drop (be_nat (take w xs) + x) (drop w xs)"] len dep
          show ?thesis by auto
        next
          case (Small n)
          with Some have fam: "mp_family c = Some (Small n)" by simp
          have n: "unat (word_of_nat n :: u64) = n"
            using shape_agrees [of c] fam by (simp add: shape_agrees_def unat_of_nat)
          show ?thesis
            unfolding consume unfolding Cons consume_small [OF fam]
            by (rule container_accepts [OF _ dep n]) (use len IH Cons fam V in auto)
        next
          case (Counted w k)
          with Some have fam: "mp_family c = Some (Counted w k)" by simp
          have n: "unat (word_of_nat (k * be_nat (take w xs)) :: u64) = k * be_nat (take w xs)"
            using unat_count(2) [of "take w xs" k] read_count_counted [OF fam] by simp
          show ?thesis
          proof (cases "length xs < w")
            case True
            then show ?thesis
              unfolding consume unfolding Cons consume_counted [OF fam] using V fam by auto
          next
            case False
            let ?L = "validate_loop msgpcode_spec remaining depth (c # xs)"
            have "?L \<noteq> VPanic \<and> (?L = VOk \<longleftrightarrow> 0 < maxMessagePackDepth - depth \<and>
              (\<exists>a b. drop w xs = a @ b \<and> mp_values (maxMessagePackDepth - depth - 1) (k * be_nat (take w xs)) a \<and>
                stack_accepts ?r depth b))"
              by (rule container_accepts [OF _ dep n]) (use len IH Cons fam V False in auto)
            with False show ?thesis
              unfolding consume unfolding Cons consume_counted [OF fam] by (simp only: not_less simp_thms)
          qed
        qed
      qed
    qed
  qed
qed
lemma validateMessagePack_accepts:
  assumes "msgpcode_documented mc"
  shows "validateMessagePack mc data \<noteq> VPanic \<and>
         (validateMessagePack mc data = VOk \<longleftrightarrow> mp_value 64 data)"
proof -
  have "mp_values 64 (Suc 0) data = mp_value 64 data"
    by (simp add: mp_values_Suc)
  with assms validate_loop_accepts [of "(replicate (maxMessagePackDepth + 1) 0)[0 := 1]" 0 data]
  show ?thesis
    by (simp add: validateMessagePack_def msgpcode_documented_def maxMessagePackDepth_def)
qed

text \<open>C3. validateMessagePack accepts exactly the inputs that are one complete MessagePack value
  with at most 64 nested containers and nothing after it, and never indexes outside its
  fixed array of counters: the stack of counters, the early length checks and the
  two-level switch compute the recursive grammar of the format, for every input.\<close>

theorem validateMessagePack_correct:
  assumes "msgpcode_documented mc"
  shows "validateMessagePack mc data \<noteq> VPanic \<and>
         (validateMessagePack mc data = VOk \<longleftrightarrow> mp_value 64 data)"
  using assms by (rule validateMessagePack_accepts)

theorem validateMessagePack_correct_witness:
  "msgpcode_documented msgpcode_spec \<and>
   validateMessagePack msgpcode_spec [0x92, 0x01, 0xa1, 0x61] = VOk \<and>
   mp_value 64 [0x92, 0x01, 0xa1, 0x61]"
proof -
  have ok: "validateMessagePack msgpcode_spec [0x92, 0x01, 0xa1, 0x61] = VOk" by code_simp
  have doc: "msgpcode_documented msgpcode_spec" by (simp add: msgpcode_documented_def)
  from ok doc validateMessagePack_correct [OF doc, of "[0x92, 0x01, 0xa1, 0x61]"] show ?thesis by blast
qed

end
