(* ===== verification/Protocol.thy ===== *)
theory Protocol
  imports Msgpack
begin

text \<open>
  The wire vocabulary (\<^verbatim>\<open>protocol.go\<close>) and the codec interface (\<^verbatim>\<open>codec.go\<close>).

  \<^verbatim>\<open>FrameType\<close> and \<^verbatim>\<open>StreamKind\<close> are named bytes in Go. Here they are datatypes with the
  source's constants and one more constructor for the bytes without a name;
  \<open>FrameType_byte\<close> and \<open>FrameType_of_byte\<close> relate them to the \<^verbatim>\<open>iota + 1\<close> numbering.

  A \<open>Codec\<close> is the interface of the same name. \<^verbatim>\<open>Marshal(v any)\<close> and
  \<^verbatim>\<open>Unmarshal(data, &v)\<close> are one field per type the library passes to them: the frame
  envelope, the handshake messages, the remote error and, for application values, a type
  variable. The MessagePack library itself is third-party code and stays a parameter
  (\<open>lib\<close>): \<open>MessagePackCodec mc lib\<close> is the default codec over it, which validates
  every input before the library sees it.
\<close>

definition ProtocolVersion :: u16 where
  "ProtocolVersion = 1"

definition capabilityStreamCredit :: string where
  "capabilityStreamCredit = ''stream-credit-v1''"

datatype FrameType =
    FrameHello | FrameHelloAck | FrameRequest | FrameResponse | FrameError | FrameCancel
  | FramePing | FramePong | FrameStreamItem | FrameStreamEnd | FrameAuth | FrameAuthAck
  | FrameNotify | FrameStreamStart | FrameStreamWindow | FrameOther byte

fun FrameType_byte :: "FrameType \<Rightarrow> byte" where
  "FrameType_byte FrameHello = 1"
| "FrameType_byte FrameHelloAck = 2"
| "FrameType_byte FrameRequest = 3"
| "FrameType_byte FrameResponse = 4"
| "FrameType_byte FrameError = 5"
| "FrameType_byte FrameCancel = 6"
| "FrameType_byte FramePing = 7"
| "FrameType_byte FramePong = 8"
| "FrameType_byte FrameStreamItem = 9"
| "FrameType_byte FrameStreamEnd = 10"
| "FrameType_byte FrameAuth = 11"
| "FrameType_byte FrameAuthAck = 12"
| "FrameType_byte FrameNotify = 13"
| "FrameType_byte FrameStreamStart = 14"
| "FrameType_byte FrameStreamWindow = 15"
| "FrameType_byte (FrameOther b) = b"

definition FrameType_of_byte :: "byte \<Rightarrow> FrameType" where
  "FrameType_of_byte b =
     (case find (\<lambda>t. FrameType_byte t = b)
        [FrameHello, FrameHelloAck, FrameRequest, FrameResponse, FrameError, FrameCancel,
         FramePing, FramePong, FrameStreamItem, FrameStreamEnd, FrameAuth, FrameAuthAck,
         FrameNotify, FrameStreamStart, FrameStreamWindow] of
        Some t \<Rightarrow> t
      | None \<Rightarrow> FrameOther b)"

fun FrameType_String :: "FrameType \<Rightarrow> string" where
  "FrameType_String FrameHello = ''hello''"
| "FrameType_String FrameHelloAck = ''hello_ack''"
| "FrameType_String FrameRequest = ''request''"
| "FrameType_String FrameResponse = ''response''"
| "FrameType_String FrameError = ''error''"
| "FrameType_String FrameCancel = ''cancel''"
| "FrameType_String FramePing = ''ping''"
| "FrameType_String FramePong = ''pong''"
| "FrameType_String FrameStreamItem = ''stream_item''"
| "FrameType_String FrameStreamEnd = ''stream_end''"
| "FrameType_String FrameAuth = ''auth''"
| "FrameType_String FrameAuthAck = ''auth_ack''"
| "FrameType_String FrameNotify = ''notify''"
| "FrameType_String FrameStreamStart = ''stream_start''"
| "FrameType_String FrameStreamWindow = ''stream_window''"
| "FrameType_String (FrameOther b) = ''unknown''"

datatype StreamKind = StreamKindServer | StreamKindClient | StreamKindBidi | StreamKindOther byte

fun StreamKind_String :: "StreamKind \<Rightarrow> string" where
  "StreamKind_String StreamKindServer = ''server''"
| "StreamKind_String StreamKindClient = ''client''"
| "StreamKind_String StreamKindBidi = ''bidi''"
| "StreamKind_String (StreamKindOther b) = ''unknown''"

definition StreamKind_byte :: "StreamKind \<Rightarrow> byte" where
  "StreamKind_byte k =
     (case k of StreamKindServer \<Rightarrow> 1 | StreamKindClient \<Rightarrow> 2 | StreamKindBidi \<Rightarrow> 3
      | StreamKindOther b \<Rightarrow> b)"

definition StreamKind_of_byte :: "byte \<Rightarrow> StreamKind" where
  "StreamKind_of_byte b =
     (if b = 1 then StreamKindServer else if b = 2 then StreamKindClient
      else if b = 3 then StreamKindBidi else StreamKindOther b)"

record Frame =
  Version :: u16
  Type :: FrameType
  RequestID :: u64
  Function :: string
  fStreamKind :: StreamKind
  Compression :: string
  DeadlineUnixNano :: int
  Payload :: bytes
  WindowItems :: u64
  WindowBytes :: u64

text \<open>The zero value \<^verbatim>\<open>Frame{}\<close>; composite literals are updates of it.\<close>

definition zeroFrame :: Frame where
  "zeroFrame = \<lparr>Version = 0, Type = FrameOther 0, RequestID = 0, Function = '''',
     fStreamKind = StreamKindOther 0, Compression = '''', DeadlineUnixNano = 0, Payload = [],
     WindowItems = 0, WindowBytes = 0\<rparr>"

text \<open>The frames of the model that are values of the Go type: bytes with a name are written by
  their name and the deadline is an \<^verbatim>\<open>int64\<close>.\<close>

definition Frame_valid :: "Frame \<Rightarrow> bool" where
  "Frame_valid f \<longleftrightarrow>
     FrameType_of_byte (FrameType_byte (Type f)) = Type f \<and>
     StreamKind_of_byte (StreamKind_byte (fStreamKind f)) = fStreamKind f \<and>
     - MaxInt64 - 1 \<le> DeadlineUnixNano f \<and> DeadlineUnixNano f \<le> MaxInt64"

record hello =
  h_ProtocolVersion :: u16
  h_Codec :: string
  h_ClientName :: string
  h_Compression :: string
  h_AuthMethod :: string
  h_Capabilities :: "string list"

record helloAck =
  a_ProtocolVersion :: u16
  a_Codec :: string
  a_Compression :: string
  a_AuthRequired :: bool
  a_AuthMethod :: string
  a_AuthChallenge :: bytes
  a_Capabilities :: "string list"

record authRequest =
  ar_Method :: string
  ar_Signature :: bytes

record authAck =
  aa_OK :: bool

record 'v Codec =
  codec_Name :: string
  MarshalFrame :: "Frame \<Rightarrow> bytes res"
  UnmarshalFrame :: "bytes \<Rightarrow> Frame res"
  MarshalHello :: "hello \<Rightarrow> bytes res"
  UnmarshalHello :: "bytes \<Rightarrow> hello res"
  MarshalHelloAck :: "helloAck \<Rightarrow> bytes res"
  UnmarshalHelloAck :: "bytes \<Rightarrow> helloAck res"
  MarshalAuthRequest :: "authRequest \<Rightarrow> bytes res"
  UnmarshalAuthRequest :: "bytes \<Rightarrow> authRequest res"
  MarshalAuthAck :: "authAck \<Rightarrow> bytes res"
  UnmarshalAuthAck :: "bytes \<Rightarrow> authAck res"
  MarshalRemoteError :: "RemoteError \<Rightarrow> bytes res"
  UnmarshalRemoteError :: "bytes \<Rightarrow> RemoteError res"
  MarshalValue :: "'v \<Rightarrow> bytes res"
  UnmarshalValue :: "bytes \<Rightarrow> 'v res"

definition CodecMessagePack :: string where
  "CodecMessagePack = ''msgpack''"

text \<open>\<^verbatim>\<open>MessagePackCodec.Unmarshal\<close>: validate, then hand the same bytes to the library. A panic of
  the validator would unwind through \<^verbatim>\<open>Unmarshal\<close>; it is represented as an error here and
  shown impossible below.\<close>

definition MessagePackCodec_Unmarshal :: "msgpcode \<Rightarrow> (bytes \<Rightarrow> 'a res) \<Rightarrow> bytes \<Rightarrow> 'a res" where
  "MessagePackCodec_Unmarshal mc lib_unmarshal data =
     (case validateMessagePack mc data of
        VErr e \<Rightarrow> Inl e
      | VPanic \<Rightarrow> Inl (Opaque ''panic'')
      | VOk \<Rightarrow> lib_unmarshal data)"

definition MessagePackCodec :: "msgpcode \<Rightarrow> 'v Codec \<Rightarrow> 'v Codec" where
  "MessagePackCodec mc lib = lib\<lparr>
     codec_Name := CodecMessagePack,
     UnmarshalFrame := MessagePackCodec_Unmarshal mc (UnmarshalFrame lib),
     UnmarshalHello := MessagePackCodec_Unmarshal mc (UnmarshalHello lib),
     UnmarshalHelloAck := MessagePackCodec_Unmarshal mc (UnmarshalHelloAck lib),
     UnmarshalAuthRequest := MessagePackCodec_Unmarshal mc (UnmarshalAuthRequest lib),
     UnmarshalAuthAck := MessagePackCodec_Unmarshal mc (UnmarshalAuthAck lib),
     UnmarshalRemoteError := MessagePackCodec_Unmarshal mc (UnmarshalRemoteError lib),
     UnmarshalValue := MessagePackCodec_Unmarshal mc (UnmarshalValue lib)\<rparr>"

definition defaultCodec :: "msgpcode \<Rightarrow> 'v Codec \<Rightarrow> 'v Codec option \<Rightarrow> 'v Codec" where
  "defaultCodec mc lib codec = (case codec of None \<Rightarrow> MessagePackCodec mc lib | Some c \<Rightarrow> c)"

subsection \<open>What the library relies on\<close>

text \<open>A codec reads back what it wrote. This is the documented contract of \<^verbatim>\<open>Codec\<close> on the types
  the library itself passes to it; nothing is assumed about bytes the codec did not write.\<close>

definition codec_lawful :: "'v Codec \<Rightarrow> bool" where
  "codec_lawful c \<longleftrightarrow>
     (\<forall>f d. Frame_valid f \<longrightarrow> MarshalFrame c f = Inr d \<longrightarrow> UnmarshalFrame c d = Inr f) \<and>
     (\<forall>h d. MarshalHello c h = Inr d \<longrightarrow> UnmarshalHello c d = Inr h) \<and>
     (\<forall>a d. MarshalHelloAck c a = Inr d \<longrightarrow> UnmarshalHelloAck c d = Inr a) \<and>
     (\<forall>a d. MarshalAuthRequest c a = Inr d \<longrightarrow> UnmarshalAuthRequest c d = Inr a) \<and>
     (\<forall>a d. MarshalAuthAck c a = Inr d \<longrightarrow> UnmarshalAuthAck c d = Inr a) \<and>
     (\<forall>e d. MarshalRemoteError c e = Inr d \<longrightarrow> UnmarshalRemoteError c d = Inr e)"

subsection \<open>Facts\<close>

lemma codec_lawfulD:
  assumes "codec_lawful c"
  shows "Frame_valid f \<Longrightarrow> MarshalFrame c f = Inr d \<Longrightarrow> UnmarshalFrame c d = Inr f"
    and "MarshalHello c h = Inr d \<Longrightarrow> UnmarshalHello c d = Inr h"
    and "MarshalHelloAck c a = Inr d \<Longrightarrow> UnmarshalHelloAck c d = Inr a"
    and "MarshalAuthRequest c r = Inr d \<Longrightarrow> UnmarshalAuthRequest c d = Inr r"
    and "MarshalAuthAck c k = Inr d \<Longrightarrow> UnmarshalAuthAck c d = Inr k"
    and "MarshalRemoteError c e = Inr d \<Longrightarrow> UnmarshalRemoteError c d = Inr e"
  using assms by (auto simp: codec_lawful_def)

lemma FrameType_byte_of_byte [simp]: "FrameType_byte (FrameType_of_byte b) = b"
  by (auto simp: FrameType_of_byte_def find_Some_iff split: option.splits)

lemma FrameType_of_byte_byte: "\<forall>b. t \<noteq> FrameOther b \<Longrightarrow> FrameType_of_byte (FrameType_byte t) = t"
  by (cases t) (simp_all add: FrameType_of_byte_def)

text \<open>The library only ever decodes well-formed input: whatever a default codec returns from
  Unmarshal, the bytes were one complete MessagePack value within the nesting limit, and on
  every other input the error is raised before the library is called, whatever the library
  would have done with it.\<close>

theorem MessagePackCodec_guards_library:
  assumes "msgpcode_documented mc"
  shows "(\<not> mp_value 64 data \<longrightarrow>
            (\<exists>e. \<forall>lib :: 'v Codec. UnmarshalValue (MessagePackCodec mc lib) data = Inl e \<and>
                 UnmarshalFrame (MessagePackCodec mc lib) data = Inl e)) \<and>
         (mp_value 64 data \<longrightarrow>
            UnmarshalValue (MessagePackCodec mc lib) data = UnmarshalValue lib data \<and>
            UnmarshalFrame (MessagePackCodec mc lib) data = UnmarshalFrame lib data)"
proof -
  note ok = validateMessagePack_accepts [OF assms, of data]
  then show ?thesis
    by (cases "validateMessagePack mc data")
       (auto simp: MessagePackCodec_def MessagePackCodec_Unmarshal_def)
qed

end
