(* ===== verification/Sample_Codec.thy ===== *)
theory Sample_Codec
  imports Protocol
begin

text \<open>
  A concrete codec, used only to instantiate the codec parameter in witnesses: a byte string
  is written as its bytes each preceded by a one and closed by a zero, integers with eight
  bytes, records field by field. Application values are byte strings and encode to
  themselves. \<open>sampleCodec_lawful\<close> shows that it meets \<open>codec_lawful\<close>, so
  the hypotheses on codecs in this development can be met.
\<close>

fun put_bytes :: "bytes \<Rightarrow> bytes" where
  "put_bytes [] = [0]"
| "put_bytes (b # bs) = 1 # b # put_bytes bs"

fun get_bytes :: "bytes \<Rightarrow> bytes \<times> bytes" where
  "get_bytes (k # b # r) =
     (if k = 0 then ([], b # r) else (case get_bytes r of (bs, r') \<Rightarrow> (b # bs, r')))"
| "get_bytes [k] = ([], [])"
| "get_bytes [] = ([], [])"

definition put_string :: "string \<Rightarrow> bytes" where
  "put_string s = put_bytes (bytes_of_string s)"

definition get_string :: "bytes \<Rightarrow> string \<times> bytes" where
  "get_string xs = (case get_bytes xs of (b, r) \<Rightarrow> (string_of_bytes b, r))"

definition put_u64 :: "u64 \<Rightarrow> bytes" where
  "put_u64 v = PutUint32 (ucast (drop_bit 32 v)) @ PutUint32 (ucast v)"

definition get_u64 :: "bytes \<Rightarrow> u64 \<times> bytes" where
  "get_u64 xs = (word_of_nat (be_nat (take 4 xs) * 4294967296 + be_nat (take 4 (drop 4 xs))), drop 8 xs)"

definition get_u16 :: "bytes \<Rightarrow> u16 \<times> bytes" where
  "get_u16 xs = (word_of_nat (be_nat (take 2 xs)), drop 2 xs)"

definition get_byte :: "bytes \<Rightarrow> byte \<times> bytes" where
  "get_byte xs = (case xs of [] \<Rightarrow> (0, []) | b # r \<Rightarrow> (b, r))"

definition put_bool :: "bool \<Rightarrow> bytes" where
  "put_bool b = [if b then 1 else 0]"

definition get_bool :: "bytes \<Rightarrow> bool \<times> bytes" where
  "get_bool xs = (case get_byte xs of (b, r) \<Rightarrow> (b = 1, r))"

fun put_strings :: "string list \<Rightarrow> bytes" where
  "put_strings [] = [0]"
| "put_strings (s # ss) = 1 # put_string s @ put_strings ss"

fun get_strings :: "nat \<Rightarrow> bytes \<Rightarrow> string list \<times> bytes" where
  "get_strings (Suc n) (k # r) =
     (if k = 0 then ([], r)
      else (case get_string r of (s, r1) \<Rightarrow> (case get_strings n r1 of (ss, r2) \<Rightarrow> (s # ss, r2))))"
| "get_strings _ xs = ([], xs)"

definition sample_put_frame :: "Frame \<Rightarrow> bytes" where
  "sample_put_frame f =
     PutUint16 (Version f) @ [FrameType_byte (Type f)] @ put_u64 (RequestID f) @
     put_string (Function f) @ [StreamKind_byte (fStreamKind f)] @ put_string (Compression f) @
     put_u64 (word_of_int (DeadlineUnixNano f)) @ put_bytes (Payload f) @
     put_u64 (WindowItems f) @ put_u64 (WindowBytes f)"

definition sample_get_frame :: "bytes \<Rightarrow> Frame" where
  "sample_get_frame xs =
     (let (v, xs) = get_u16 xs; (t, xs) = get_byte xs; (r, xs) = get_u64 xs; (f, xs) = get_string xs;
          (k, xs) = get_byte xs; (c, xs) = get_string xs; (d, xs) = get_u64 xs;
          (p, xs) = get_bytes xs; (wi, xs) = get_u64 xs; (wb, xs) = get_u64 xs
      in \<lparr>Version = v, Type = FrameType_of_byte t, RequestID = r, Function = f,
          fStreamKind = StreamKind_of_byte k, Compression = c, DeadlineUnixNano = sint d,
          Payload = p, WindowItems = wi, WindowBytes = wb\<rparr>)"

definition sample_put_hello :: "hello \<Rightarrow> bytes" where
  "sample_put_hello h =
     PutUint16 (h_ProtocolVersion h) @ put_string (h_Codec h) @ put_string (h_ClientName h) @
     put_string (h_Compression h) @ put_string (h_AuthMethod h) @ put_strings (h_Capabilities h)"

definition sample_get_hello :: "bytes \<Rightarrow> hello" where
  "sample_get_hello xs =
     (let (v, xs) = get_u16 xs; (c, xs) = get_string xs; (n, xs) = get_string xs;
          (z, xs) = get_string xs; (a, xs) = get_string xs; (k, xs) = get_strings (length xs) xs
      in \<lparr>h_ProtocolVersion = v, h_Codec = c, h_ClientName = n, h_Compression = z,
          h_AuthMethod = a, h_Capabilities = k\<rparr>)"

definition sample_put_helloAck :: "helloAck \<Rightarrow> bytes" where
  "sample_put_helloAck a =
     PutUint16 (a_ProtocolVersion a) @ put_string (a_Codec a) @ put_string (a_Compression a) @
     put_bool (a_AuthRequired a) @ put_string (a_AuthMethod a) @ put_bytes (a_AuthChallenge a) @
     put_strings (a_Capabilities a)"

definition sample_get_helloAck :: "bytes \<Rightarrow> helloAck" where
  "sample_get_helloAck xs =
     (let (v, xs) = get_u16 xs; (c, xs) = get_string xs; (z, xs) = get_string xs;
          (r, xs) = get_bool xs; (m, xs) = get_string xs; (ch, xs) = get_bytes xs;
          (k, xs) = get_strings (length xs) xs
      in \<lparr>a_ProtocolVersion = v, a_Codec = c, a_Compression = z, a_AuthRequired = r,
          a_AuthMethod = m, a_AuthChallenge = ch, a_Capabilities = k\<rparr>)"

definition sample_put_authRequest :: "authRequest \<Rightarrow> bytes" where
  "sample_put_authRequest a = put_string (ar_Method a) @ put_bytes (ar_Signature a)"

definition sample_get_authRequest :: "bytes \<Rightarrow> authRequest" where
  "sample_get_authRequest xs =
     (let (m, xs) = get_string xs; (s, xs) = get_bytes xs in \<lparr>ar_Method = m, ar_Signature = s\<rparr>)"

fun put_details :: "(string \<times> bytes) list \<Rightarrow> bytes" where
  "put_details [] = [0]"
| "put_details ((k, v) # ds) = 1 # put_string k @ put_bytes v @ put_details ds"

fun get_details :: "nat \<Rightarrow> bytes \<Rightarrow> (string \<times> bytes) list \<times> bytes" where
  "get_details (Suc n) (k # r) =
     (if k = 0 then ([], r)
      else (case get_string r of (s, r1) \<Rightarrow> (case get_bytes r1 of (v, r2) \<Rightarrow>
              (case get_details n r2 of (ds, r3) \<Rightarrow> ((s, v) # ds, r3)))))"
| "get_details _ xs = ([], xs)"

definition sample_put_RemoteError :: "RemoteError \<Rightarrow> bytes" where
  "sample_put_RemoteError e = put_string (Code e) @ put_string (Message e) @ put_details (Details e)"

definition sample_get_RemoteError :: "bytes \<Rightarrow> RemoteError" where
  "sample_get_RemoteError xs =
     (let (c, xs) = get_string xs; (m, xs) = get_string xs; (d, xs) = get_details (length xs) xs
      in \<lparr>Code = c, Message = m, Details = d\<rparr>)"

definition sampleCodec :: "bytes Codec" where
  "sampleCodec = \<lparr>
     codec_Name = ''sample'',
     MarshalFrame = (\<lambda>f. Inr (sample_put_frame f)),
     UnmarshalFrame = (\<lambda>b. Inr (sample_get_frame b)),
     MarshalHello = (\<lambda>h. Inr (sample_put_hello h)),
     UnmarshalHello = (\<lambda>b. Inr (sample_get_hello b)),
     MarshalHelloAck = (\<lambda>h. Inr (sample_put_helloAck h)),
     UnmarshalHelloAck = (\<lambda>b. Inr (sample_get_helloAck b)),
     MarshalAuthRequest = (\<lambda>h. Inr (sample_put_authRequest h)),
     UnmarshalAuthRequest = (\<lambda>b. Inr (sample_get_authRequest b)),
     MarshalAuthAck = (\<lambda>a. Inr (put_bool (aa_OK a))),
     UnmarshalAuthAck = (\<lambda>b. Inr \<lparr>aa_OK = fst (get_bool b)\<rparr>),
     MarshalRemoteError = (\<lambda>e. Inr (sample_put_RemoteError e)),
     UnmarshalRemoteError = (\<lambda>b. Inr (sample_get_RemoteError b)),
     MarshalValue = (\<lambda>v. Inr v),
     UnmarshalValue = (\<lambda>b. Inr b)\<rparr>"

subsection \<open>The codec is lawful\<close>

lemma get_put_bytes [simp]: "get_bytes (put_bytes bs @ r) = (bs, r)"
  by (induction bs) (simp_all, cases r, simp_all)

lemma get_put_string [simp]: "get_string (put_string s @ r) = (s, r)"
  by (simp add: get_string_def put_string_def)

lemma get_put_byte [simp]: "get_byte (b # r) = (b, r)"
  by (simp add: get_byte_def)

lemma get_put_bool [simp]: "get_bool (put_bool b @ r) = (b, r)"
  by (simp add: get_bool_def put_bool_def)

lemma get_put_u16 [simp]: "get_u16 (PutUint16 v @ r) = (v, r)"
  by (simp add: get_u16_def)

lemma u64_halves: "unat (v :: u64) = unat (ucast (drop_bit 32 v) :: u32) * 4294967296 + unat (ucast v :: u32)"
proof -
  have "unat v < 2 ^ 64" using unsigned_less [of v] by simp
  then have "unat v div 4294967296 < 4294967296" by simp
  then show ?thesis
    by (simp add: unsigned_ucast_eq unat_drop_bit_eq drop_bit_eq_div take_bit_eq_mod unat_div)
qed

lemma get_put_u64 [simp]: "get_u64 (put_u64 v @ r) = (v, r)"
  by (simp add: get_u64_def put_u64_def flip: u64_halves)

lemma get_put_strings [simp]:
  "length ss < n \<Longrightarrow> get_strings n (put_strings ss @ r) = (ss, r)"
proof (induction ss arbitrary: n)
  case Nil then show ?case by (cases n) simp_all
next
  case (Cons s ss) then show ?case by (cases n) simp_all
qed

lemma get_put_details [simp]:
  "length ds < n \<Longrightarrow> get_details n (put_details ds @ r) = (ds, r)"
proof (induction ds arbitrary: n)
  case Nil then show ?case by (cases n) simp_all
next
  case (Cons d ds) then show ?case by (cases n; cases d) simp_all
qed

lemma length_put_strings: "length ss < length (put_strings ss)"
  by (induction ss) simp_all

lemma length_put_details: "length ds < length (put_details ds)"
  by (induction ds) auto

lemmas get_put_last [simp] =
  get_put_bytes [of _ "[]", simplified] get_put_string [of _ "[]", simplified]
  get_put_u64 [of _ "[]", simplified] get_put_bool [of _ "[]", simplified]
  get_put_strings [OF length_put_strings, of _ "[]", simplified]
  get_put_details [OF length_put_details, of _ "[]", simplified]

lemma sint_word_of_int_64:
  "- MaxInt64 - 1 \<le> d \<Longrightarrow> d \<le> MaxInt64 \<Longrightarrow> sint (word_of_int d :: u64) = d"
  by (simp add: sint_sbintrunc' MaxInt64_def signed_take_bit_int_eq_self_iff)

lemma sample_get_put_frame: "Frame_valid f \<Longrightarrow> sample_get_frame (sample_put_frame f) = f"
  by (simp add: sample_get_frame_def sample_put_frame_def Frame_valid_def sint_word_of_int_64)

lemma sample_get_put_handshake:
  "sample_get_hello (sample_put_hello h) = h"
  "sample_get_helloAck (sample_put_helloAck a) = a"
  "sample_get_authRequest (sample_put_authRequest q) = q"
  "sample_get_RemoteError (sample_put_RemoteError e) = e"
  by (simp_all add: sample_get_hello_def sample_put_hello_def sample_get_helloAck_def
      sample_put_helloAck_def sample_get_authRequest_def sample_put_authRequest_def
      sample_get_RemoteError_def sample_put_RemoteError_def)

lemma sampleCodec_lawful: "codec_lawful sampleCodec"
  by (simp add: codec_lawful_def sampleCodec_def sample_get_put_frame sample_get_put_handshake)

text \<open>The default codec over a library, on one well-formed input.\<close>

theorem MessagePackCodec_guards_library_witness:
  "msgpcode_documented msgpcode_spec \<and>
   mp_value 64 [0x92, 0x01, 0xa1, 0x61] \<and>
   UnmarshalValue (MessagePackCodec msgpcode_spec sampleCodec) [0x92, 0x01, 0xa1, 0x61] =
     Inr [0x92, 0x01, 0xa1, 0x61]"
proof -
  have doc: "msgpcode_documented msgpcode_spec" by (simp add: msgpcode_documented_def)
  have "validateMessagePack msgpcode_spec [0x92, 0x01, 0xa1, 0x61] = VOk" by code_simp
  with validateMessagePack_accepts [OF doc] have v: "mp_value 64 [0x92, 0x01, 0xa1, 0x61]" by blast
  from v doc MessagePackCodec_guards_library [OF doc, of "[0x92, 0x01, 0xa1, 0x61]" sampleCodec]
  show ?thesis by (simp add: sampleCodec_def)
qed

end
