(* ===== verification/Framing.thy ===== *)
theory Framing
  imports Sample_Codec
begin

text \<open>
  Length-prefixed frames on a byte stream (\<^verbatim>\<open>frame.go\<close>) and payload compression
  (\<^verbatim>\<open>compression.go\<close>).

  An \<^verbatim>\<open>io.Reader\<close> is the bytes it will deliver followed by the error it then reports; an
  \<^verbatim>\<open>io.Writer\<close> is the bytes it has accepted, whether it is a \<^verbatim>\<open>*net.TCPConn\<close>, and the script of
  its next outcomes (how many bytes it takes and the error it reports), so that short and
  failed writes are inputs of the model. \<^verbatim>\<open>compress/gzip\<close> is the record \<open>gzip_lib\<close> of the
  calls the source makes; a \<open>Compressor\<close> is the interface with the optional
  \<^verbatim>\<open>LimitedDecompressor\<close> method.
\<close>

subsection \<open>Readers and writers\<close>

record Reader =
  r_data :: bytes
  r_end :: gerror

record Writer =
  w_out :: bytes
  w_tcp :: bool
  w_script :: "(nat \<times> gerror option) list"

definition io_ReadFull :: "Reader \<Rightarrow> nat \<Rightarrow> bytes res \<times> Reader" where
  "io_ReadFull r n =
     (if n \<le> length (r_data r) then (Inr (take n (r_data r)), r\<lparr>r_data := drop n (r_data r)\<rparr>)
      else if r_data r = [] then (Inl (r_end r), r)
      else (Inl (if r_end r = Sentinel IoEOF then Sentinel IoErrUnexpectedEOF else r_end r),
            r\<lparr>r_data := []\<rparr>))"

definition io_ReadAll_Limit :: "Reader \<Rightarrow> int \<Rightarrow> bytes res" where
  "io_ReadAll_Limit r n =
     (if n \<le> int (length (r_data r)) then Inr (take (nat n) (r_data r))
      else if r_end r = Sentinel IoEOF then Inr (r_data r)
      else Inl (r_end r))"

definition io_Write :: "Writer \<Rightarrow> bytes \<Rightarrow> nat \<times> gerror option \<times> Writer" where
  "io_Write w p =
     (case w_script w of
        [] \<Rightarrow> (length p, None, w\<lparr>w_out := w_out w @ p\<rparr>)
      | (n, err) # rest \<Rightarrow>
          (min n (length p), err, w\<lparr>w_out := w_out w @ take n p, w_script := rest\<rparr>))"

subsection \<open>Compression\<close>

record Compressor =
  c_Name :: string
  Compress :: "bytes \<Rightarrow> bytes res"
  Decompress :: "bytes \<Rightarrow> bytes res"
  DecompressLimit :: "(bytes \<Rightarrow> int \<Rightarrow> bytes res) option"

record gzip_lib =
  gz_Write :: "bytes \<Rightarrow> bytes res"
  gz_Close :: "bytes \<Rightarrow> bytes res"
  gz_NewReader :: "bytes \<Rightarrow> Reader res"

definition CompressionGzip :: string where
  "CompressionGzip = ''gzip''"

definition DefaultMaxFrameSize :: int where
  "DefaultMaxFrameSize = 64 * 1024 * 1024"

definition normalizeMaxFrameSize :: "int \<Rightarrow> int" where
  "normalizeMaxFrameSize n =
     (if n \<le> 0 then DefaultMaxFrameSize else if n > MaxUint32 then MaxUint32 else n)"

definition gzip_Compress :: "gzip_lib \<Rightarrow> bytes \<Rightarrow> bytes res" where
  "gzip_Compress gz data =
     (case gz_Write gz data of
        Inl e \<Rightarrow> Inl e
      | Inr buf \<Rightarrow> gz_Close gz buf)"

definition gzip_DecompressLimit :: "gzip_lib \<Rightarrow> bytes \<Rightarrow> int \<Rightarrow> bytes res" where
  "gzip_DecompressLimit gz data maxSize =
     (case gz_NewReader gz data of
        Inl e \<Rightarrow> Inl e
      | Inr reader \<Rightarrow>
          (let maxSize = normalizeMaxFrameSize maxSize in
           case io_ReadAll_Limit reader (maxSize + 1) of
             Inl e \<Rightarrow> Inl e
           | Inr payload \<Rightarrow>
               if int (length payload) > maxSize
               then Inl (Errorf_suffix ErrFrameTooLarge
                      (''decompressed payload exceeds '' @ decimal_int maxSize @ '' bytes''))
               else Inr payload))"

definition gzip_Decompress :: "gzip_lib \<Rightarrow> bytes \<Rightarrow> bytes res" where
  "gzip_Decompress gz data = gzip_DecompressLimit gz data DefaultMaxFrameSize"

definition GzipCompression :: "gzip_lib \<Rightarrow> Compressor" where
  "GzipCompression gz =
     \<lparr>c_Name = CompressionGzip, Compress = gzip_Compress gz, Decompress = gzip_Decompress gz,
      DecompressLimit = Some (gzip_DecompressLimit gz)\<rparr>"

definition normalizeCompressor :: "Compressor option \<Rightarrow> Compressor option" where
  "normalizeCompressor compressor =
     (case compressor of
        None \<Rightarrow> None
      | Some c \<Rightarrow> if c_Name c = '''' then None else Some c)"

definition compressorName :: "Compressor option \<Rightarrow> string" where
  "compressorName compressor = (case compressor of None \<Rightarrow> '''' | Some c \<Rightarrow> c_Name c)"

definition ensureCompressor :: "string \<Rightarrow> Compressor option \<Rightarrow> gerror option" where
  "ensureCompressor name compressor =
     (if name = '''' then None
      else case compressor of
          None \<Rightarrow> Some (Errorf_suffix ErrProtocol (''unsupported compression '' @ go_quote name))
        | Some c \<Rightarrow>
            if c_Name c \<noteq> name
            then Some (Errorf_suffix ErrProtocol (''unsupported compression '' @ go_quote name))
            else None)"

subsection \<open>Writing a frame\<close>

text \<open>The tail of \<^verbatim>\<open>writeFrameWithCompression\<close>: one gathered write on TCP (\<^verbatim>\<open>net.Buffers.WriteTo\<close>),
  two writes on any other transport.\<close>

definition writeParts :: "Writer \<Rightarrow> bytes \<Rightarrow> gerror option \<times> Writer" where
  "writeParts w data =
     (let prefix = PutUint32 (word_of_nat (length data)) in
      if w_tcp w then
        (case io_Write w (prefix @ data) of (n, err, w) \<Rightarrow>
           (case err of
              Some e \<Rightarrow> (Some (Errorf_prefix ''write frame'' e), w)
            | None \<Rightarrow> if n \<noteq> 4 + length data then (Some (Sentinel IoErrShortWrite), w) else (None, w)))
      else
        (case io_Write w prefix of (n, err, w) \<Rightarrow>
           (case err of
              Some e \<Rightarrow> (Some (Errorf_prefix ''write frame length'' e), w)
            | None \<Rightarrow>
                if n \<noteq> length prefix then (Some (Sentinel IoErrShortWrite), w)
                else
                  (case io_Write w data of (n, err, w) \<Rightarrow>
                     (case err of
                        Some e \<Rightarrow> (Some (Errorf_prefix ''write frame body'' e), w)
                      | None \<Rightarrow>
                          if n \<noteq> length data then (Some (Sentinel IoErrShortWrite), w)
                          else (None, w))))))"

text \<open>The first half of \<^verbatim>\<open>writeFrameWithCompression\<close>, up to the bytes of the body: the checks on the
  payload, the compression and the checks on the encoding.\<close>

definition compressFrame :: "Compressor option \<Rightarrow> Frame \<Rightarrow> Frame res" where
  "compressFrame compressor frame =
     (case compressor of
        None \<Rightarrow> Inr frame
      | Some c \<Rightarrow>
          if Payload frame = [] then Inr frame
          else (case Compress c (Payload frame) of
                  Inl e \<Rightarrow> Inl (Errorf_prefix ''compress frame payload'' e)
                | Inr payload \<Rightarrow> Inr (frame\<lparr>Payload := payload, Compression := c_Name c\<rparr>)))"

definition encodeFrame ::
  "msgpcode \<Rightarrow> 'v Codec \<Rightarrow> int \<Rightarrow> 'v Codec option \<Rightarrow> Compressor option \<Rightarrow> Frame \<Rightarrow> bytes res" where
  "encodeFrame mc lib maxFrameSize codec compressor frame =
     (let codec = defaultCodec mc lib codec;
          frame = frame\<lparr>Version := ProtocolVersion\<rparr>;
          maxFrameSize = normalizeMaxFrameSize maxFrameSize in
      if int (length (Payload frame)) > maxFrameSize
      then Inl (Errorf_suffix ErrFrameTooLarge
              (''payload exceeds '' @ decimal_int maxFrameSize @ '' bytes''))
      else
        (case compressFrame compressor frame of
           Inl e \<Rightarrow> Inl e
         | Inr frame \<Rightarrow>
             (case MarshalFrame codec frame of
                Inl e \<Rightarrow> Inl (Errorf_prefix ''marshal frame'' e)
              | Inr data \<Rightarrow>
                  if int (length data) > maxFrameSize
                  then Inl (Errorf_suffix ErrFrameTooLarge
                          (decimal (length data) @ '' bytes exceeds '' @ decimal_int maxFrameSize))
                  else if int (length data) > MaxUint32
                  then Inl (Errorf_suffix ErrFrameTooLarge
                          (decimal (length data) @ '' bytes exceeds wire limit''))
                  else Inr data)))"

definition writeFrameWithCompression ::
  "msgpcode \<Rightarrow> 'v Codec \<Rightarrow> Writer \<Rightarrow> int \<Rightarrow> 'v Codec option \<Rightarrow> Compressor option \<Rightarrow> Frame \<Rightarrow>
   gerror option \<times> Writer" where
  "writeFrameWithCompression mc lib w maxFrameSize codec compressor frame =
     (case encodeFrame mc lib maxFrameSize codec compressor frame of
        Inl e \<Rightarrow> (Some e, w)
      | Inr data \<Rightarrow> writeParts w data)"

definition writeFrame ::
  "msgpcode \<Rightarrow> 'v Codec \<Rightarrow> Writer \<Rightarrow> int \<Rightarrow> 'v Codec option \<Rightarrow> Frame \<Rightarrow> gerror option \<times> Writer" where
  "writeFrame mc lib w maxFrameSize codec frame =
     writeFrameWithCompression mc lib w maxFrameSize codec None frame"

subsection \<open>Reading a frame\<close>

definition decompress :: "Compressor \<Rightarrow> bytes \<Rightarrow> int \<Rightarrow> bytes res" where
  "decompress c data m =
     (case DecompressLimit c of
        Some limited \<Rightarrow> limited data m
      | None \<Rightarrow> Decompress c data)"

definition decompressFrame :: "int \<Rightarrow> Compressor option \<Rightarrow> Frame \<Rightarrow> Frame res" where
  "decompressFrame maxFrameSize compressor frame =
     (if Compression frame = '''' then Inr frame
      else case ensureCompressor (Compression frame) compressor of
          Some e \<Rightarrow> Inl e
        | None \<Rightarrow>
            (case (case compressor of
                     None \<Rightarrow> Inl (Opaque ''nil pointer dereference'')
                   | Some c \<Rightarrow> decompress c (Payload frame) maxFrameSize) of
               Inl e \<Rightarrow> Inl (Errorf_prefix ''decompress frame payload'' e)
             | Inr payload \<Rightarrow>
                 if int (length payload) > maxFrameSize
                 then Inl (Errorf_suffix ErrFrameTooLarge
                        (''decompressed payload exceeds '' @ decimal_int maxFrameSize @ '' bytes''))
                 else Inr (frame\<lparr>Payload := payload, Compression := ''''\<rparr>)))"

definition readFrameWithCompression ::
  "msgpcode \<Rightarrow> 'v Codec \<Rightarrow> Reader \<Rightarrow> int \<Rightarrow> 'v Codec option \<Rightarrow> Compressor option \<Rightarrow> Frame res \<times> Reader" where
  "readFrameWithCompression mc lib r maxFrameSize codec compressor =
     (let codec = defaultCodec mc lib codec;
          maxFrameSize = normalizeMaxFrameSize maxFrameSize in
      case io_ReadFull r 4 of
        (Inl e, r) \<Rightarrow> (Inl e, r)
      | (Inr prefix, r) \<Rightarrow>
          (let siz = be_nat prefix in
           if int siz > maxFrameSize
           then (Inl (Errorf_suffix ErrFrameTooLarge
                   (decimal siz @ '' bytes exceeds '' @ decimal_int maxFrameSize)), r)
           else
             (case io_ReadFull r siz of
                (Inl e, r) \<Rightarrow> (Inl e, r)
              | (Inr data, r) \<Rightarrow>
                  (case UnmarshalFrame codec data of
                     Inl e \<Rightarrow> (Inl (Errorf_prefix ''unmarshal frame'' e), r)
                   | Inr frame \<Rightarrow>
                       if Version frame \<noteq> ProtocolVersion
                       then (Inl (Errorf_suffix ErrProtocol
                               (''unsupported version '' @ decimal (unat (Version frame)))), r)
                       else (decompressFrame maxFrameSize compressor frame, r)))))"

definition readFrame ::
  "msgpcode \<Rightarrow> 'v Codec \<Rightarrow> Reader \<Rightarrow> int \<Rightarrow> 'v Codec option \<Rightarrow> Frame res \<times> Reader" where
  "readFrame mc lib r maxFrameSize codec = readFrameWithCompression mc lib r maxFrameSize codec None"


subsection \<open>What is on the wire\<close>

text \<open>The bytes of one frame with a given body.\<close>

definition framed :: "bytes \<Rightarrow> bytes" where
  "framed data = PutUint32 (word_of_nat (length data)) @ data"

text \<open>A compressor returns what it compressed, within any limit the original respects.\<close>

definition compressor_lawful :: "Compressor \<Rightarrow> bool" where
  "compressor_lawful c \<longleftrightarrow>
     (\<forall>x y m. Compress c x = Inr y \<longrightarrow> int (length x) \<le> m \<longrightarrow> m \<le> MaxUint32 \<longrightarrow> decompress c y m = Inr x)"

text \<open>Writing and reading whole sequences of frames.\<close>

fun write_frames ::
  "msgpcode \<Rightarrow> 'v Codec \<Rightarrow> Writer \<Rightarrow> int \<Rightarrow> 'v Codec option \<Rightarrow> Compressor option \<Rightarrow> Frame list \<Rightarrow>
   gerror option \<times> Writer" where
  "write_frames mc lib w m codec cz [] = (None, w)"
| "write_frames mc lib w m codec cz (f # fs) =
     (case writeFrameWithCompression mc lib w m codec cz f of
        (Some e, w') \<Rightarrow> (Some e, w')
      | (None, w') \<Rightarrow> write_frames mc lib w' m codec cz fs)"

fun read_frames ::
  "nat \<Rightarrow> msgpcode \<Rightarrow> 'v Codec \<Rightarrow> Reader \<Rightarrow> int \<Rightarrow> 'v Codec option \<Rightarrow> Compressor option \<Rightarrow>
   Frame list \<times> gerror option \<times> Reader" where
  "read_frames 0 mc lib r m codec cz = ([], None, r)"
| "read_frames (Suc n) mc lib r m codec cz =
     (case readFrameWithCompression mc lib r m codec cz of
        (Inl e, r') \<Rightarrow> ([], Some e, r')
      | (Inr f, r') \<Rightarrow>
          (case read_frames n mc lib r' m codec cz of (fs, e, r'') \<Rightarrow> (f # fs, e, r'')))"

subsection \<open>Facts\<close>

lemma normalizeMaxFrameSize_bounds:
  "0 < normalizeMaxFrameSize n" "normalizeMaxFrameSize n \<le> MaxUint32"
  by (simp_all add: normalizeMaxFrameSize_def DefaultMaxFrameSize_def MaxUint32_def)

lemma normalizeMaxFrameSize_idem [simp]:
  "normalizeMaxFrameSize (normalizeMaxFrameSize n) = normalizeMaxFrameSize n"
  using normalizeMaxFrameSize_bounds [of n] by (simp add: normalizeMaxFrameSize_def [of "normalizeMaxFrameSize n"])

lemma length_framed [simp]: "length (framed data) = 4 + length data"
  by (simp add: framed_def)

lemma io_Write_prefix:
  "io_Write w p = (n, err, w') \<Longrightarrow>
     n \<le> length p \<and> w_out w' = w_out w @ take n p \<and> w_tcp w' = w_tcp w \<and>
     (err = None \<or> (\<exists>k. (k, err) \<in> set (w_script w)))"
  by (auto simp: io_Write_def min_def split: list.splits prod.splits if_splits)

lemma io_Write_script: "io_Write w p = (n, err, w') \<Longrightarrow> set (w_script w') \<subseteq> set (w_script w)"
  by (auto simp: io_Write_def split: list.splits prod.splits)

text \<open>A write leaves a prefix of the frame on the wire, and all of it when it reports no error.\<close>

lemma writeParts_prefix:
  assumes "writeParts w data = (err, w')"
  shows "\<exists>n \<le> length (framed data). w_out w' = w_out w @ take n (framed data) \<and>
           (err = None \<longrightarrow> n = length (framed data))"
proof (cases "w_tcp w")
  case True
  obtain n e1 w1 where w: "io_Write w (framed data) = (n, e1, w1)" by (metis prod_cases3)
  from True assms w have "err = None \<longrightarrow> n = 4 + length data" "w' = w1"
    by (auto simp: writeParts_def framed_def Let_def split: option.splits if_splits)
  with io_Write_prefix [OF w] show ?thesis by auto
next
  case False
  let ?p = "PutUint32 (word_of_nat (length data))"
  obtain n e1 w1 where w: "io_Write w ?p = (n, e1, w1)" by (metis prod_cases3)
  obtain k e2 w2 where v: "io_Write w1 data = (k, e2, w2)" by (metis prod_cases3)
  note p1 = io_Write_prefix [OF w] and p2 = io_Write_prefix [OF v]
  show ?thesis
  proof (cases "e1 = None \<and> n = 4")
    case True
    with False assms w v have "w' = w2" "err = None \<longrightarrow> k = length data"
      by (auto simp: writeParts_def Let_def split: option.splits if_splits)
    with True p1 p2 show ?thesis by (intro exI [of _ "4 + k"]) (auto simp: framed_def)
  next
    case stop: False
    with False assms w have "w' = w1" "err \<noteq> None"
      by (auto simp: writeParts_def Let_def split: option.splits if_splits)
    with p1 show ?thesis by (intro exI [of _ n]) (auto simp: framed_def)
  qed
qed

lemma writeParts_error:
  assumes "writeParts w data = (Some e, w')" "errors_Is e t" "t \<noteq> IoErrShortWrite"
  shows "\<exists>k e'. (k, Some e') \<in> set (w_script w) \<and> errors_Is e' t"
proof -
  have script: "\<exists>k. (k, Some e1) \<in> set (w_script w)"
    if "io_Write v p = (n, Some e1, v')" "set (w_script v) \<subseteq> set (w_script w)" for v p n e1 v'
    using io_Write_prefix [OF that(1)] that(2) by auto
  obtain n0 e0 w0 where w0: "io_Write w (framed data) = (n0, e0, w0)" by (metis prod_cases3)
  obtain n1 e1 w1 where w1: "io_Write w (PutUint32 (word_of_nat (length data))) = (n1, e1, w1)"
    by (metis prod_cases3)
  obtain n2 e2 w2 where w2: "io_Write w1 data = (n2, e2, w2)" by (metis prod_cases3)
  have "(\<exists>x. e0 = Some x \<and> errors_Is x t) \<or> (\<exists>x. e1 = Some x \<and> errors_Is x t) \<or>
        (\<exists>x. e2 = Some x \<and> errors_Is x t)"
    using assms w0 w1 w2
    by (auto simp add: writeParts_def framed_def Let_def split: option.splits if_splits)
  with script [of w] script [of w1] w0 w1 w2 io_Write_script [OF w1] show ?thesis by blast
qed

lemma encodeFrame_Inr:
  assumes "encodeFrame mc lib m codec cz f = Inr data"
  shows "int (length data) \<le> normalizeMaxFrameSize m"
    and "int (length (Payload f)) \<le> normalizeMaxFrameSize m"
    and "\<exists>g. compressFrame cz (f\<lparr>Version := ProtocolVersion\<rparr>) = Inr g \<and>
             MarshalFrame (defaultCodec mc lib codec) g = Inr data"
  using assms by (auto simp: encodeFrame_def Let_def split: sum.splits if_splits)

lemma writeFrame_ok:
  assumes "writeFrameWithCompression mc lib w m codec cz f = (None, w')"
  shows "\<exists>data. encodeFrame mc lib m codec cz f = Inr data \<and> w_out w' = w_out w @ framed data"
  using assms writeParts_prefix
  by (fastforce simp: writeFrameWithCompression_def split: sum.splits)

lemma decompress_compress:
  assumes cz: "normalizeCompressor cz = cz" "\<forall>c. cz = Some c \<longrightarrow> compressor_lawful c"
    and f: "Compression f = ''''" "int (length (Payload f)) \<le> m" "m \<le> MaxUint32"
    and g: "compressFrame cz f = Inr g"
  shows "decompressFrame m cz g = Inr f"
proof (cases "cz = None \<or> Payload f = []")
  case True
  then have "g = f" using g by (auto simp: compressFrame_def split: option.splits)
  with f(1) show ?thesis by (simp add: decompressFrame_def)
next
  case False
  then obtain c where c: "cz = Some c" by auto
  then obtain y where y: "Compress c (Payload f) = Inr y" "g = f\<lparr>Payload := y, Compression := c_Name c\<rparr>"
    using g False by (auto simp: compressFrame_def split: sum.splits)
  have "c_Name c \<noteq> ''''" using cz(1) c by (auto simp: normalizeCompressor_def)
  moreover have "decompress c y m = Inr (Payload f)"
    using cz(2) c y(1) f(2,3) by (simp add: compressor_lawful_def)
  ultimately show ?thesis using c y(2) f
    by (simp add: decompressFrame_def ensureCompressor_def)
qed

lemma compressFrame_valid: "compressFrame cz f = Inr g \<Longrightarrow> Frame_valid g = Frame_valid f \<and> Version g = Version f"
  by (auto simp: compressFrame_def Frame_valid_def split: option.splits sum.splits if_splits)

lemma read_framed:
  assumes "r_data r = framed data @ rest" "int (length data) \<le> normalizeMaxFrameSize m"
    and "UnmarshalFrame (defaultCodec mc lib codec) data = Inr g" "Version g = ProtocolVersion"
  shows "readFrameWithCompression mc lib r m codec cz =
           (decompressFrame (normalizeMaxFrameSize m) cz g, r\<lparr>r_data := rest\<rparr>)"
proof -
  have "length data \<le> nat MaxUint32" using assms(2) normalizeMaxFrameSize_bounds(2) [of m] by simp
  with assms show ?thesis
    by (simp add: readFrameWithCompression_def io_ReadFull_def framed_def)
qed

lemma read_written:
  assumes law: "codec_lawful (defaultCodec mc lib codec)"
    and cz: "normalizeCompressor cz = cz" "\<forall>c. cz = Some c \<longrightarrow> compressor_lawful c"
    and f: "Frame_valid f" "Compression f = ''''"
    and enc: "encodeFrame mc lib m codec cz f = Inr data"
    and r: "r_data r = framed data @ rest"
  shows "readFrameWithCompression mc lib r m codec cz =
           (Inr (f\<lparr>Version := ProtocolVersion\<rparr>), r\<lparr>r_data := rest\<rparr>)"
proof -
  let ?f = "f\<lparr>Version := ProtocolVersion\<rparr>"
  obtain g where g: "compressFrame cz ?f = Inr g" "MarshalFrame (defaultCodec mc lib codec) g = Inr data"
    using encodeFrame_Inr(3) [OF enc] by blast
  have "Frame_valid ?f" using f by (simp add: Frame_valid_def)
  with compressFrame_valid [OF g(1)] have v: "Frame_valid g" "Version g = ProtocolVersion" by simp_all
  have d: "decompressFrame (normalizeMaxFrameSize m) cz g = Inr ?f"
    using cz f(2) encodeFrame_Inr(2) [OF enc] normalizeMaxFrameSize_bounds(2) g(1)
    by (intro decompress_compress) simp_all
  show ?thesis
    using read_framed [OF r encodeFrame_Inr(1) [OF enc] codec_lawfulD(1) [OF law v(1) g(2)] v(2)] d
    by simp
qed

text \<open>Reading: where the reader stands afterwards, and what bounds the payload.\<close>

lemma decompressFrame_bound:
  "decompressFrame m cz g = Inr f \<Longrightarrow>
     (if Compression g = '''' then f = g
      else compressorName cz = Compression g \<and> Compression f = '''' \<and> Version f = Version g \<and>
           int (length (Payload f)) \<le> m)"
  by (auto simp: decompressFrame_def ensureCompressor_def compressorName_def
      split: option.splits sum.splits if_splits)

lemma io_ReadFull_cases:
  assumes "io_ReadFull r n = (x, r')"
  obtains d where "x = Inr d" "r_data r = d @ r_data r'" "length d = n"
        | e d where "x = Inl e" "r_data r = d @ r_data r'" "length d \<le> n"
  using assms
  by (cases "n \<le> length (r_data r)"; cases "r_data r = []")
     (auto simp: io_ReadFull_def min_def split: if_splits)

lemma gzip_DecompressLimit_bound:
  "gzip_DecompressLimit gz data m = Inr p \<Longrightarrow> int (length p) \<le> normalizeMaxFrameSize m"
  by (auto simp: gzip_DecompressLimit_def Let_def split: sum.splits if_splits)

text \<open>An oversized frame never reaches the wire: when writeFrameWithCompression fails with
  ErrFrameTooLarge (the payload, the encoding or the compressor refused it) the writer is
  exactly as it was, so the caller may keep the connection, as handleWriteError does. The
  transport itself is not expected to report that sentinel.\<close>

theorem writeFrame_too_large_untouched:
  assumes "writeFrameWithCompression mc lib w m codec cz f = (Some e, w')"
    and "errors_Is e ErrFrameTooLarge"
    and "\<forall>n x. (n, Some x) \<in> set (w_script w) \<longrightarrow> \<not> errors_Is x ErrFrameTooLarge"
  shows "w' = w"
proof (cases "encodeFrame mc lib m codec cz f")
  case (Inr data)
  then have "writeParts w data = (Some e, w')" using assms(1) by (simp add: writeFrameWithCompression_def)
  from writeParts_error [OF this assms(2)] assms(3) show ?thesis by auto
qed (use assms(1) in \<open>simp add: writeFrameWithCompression_def\<close>)

text \<open>C7. What a write leaves on the wire: either the frame could not be encoded, its error is
  returned and nothing was written, or the wire got a prefix of the four-byte big-endian
  length followed by the body, the length is that of the body and within the limit, and a
  nil error means that the whole frame is there; this holds for every sequence of short and
  failed writes of the transport, on TCP and on other transports.\<close>

theorem writeFrame_wire:
  assumes "writeFrameWithCompression mc lib w m codec cz f = (err, w')"
  shows "(\<exists>e. encodeFrame mc lib m codec cz f = Inl e \<and> err = Some e \<and> w' = w) \<or>
         (\<exists>data n. encodeFrame mc lib m codec cz f = Inr data \<and>
            int (length data) \<le> normalizeMaxFrameSize m \<and>
            be_nat (take 4 (framed data)) = length data \<and>
            w_out w' = w_out w @ take n (framed data) \<and>
            (err = None \<longrightarrow> w_out w' = w_out w @ framed data))"
proof (cases "encodeFrame mc lib m codec cz f")
  case (Inl e)
  with assms show ?thesis by (simp add: writeFrameWithCompression_def)
next
  case (Inr data)
  note b = encodeFrame_Inr(1) [OF Inr]
  have "length data \<le> nat MaxUint32" using b normalizeMaxFrameSize_bounds(2) [of m] by simp
  then have "be_nat (take 4 (framed data)) = length data" by (simp add: framed_def)
  moreover have "writeParts w data = (err, w')" using assms Inr by (simp add: writeFrameWithCompression_def)
  ultimately show ?thesis using Inr b writeParts_prefix [of w data err w'] by auto
qed

definition readFrame_result ::
  "msgpcode \<Rightarrow> 'v Codec \<Rightarrow> int \<Rightarrow> 'v Codec option \<Rightarrow> Compressor option \<Rightarrow> bytes \<Rightarrow> Frame \<Rightarrow> bool" where
  "readFrame_result mc lib m codec cz data f \<longleftrightarrow>
     Version f = ProtocolVersion \<and>
     (\<exists>g. UnmarshalFrame (defaultCodec mc lib codec) data = Inr g \<and>
        (if Compression g = '''' then f = g
         else compressorName cz = Compression g \<and> Compression f = '''' \<and>
              int (length (Payload f)) \<le> normalizeMaxFrameSize m))"

lemma decompressFrame_result:
  assumes "UnmarshalFrame (defaultCodec mc lib codec) data = Inr g" "Version g = ProtocolVersion"
    and "decompressFrame (normalizeMaxFrameSize m) cz g = Inr f"
  shows "readFrame_result mc lib m codec cz data f"
  using assms decompressFrame_bound [OF assms(3)] by (auto simp: readFrame_result_def split: if_splits)

lemma readFrame_step:
  assumes "readFrameWithCompression mc lib r m codec cz = (x, r')"
  shows "\<exists>d. r_data r = d @ r_data r' \<and> int (length d) \<le> 4 + normalizeMaxFrameSize m \<and>
     (\<forall>f. x = Inr f \<longrightarrow> (\<exists>data. d = framed data \<and> readFrame_result mc lib m codec cz data f))"
proof -
  let ?m = "normalizeMaxFrameSize m"
  have m: "0 < ?m" by (rule normalizeMaxFrameSize_bounds)
  obtain x1 r1 where r1: "io_ReadFull r 4 = (x1, r1)" by fastforce
  from r1 show ?thesis
  proof (cases rule: io_ReadFull_cases)
    case (2 e d)
    then have "x = Inl e" "r' = r1" using assms r1 by (simp_all add: readFrameWithCompression_def)
    with 2 m show ?thesis by (intro exI [of _ d]) simp
  next
    case prefix: (1 p)
    show ?thesis
    proof (cases "int (be_nat p) > ?m")
      case True
      then have "\<exists>e. x = Inl e" "r' = r1" using assms r1 prefix
        by (auto simp: readFrameWithCompression_def Let_def)
      with prefix m show ?thesis by (intro exI [of _ p]) auto
    next
      case small: False
      obtain x2 r2 where r2: "io_ReadFull r1 (be_nat p) = (x2, r2)" by fastforce
      from r2 show ?thesis
      proof (cases rule: io_ReadFull_cases)
        case (2 e d)
        then have "x = Inl e" "r' = r2" using assms r1 r2 prefix small
          by (simp_all add: readFrameWithCompression_def)
        with 2 prefix small show ?thesis by (intro exI [of _ "p @ d"]) simp
      next
        case body: (1 d)
        have r': "r' = r2" using assms r1 r2 prefix body small
          by (simp add: readFrameWithCompression_def split: sum.splits if_splits)
        have fr: "p @ d = framed d" using PutUint32_be_nat prefix body by (simp add: framed_def)
        have "readFrame_result mc lib m codec cz d f" if "x = Inr f" for f
          using assms r1 r2 prefix body small that decompressFrame_result [of mc lib codec d]
          by (simp add: readFrameWithCompression_def split: sum.splits if_splits)
        with prefix body small r' fr show ?thesis
          by (intro exI [of _ "p @ d"] conjI) auto
      qed
    qed
  qed
qed

lemma readFrame_shrinks:
  assumes "readFrameWithCompression mc lib r m codec cz = (Inr f, r')"
  shows "length (r_data r') < length (r_data r)"
  using readFrame_step [OF assms] by fastforce

text \<open>C8. What a read takes from the wire: readFrameWithCompression, whether it succeeds or not,
  consumes at most the prefix and MaxFrameSize bytes; when it returns a frame it consumed
  exactly one whole frame, the body decoded to a frame of the current protocol version, and
  a compressed payload was accepted only under the negotiated compressor's name and is
  within MaxFrameSize after decompression.\<close>

theorem readFrame_consumes:
  assumes "readFrameWithCompression mc lib r m codec cz = (x, r')"
  shows "\<exists>d. r_data r = d @ r_data r' \<and> int (length d) \<le> 4 + normalizeMaxFrameSize m \<and>
     (\<forall>f. x = Inr f \<longrightarrow> (\<exists>data. d = framed data \<and> readFrame_result mc lib m codec cz data f))"
  using assms by (rule readFrame_step)

text \<open>C2. Frames arrive intact and in order: if a sequence of frames was written without error,
  with or without compression, then reading from a stream that starts with what was written
  gives exactly these frames, stamped with the protocol version, and leaves the reader at the
  first byte after them. The codec and the compressor are any that read back their own output.\<close>

theorem frames_roundtrip:
  assumes law: "codec_lawful (defaultCodec mc lib codec)"
    and cz: "normalizeCompressor cz = cz" "\<forall>c. cz = Some c \<longrightarrow> compressor_lawful c"
    and fs: "\<forall>f \<in> set fs. Frame_valid f \<and> Compression f = ''''"
    and sent: "write_frames mc lib w m codec cz fs = (None, w')"
    and wire: "w_out w' @ rest = w_out w @ r_data r"
  shows "read_frames (length fs) mc lib r m codec cz =
           (map (\<lambda>f. f\<lparr>Version := ProtocolVersion\<rparr>) fs, None, r\<lparr>r_data := rest\<rparr>)"
  using fs sent wire
proof (induction fs arbitrary: w r)
  case Nil
  then show ?case by simp
next
  case (Cons f fs)
  then obtain w1 where w1: "writeFrameWithCompression mc lib w m codec cz f = (None, w1)"
    and rest: "write_frames mc lib w1 m codec cz fs = (None, w')"
    by (auto split: prod.splits option.splits)
  obtain data where d: "encodeFrame mc lib m codec cz f = Inr data" "w_out w1 = w_out w @ framed data"
    using writeFrame_ok [OF w1] by blast
  have ext: "\<exists>x. w_out w' = w_out w1 @ x" using rest
  proof (induction fs arbitrary: w1)
    case (Cons g gs)
    then show ?case
      using writeFrame_ok by (fastforce split: prod.splits option.splits)
  qed simp
  then obtain x where x: "w_out w' = w_out w1 @ x" by blast
  have r: "r_data r = framed data @ (x @ rest)" using Cons.prems(3) d(2) x by simp
  let ?r = "r\<lparr>r_data := x @ rest\<rparr>"
  have "readFrameWithCompression mc lib r m codec cz = (Inr (f\<lparr>Version := ProtocolVersion\<rparr>), ?r)"
    using Cons.prems(1) by (intro read_written [OF law cz _ _ d(1) r]) simp_all
  moreover have "read_frames (length fs) mc lib ?r m codec cz =
      (map (\<lambda>f. f\<lparr>Version := ProtocolVersion\<rparr>) fs, None, r\<lparr>r_data := rest\<rparr>)"
    using Cons.IH [OF _ rest, of ?r] Cons.prems(1) x by simp
  ultimately show ?case by simp
qed

subsection \<open>Gzip\<close>

text \<open>What the library documents of gzip: reading what was written and closed gives the data
  and then the end of file.\<close>

definition gzip_lawful :: "gzip_lib \<Rightarrow> bool" where
  "gzip_lawful gz \<longleftrightarrow>
     (\<forall>x buf y. gz_Write gz x = Inr buf \<longrightarrow> gz_Close gz buf = Inr y \<longrightarrow>
        gz_NewReader gz y = Inr \<lparr>r_data = x, r_end = Sentinel IoEOF\<rparr>)"

text \<open>C11. The built-in gzip compressor is lawful and bounded: over any gzip library that reads
  back what it wrote, decompressing a compressed payload gives it back for every limit that
  the payload respects (one equal to its length included), and on any input whatsoever a
  successful decompression is at most as long as the normalised limit.\<close>

theorem GzipCompression_lawful_bounded:
  assumes "gzip_lawful gz"
  shows "compressor_lawful (GzipCompression gz) \<and>
    (\<forall>data m p. decompress (GzipCompression gz) data m = Inr p \<longrightarrow>
       int (length p) \<le> normalizeMaxFrameSize m)"
proof -
  have "decompress (GzipCompression gz) y m = Inr x"
    if c: "Compress (GzipCompression gz) x = Inr y" and m: "int (length x) \<le> m" "m \<le> MaxUint32" for x y m
  proof -
    from c obtain buf where "gz_Write gz x = Inr buf" "gz_Close gz buf = Inr y"
      by (auto simp: GzipCompression_def gzip_Compress_def split: sum.splits)
    with assms have r: "gz_NewReader gz y = Inr \<lparr>r_data = x, r_end = Sentinel IoEOF\<rparr>"
      by (simp add: gzip_lawful_def)
    with m show ?thesis
      by (auto simp: GzipCompression_def decompress_def gzip_DecompressLimit_def
          io_ReadAll_Limit_def normalizeMaxFrameSize_def DefaultMaxFrameSize_def)
  qed
  then show ?thesis
    using gzip_DecompressLimit_bound [of gz]
    by (simp add: compressor_lawful_def decompress_def GzipCompression_def)
qed

subsection \<open>Witnesses\<close>

definition reverseCompressor :: Compressor where
  "reverseCompressor =
     \<lparr>c_Name = ''reverse'', Compress = (\<lambda>d. Inr (rev d)), Decompress = (\<lambda>d. Inr (rev d)),
      DecompressLimit = None\<rparr>"

definition copyGzip :: gzip_lib where
  "copyGzip = \<lparr>gz_Write = Inr, gz_Close = Inr,
     gz_NewReader = (\<lambda>d. Inr \<lparr>r_data = d, r_end = Sentinel IoEOF\<rparr>)\<rparr>"

definition emptyWriter :: Writer where
  "emptyWriter = \<lparr>w_out = [], w_tcp = True, w_script = []\<rparr>"

definition sampleFrame :: Frame where
  "sampleFrame = zeroFrame\<lparr>Type := FrameRequest, RequestID := 7, Function := ''echo'', Payload := [1, 2, 3]\<rparr>"

lemma reverseCompressor_lawful:
  "normalizeCompressor (Some reverseCompressor) = Some reverseCompressor"
  "compressor_lawful reverseCompressor"
  by (simp_all add: normalizeCompressor_def compressor_lawful_def decompress_def reverseCompressor_def)

lemma sampleFrame_valid: "Frame_valid sampleFrame" "Compression sampleFrame = ''''"
  by code_simp+


theorem GzipCompression_lawful_bounded_witness:
  "gzip_lawful copyGzip \<and> compressor_lawful (GzipCompression copyGzip) \<and>
   decompress (GzipCompression copyGzip) [1, 2, 3] 2 \<noteq> Inr [1, 2, 3]"
proof -
  have "gzip_lawful copyGzip" by (simp add: gzip_lawful_def copyGzip_def)
  moreover have "normalizeMaxFrameSize 2 = 2" by code_simp
  ultimately show ?thesis using GzipCompression_lawful_bounded [of copyGzip] by fastforce
qed

theorem frames_roundtrip_witness:
  "fst (read_frames 2 msgpcode_spec sampleCodec
     \<lparr>r_data = w_out (snd (write_frames msgpcode_spec sampleCodec emptyWriter 0 (Some sampleCodec)
        (Some reverseCompressor) [sampleFrame, sampleFrame\<lparr>RequestID := 8\<rparr>])) @ [42],
      r_end = Sentinel IoEOF\<rparr> 0 (Some sampleCodec) (Some reverseCompressor)) =
   [sampleFrame\<lparr>Version := 1\<rparr>, sampleFrame\<lparr>Version := 1, RequestID := 8\<rparr>]"
proof -
  let ?fs = "[sampleFrame, sampleFrame\<lparr>RequestID := 8\<rparr>]"
  let ?ws = "write_frames msgpcode_spec sampleCodec emptyWriter 0 (Some sampleCodec) (Some reverseCompressor) ?fs"
  have w: "?ws = (None, snd ?ws)" by code_simp
  have law: "codec_lawful (defaultCodec msgpcode_spec sampleCodec (Some sampleCodec))"
    by (simp add: defaultCodec_def sampleCodec_lawful)
  have fs: "\<forall>f \<in> set ?fs. Frame_valid f \<and> Compression f = ''''" by code_simp
  show ?thesis
    using frames_roundtrip [OF law reverseCompressor_lawful(1) _ fs w, of "[42]"
        "\<lparr>r_data = w_out (snd ?ws) @ [42], r_end = Sentinel IoEOF\<rparr>"] reverseCompressor_lawful(2)
    by (simp add: emptyWriter_def ProtocolVersion_def numeral_2_eq_2)
qed

theorem writeFrame_too_large_untouched_witness:
  "\<exists>e. writeFrameWithCompression msgpcode_spec sampleCodec emptyWriter 2 (Some sampleCodec) None sampleFrame =
     (Some e, emptyWriter) \<and> errors_Is e ErrFrameTooLarge"
proof -
  let ?w = "writeFrameWithCompression msgpcode_spec sampleCodec emptyWriter 2 (Some sampleCodec) None sampleFrame"
  have "fst ?w \<noteq> None" "errors_Is (the (fst ?w)) ErrFrameTooLarge" by code_simp+
  then obtain e where w: "?w = (Some e, snd ?w)" and e: "errors_Is e ErrFrameTooLarge"
    by (metis option.sel option.exhaust prod.collapse)
  have "snd ?w = emptyWriter"
    by (rule writeFrame_too_large_untouched [OF w e]) (simp add: emptyWriter_def)
  with w e show ?thesis by metis
qed

theorem writeFrame_wire_witness:
  "\<exists>data. encodeFrame msgpcode_spec sampleCodec 0 (Some sampleCodec) None sampleFrame = Inr data \<and>
     w_out (snd (writeFrameWithCompression msgpcode_spec sampleCodec emptyWriter 0 (Some sampleCodec) None sampleFrame)) =
       framed data"
proof -
  let ?w = "writeFrameWithCompression msgpcode_spec sampleCodec emptyWriter 0 (Some sampleCodec) None sampleFrame"
  have w: "?w = (None, snd ?w)" by code_simp
  from writeFrame_wire [OF w] show ?thesis by (auto simp: emptyWriter_def)
qed

theorem readFrame_consumes_witness:
  "readFrameWithCompression msgpcode_spec sampleCodec \<lparr>r_data = [0, 0], r_end = Sentinel IoEOF\<rparr> 0 None None =
     (Inl (Sentinel IoErrUnexpectedEOF), \<lparr>r_data = [], r_end = Sentinel IoEOF\<rparr>) \<and>
   (\<exists>d. [0, 0] = d @ [] \<and> int (length d) \<le> 4 + DefaultMaxFrameSize)"
proof -
  have r: "readFrameWithCompression msgpcode_spec sampleCodec \<lparr>r_data = [0, 0], r_end = Sentinel IoEOF\<rparr> 0 None None =
     (Inl (Sentinel IoErrUnexpectedEOF), \<lparr>r_data = [], r_end = Sentinel IoEOF\<rparr>)"
    by (simp add: readFrameWithCompression_def io_ReadFull_def)
  from r readFrame_consumes [OF r] show ?thesis by (simp add: normalizeMaxFrameSize_def)
qed

end
