(* ===== verification/Stream.thy ===== *)
theory Stream
  imports Framing
begin

text \<open>
  Item streams and their credit windows (\<^verbatim>\<open>stream.go\<close>, \<^verbatim>\<open>stream_flow.go\<close>).

  A \<open>Stream\<close> is the struct of the same name. The channel \<^verbatim>\<open>recvCh\<close> is its queue
  \<open>recvCh\<close> and its capacity \<open>recvCap\<close>; the channels \<^verbatim>\<open>recvDone\<close> and \<^verbatim>\<open>sendDone\<close>, only ever
  closed, are booleans, and closing one twice, which panics in Go, sets \<open>s_panicked\<close>;
  the one-slot channel \<^verbatim>\<open>changed\<close> is whether it holds its token. \<^verbatim>\<open>ctx\<close> is the cancellation cause
  of the stream's context, if it has one; the first cause wins. \<^verbatim>\<open>closeSendOnce\<close> is whether it
  has run.

  An operation takes the outcome of writing a frame (\<open>wr\<close>, the function \<^verbatim>\<open>write\<close> of the
  struct) and returns its result, the new stream and what it did outside of the stream, in
  order: \<open>Write f\<close>, a write on the calling goroutine; \<open>SpawnWrite f\<close>, a write on
  a new goroutine; \<open>OnDone r\<close>, the completion callback. An operation that would wait in a
  \<^verbatim>\<open>select\<close> with no ready case returns \<open>Blocked\<close>. The sections between two locks are
  definitions of their own (\<open>takeCredit_pass\<close>, \<open>returnCredit_take\<close>,
  \<open>CloseSend_begin\<close>, ...), which \<open>Flow_Protocol\<close> interleaves.
\<close>

subsection \<open>Options\<close>

record StreamOptions =
  RecvBuffer :: int
  RecvBytes :: int

definition streamRecvBuffer :: int where
  "streamRecvBuffer = 16"

definition normalizeStreamOptions :: "StreamOptions \<Rightarrow> StreamOptions" where
  "normalizeStreamOptions opts =
     (let opts = (if RecvBuffer opts \<le> 0 then opts\<lparr>RecvBuffer := streamRecvBuffer\<rparr> else opts);
          opts = (if RecvBytes opts \<le> 0 then opts\<lparr>RecvBytes := DefaultMaxFrameSize\<rparr> else opts)
      in opts)"

definition mergeStreamOptions :: "StreamOptions \<Rightarrow> StreamOptions \<Rightarrow> StreamOptions" where
  "mergeStreamOptions base override =
     (let base = (if RecvBuffer override > 0 then base\<lparr>RecvBuffer := RecvBuffer override\<rparr> else base);
          base = (if RecvBytes override > 0 then base\<lparr>RecvBytes := RecvBytes override\<rparr> else base)
      in normalizeStreamOptions base)"

subsection \<open>State\<close>

record streamFlow =
  fl_initialized :: bool
  fl_items :: u64
  fl_bytes :: u64
  fl_maxItems :: u64
  fl_maxBytes :: u64
  fl_changed :: bool
  fl_returnItems :: u64
  fl_returnBytes :: u64

definition newFlow :: streamFlow where
  "newFlow = \<lparr>fl_initialized = False, fl_items = 0, fl_bytes = 0, fl_maxItems = 0, fl_maxBytes = 0,
     fl_changed = False, fl_returnItems = 0, fl_returnBytes = 0\<rparr>"

record 'v Stream =
  s_requestID :: u64
  s_function :: string
  s_codec :: "'v Codec"
  s_ctx :: "gerror option"
  recvCh :: "bytes list"
  recvCap :: nat
  recvDone :: bool
  sendDone :: bool
  receivesItems :: bool
  sendsItems :: bool
  recvByteLimit :: u64
  flow :: "streamFlow option"
  bufferedBytes :: u64
  sendClosed :: bool
  sendEnded :: bool
  recvClosed :: bool
  s_done :: bool
  recvErr :: "gerror option"
  closeSendErr :: "gerror option"
  closeSendOnce :: bool
  s_panicked :: bool

datatype effect = Write Frame | SpawnWrite Frame | OnDone u64

datatype 'a outcome = Return 'a | Blocked

type_synonym writer = "Frame \<Rightarrow> gerror option"

definition newStreamWithOptions ::
  "msgpcode \<Rightarrow> 'v Codec \<Rightarrow> gerror option \<Rightarrow> u64 \<Rightarrow> string \<Rightarrow> 'v Codec option \<Rightarrow> StreamOptions \<Rightarrow> 'v Stream" where
  "newStreamWithOptions mc lib ctx requestID function codec opts =
     (let opts = normalizeStreamOptions opts in
      \<lparr>s_requestID = requestID, s_function = function, s_codec = defaultCodec mc lib codec,
       s_ctx = ctx, recvCh = [], recvCap = nat (RecvBuffer opts), recvDone = False, sendDone = False,
       receivesItems = True, sendsItems = True, recvByteLimit = word_of_int (RecvBytes opts),
       flow = None, bufferedBytes = 0, sendClosed = False, sendEnded = False, recvClosed = False,
       s_done = False, recvErr = None, closeSendErr = None, closeSendOnce = False, s_panicked = False\<rparr>)"

definition close_recvDone :: "'v Stream \<Rightarrow> 'v Stream" where
  "close_recvDone s = (if recvDone s then s\<lparr>s_panicked := True\<rparr> else s\<lparr>recvDone := True\<rparr>)"

definition close_sendDone :: "'v Stream \<Rightarrow> 'v Stream" where
  "close_sendDone s = (if sendDone s then s\<lparr>s_panicked := True\<rparr> else s\<lparr>sendDone := True\<rparr>)"

definition cancel_ctx :: "gerror \<Rightarrow> 'v Stream \<Rightarrow> 'v Stream" where
  "cancel_ctx err s = (case s_ctx s of None \<Rightarrow> s\<lparr>s_ctx := Some err\<rparr> | Some _ \<Rightarrow> s)"

definition configure :: "StreamKind \<Rightarrow> bool \<Rightarrow> bool \<Rightarrow> 'v Stream \<Rightarrow> 'v Stream" where
  "configure kind caller flowControl s =
     (let s = (case kind of
                 StreamKindServer \<Rightarrow>
                   (let s = s\<lparr>receivesItems := caller, sendsItems := \<not> caller\<rparr> in
                    if caller then close_sendDone (s\<lparr>sendClosed := True, sendEnded := True\<rparr>)
                    else close_recvDone (s\<lparr>recvClosed := True, recvErr := Some (Sentinel IoEOF)\<rparr>))
               | StreamKindClient \<Rightarrow> s\<lparr>receivesItems := \<not> caller, sendsItems := caller\<rparr>
               | _ \<Rightarrow> s)
      in if flowControl then s\<lparr>flow := Some newFlow\<rparr> else s)"

definition streamFrame :: "FrameType \<Rightarrow> 'v Stream \<Rightarrow> bytes \<Rightarrow> Frame" where
  "streamFrame t s payload =
     zeroFrame\<lparr>Type := t, RequestID := s_requestID s, Function := s_function s, Payload := payload\<rparr>"

subsection \<open>Ending a stream\<close>

definition closeRecvLocked :: "gerror \<Rightarrow> 'v Stream \<Rightarrow> 'v Stream" where
  "closeRecvLocked err s =
     (if recvClosed s then s else close_recvDone (s\<lparr>recvClosed := True, recvErr := Some err\<rparr>))"

definition finish :: "gerror \<Rightarrow> 'v Stream \<Rightarrow> bool \<times> 'v Stream \<times> effect list" where
  "finish err s =
     (if s_done s then (False, s, [])
      else (True, cancel_ctx err (closeRecvLocked err (s\<lparr>s_done := True\<rparr>)), [OnDone (s_requestID s)]))"

definition abort :: "gerror \<Rightarrow> 'v Stream \<Rightarrow> 'v Stream \<times> effect list" where
  "abort err s =
     (case finish err s of
        (False, s, es) \<Rightarrow> (s, es)
      | (True, s, es) \<Rightarrow>
          (case MarshalRemoteError (s_codec s) (remoteErrorFromError (Some err)) of
             Inr payload \<Rightarrow> (s, es @ [SpawnWrite (streamFrame FrameError s payload)])
           | Inl _ \<Rightarrow> (s, es)))"

text \<open>The callback that \<^verbatim>\<open>watchContext\<close> installs, run when the context has a cause.\<close>

definition watchContext :: "'v Stream \<Rightarrow> 'v Stream \<times> effect list" where
  "watchContext s =
     (case s_ctx s of
        None \<Rightarrow> (s, [])
      | Some err \<Rightarrow>
          if errors_Is err ContextDeadlineExceeded then abort err s
          else (case finish err s of
                  (True, s, es) \<Rightarrow> (s, es @ [Write (streamFrame FrameCancel s [])])
                | (False, s, es) \<Rightarrow> (s, es)))"

definition Cancel :: "writer \<Rightarrow> 'v Stream \<Rightarrow> gerror option \<times> 'v Stream \<times> effect list" where
  "Cancel wr s =
     (case finish (Sentinel ContextCanceled) s of
        (False, s, es) \<Rightarrow> (None, s, es)
      | (True, s, es) \<Rightarrow>
          (let f = streamFrame FrameCancel s [] in (wr f, s, es @ [Write f])))"

subsection \<open>Deliveries by the connection reader\<close>

definition deliverItem :: "Frame \<Rightarrow> 'v Stream \<Rightarrow> 'v Stream \<times> effect list" where
  "deliverItem frame s =
     (if recvClosed s \<or> s_done s then (s, [])
      else
        (let siz = word_of_nat (length (Payload frame)) in
         if siz \<le> recvByteLimit s - bufferedBytes s \<and> length (recvCh s) < recvCap s
         then (s\<lparr>recvCh := recvCh s @ [Payload frame], bufferedBytes := bufferedBytes s + siz\<rparr>, [])
         else abort (Errorf_suffix ErrBackpressure ''stream receive buffer exhausted'') s))"

definition deliverEnd :: "'v Stream \<Rightarrow> 'v Stream \<times> effect list" where
  "deliverEnd s =
     (let s = closeRecvLocked (Sentinel IoEOF) s in
      if sendEnded s then (case finish (Sentinel ErrClosed) s of (_, s, es) \<Rightarrow> (s, es)) else (s, []))"

definition deliverError :: "gerror option \<Rightarrow> 'v Stream \<Rightarrow> 'v Stream \<times> effect list" where
  "deliverError err s =
     (case finish (case err of None \<Rightarrow> Sentinel ErrUnavailable | Some e \<Rightarrow> e) s of (_, s, es) \<Rightarrow> (s, es))"

subsection \<open>Credit (\<^verbatim>\<open>stream_flow.go\<close>)\<close>

definition receiveWindow :: "'v Stream \<Rightarrow> Frame \<Rightarrow> Frame" where
  "receiveWindow s frame =
     (if flow s \<noteq> None \<and> receivesItems s
      then frame\<lparr>WindowItems := word_of_nat (recvCap s), WindowBytes := recvByteLimit s\<rparr>
      else frame)"

definition grantInitialCredit :: "writer \<Rightarrow> 'v Stream \<Rightarrow> gerror option \<times> effect list" where
  "grantInitialCredit wr s =
     (if flow s = None \<or> \<not> receivesItems s then (None, [])
      else
        (let f = receiveWindow s (zeroFrame\<lparr>Type := FrameStreamWindow, RequestID := s_requestID s\<rparr>)
         in (wr f, [Write f])))"

text \<open>The locked part of \<^verbatim>\<open>returnCredit\<close>: the frame to write, if any.\<close>

definition returnCredit_take :: "u64 \<Rightarrow> 'v Stream \<Rightarrow> Frame option \<times> 'v Stream" where
  "returnCredit_take siz s =
     (case flow s of
        None \<Rightarrow> (None, s)
      | Some f \<Rightarrow>
          if recvClosed s \<or> s_done s then (None, s)
          else
            (let f = f\<lparr>fl_returnItems := fl_returnItems f + 1, fl_returnBytes := fl_returnBytes f + siz\<rparr> in
             if fl_returnItems f < (word_of_nat (recvCap s) + 1) div 2 \<and>
                fl_returnBytes f < (recvByteLimit s + 1) div 2 \<and> length (recvCh s) > 0
             then (None, s\<lparr>flow := Some f\<rparr>)
             else
               (Some (zeroFrame\<lparr>Type := FrameStreamWindow, RequestID := s_requestID s,
                        WindowItems := fl_returnItems f, WindowBytes := fl_returnBytes f\<rparr>),
                s\<lparr>flow := Some (f\<lparr>fl_returnItems := 0, fl_returnBytes := 0\<rparr>)\<rparr>)))"

definition returnCredit :: "writer \<Rightarrow> u64 \<Rightarrow> 'v Stream \<Rightarrow> gerror option \<times> 'v Stream \<times> effect list" where
  "returnCredit wr siz s =
     (case returnCredit_take siz s of
        (None, s) \<Rightarrow> (None, s, [])
      | (Some f, s) \<Rightarrow> (wr f, s, [Write f]))"

definition acceptCredit :: "Frame \<Rightarrow> 'v Stream \<Rightarrow> gerror option \<times> 'v Stream" where
  "acceptCredit frame s =
     (if s_done s \<or> sendClosed s then (None, s)
      else
        (case flow s of
           None \<Rightarrow> (Some (Errorf_suffix ErrProtocol ''unexpected stream credit''), s)
         | Some f \<Rightarrow>
             if \<not> sendsItems s then (Some (Errorf_suffix ErrProtocol ''unexpected stream credit''), s)
             else
               (case (if \<not> fl_initialized f then
                        (if WindowItems frame = 0 \<or> WindowBytes frame = 0
                         then Inl (Errorf_suffix ErrProtocol ''empty stream window'')
                         else Inr (f\<lparr>fl_initialized := True, fl_maxItems := WindowItems frame,
                                     fl_maxBytes := WindowBytes frame\<rparr>))
                      else if WindowItems frame = 0 \<or> WindowItems frame > fl_maxItems f - fl_items f \<or>
                              WindowBytes frame > fl_maxBytes f - fl_bytes f
                      then Inl (Errorf_suffix ErrProtocol ''invalid stream credit'')
                      else Inr f) of
                  Inl e \<Rightarrow> (Some e, s)
                | Inr f \<Rightarrow>
                    (None, s\<lparr>flow := Some (f\<lparr>fl_items := fl_items f + WindowItems frame,
                                            fl_bytes := fl_bytes f + WindowBytes frame,
                                            fl_changed := True\<rparr>)\<rparr>))))"

definition sendError :: "'v Stream \<Rightarrow> gerror option" where
  "sendError s =
     (case s_ctx s of
        Some err \<Rightarrow> Some err
      | None \<Rightarrow> if sendClosed s then Some (Sentinel ErrClosed) else None)"

text \<open>One pass of the loop of \<^verbatim>\<open>takeCredit\<close> up to the \<^verbatim>\<open>select\<close>, and the \<^verbatim>\<open>select\<close>: which case is
  taken does not matter when several are ready, since only the token is consumed.\<close>

definition takeCredit_pass :: "u64 \<Rightarrow> 'v Stream \<Rightarrow> gerror option outcome \<times> 'v Stream" where
  "takeCredit_pass siz s =
     (case sendError s of
        Some err \<Rightarrow> (Return (Some err), s)
      | None \<Rightarrow>
          (case flow s of
             None \<Rightarrow> (Return None, s)
           | Some f \<Rightarrow>
               if fl_initialized f \<and> siz > fl_maxBytes f
               then (Return (Some (Errorf_suffix ErrFrameTooLarge
                       (''stream item exceeds the receiver's '' @ decimal (unat (fl_maxBytes f)) @ ''-byte window''))), s)
               else if fl_items f > 0 \<and> siz \<le> fl_bytes f
               then (Return None, s\<lparr>flow := Some (f\<lparr>fl_items := fl_items f - 1, fl_bytes := fl_bytes f - siz\<rparr>)\<rparr>)
               else (Blocked, s)))"

definition takeCredit_select :: "'v Stream \<Rightarrow> 'v Stream option" where
  "takeCredit_select s =
     (case flow s of
        None \<Rightarrow> None
      | Some f \<Rightarrow>
          if fl_changed f then Some (s\<lparr>flow := Some (f\<lparr>fl_changed := False\<rparr>)\<rparr>)
          else if sendDone s \<or> s_ctx s \<noteq> None then Some s
          else None)"

partial_function (option) takeCredit :: "u64 \<Rightarrow> 'v Stream \<Rightarrow> (gerror option outcome \<times> 'v Stream) option" where
  "takeCredit siz s =
     (case takeCredit_pass siz s of
        (Return r, s) \<Rightarrow> Some (Return r, s)
      | (Blocked, s) \<Rightarrow>
          (case takeCredit_select s of
             None \<Rightarrow> Some (Blocked, s)
           | Some s \<Rightarrow> takeCredit siz s))"

declare takeCredit.simps [code]

subsection \<open>Sending and receiving\<close>

definition Send :: "writer \<Rightarrow> 'v \<Rightarrow> 'v Stream \<Rightarrow> (gerror option outcome \<times> 'v Stream \<times> effect list) option" where
  "Send wr item s =
     (if \<not> sendsItems s then Some (Return (Some (Sentinel ErrClosed)), s, [])
      else
        (case sendError s of
           Some err \<Rightarrow> Some (Return (Some err), s, [])
         | None \<Rightarrow>
             (case MarshalValue (s_codec s) item of
                Inl e \<Rightarrow> Some (Return (Some (Errorf_prefix ''encode stream item'' e)), s, [])
              | Inr payload \<Rightarrow>
                  (case takeCredit (word_of_nat (length payload)) s of
                     None \<Rightarrow> None
                   | Some (Blocked, s) \<Rightarrow> Some (Blocked, s, [])
                   | Some (Return (Some err), s) \<Rightarrow> Some (Return (Some err), s, [])
                   | Some (Return None, s) \<Rightarrow>
                       (let f = streamFrame FrameStreamItem s payload in
                        case wr f of
                          None \<Rightarrow> Some (Return None, s, [Write f])
                        | Some err \<Rightarrow>
                            (case abort err s of (s, es) \<Rightarrow> Some (Return (Some err), s, Write f # es)))))))"

text \<open>The destination of a response: \<^verbatim>\<open>nil\<close>, something that is not a non-nil pointer, or a pointer.\<close>

datatype target = TargetNil | TargetInvalid | TargetPointer

definition validateResponseTarget :: "target \<Rightarrow> gerror option" where
  "validateResponseTarget t =
     (case t of
        TargetPointer \<Rightarrow> None
      | _ \<Rightarrow> Some (Errorf_suffix ErrInvalidResponse ''response must be a non-nil pointer''))"

definition receivePayload :: "writer \<Rightarrow> bytes \<Rightarrow> 'v Stream \<Rightarrow> 'v res \<times> 'v Stream \<times> effect list" where
  "receivePayload wr payload s =
     (let siz = word_of_nat (length payload);
          s = s\<lparr>bufferedBytes := bufferedBytes s - siz\<rparr>;
          r = UnmarshalValue (s_codec s) payload in
      case returnCredit wr siz s of
        (writeErr, s, es) \<Rightarrow>
          (let (s, es) = (case writeErr of
                            None \<Rightarrow> (s, es)
                          | Some e \<Rightarrow> (case abort e s of (s, es') \<Rightarrow> (s, es @ es'))) in
           (case r of
              Inl e \<Rightarrow> (Inl (Errorf_prefix ''decode stream item'' e), s, es)
            | Inr v \<Rightarrow> (Inr v, s, es))))"

definition Recv :: "writer \<Rightarrow> target \<Rightarrow> 'v Stream \<Rightarrow> 'v res outcome \<times> 'v Stream \<times> effect list" where
  "Recv wr item s =
     (if \<not> receivesItems s then (Return (Inl (Sentinel ErrClosed)), s, [])
      else if item = TargetNil
      then (Return (Inl (Errorf_suffix ErrInvalidResponse ''stream item must be a non-nil pointer'')), s, [])
      else
        (case validateResponseTarget item of
           Some e \<Rightarrow> (Return (Inl e), s, [])
         | None \<Rightarrow>
             (case recvCh s of
                payload # rest \<Rightarrow>
                  (case receivePayload wr payload (s\<lparr>recvCh := rest\<rparr>) of (r, s, es) \<Rightarrow> (Return r, s, es))
              | [] \<Rightarrow>
                  if recvDone s \<or> s_ctx s \<noteq> None
                  then (Return (Inl (case recvErr s of Some e \<Rightarrow> e
                                     | None \<Rightarrow> (case s_ctx s of Some e \<Rightarrow> e | None \<Rightarrow> Opaque ''nil''))), s, [])
                  else (Blocked, s, []))))"

text \<open>\<^verbatim>\<open>CloseSend\<close>: the first locked section, and what follows once \<^verbatim>\<open>sendMu\<close> is held.\<close>

definition CloseSend_begin :: "'v Stream \<Rightarrow> 'v Stream" where
  "CloseSend_begin s = close_sendDone (s\<lparr>closeSendOnce := True, sendClosed := True\<rparr>)"

definition CloseSend_finish :: "gerror option \<Rightarrow> 'v Stream \<Rightarrow> 'v Stream \<times> effect list" where
  "CloseSend_finish err s =
     (let s = s\<lparr>closeSendErr := err, sendEnded := (err = None)\<rparr> in
      case err of
        Some e \<Rightarrow> abort e s
      | None \<Rightarrow>
          if recvClosed s then (case finish (Sentinel ErrClosed) s of (_, s, es) \<Rightarrow> (s, es))
          else (s, []))"

definition CloseSend_end :: "writer \<Rightarrow> 'v Stream \<Rightarrow> 'v Stream \<times> effect list" where
  "CloseSend_end wr s =
     (let f = streamFrame FrameStreamEnd s [];
          (err, es) = (case s_ctx s of Some e \<Rightarrow> (Some e, []) | None \<Rightarrow> (wr f, [Write f]))
      in case CloseSend_finish err s of (s, es') \<Rightarrow> (s, es @ es'))"

definition CloseSend :: "writer \<Rightarrow> 'v Stream \<Rightarrow> gerror option \<times> 'v Stream \<times> effect list" where
  "CloseSend wr s =
     (if \<not> sendsItems s then (Some (Sentinel ErrClosed), s, [])
      else if closeSendOnce s then (closeSendErr s, s, [])
      else (case CloseSend_end wr (CloseSend_begin s) of (s, es) \<Rightarrow> (closeSendErr s, s, es)))"

subsection \<open>Errors and responses\<close>

definition remoteErrorFromFrame :: "'v Codec \<Rightarrow> Frame \<Rightarrow> gerror" where
  "remoteErrorFromFrame codec frame =
     (case UnmarshalRemoteError codec (Payload frame) of
        Inl e \<Rightarrow> Errorf_prefix ''decode remote error'' e
      | Inr r \<Rightarrow> RemoteErr (Some r))"

definition decodeResponse :: "'v Codec \<Rightarrow> Frame \<Rightarrow> 'v res" where
  "decodeResponse codec frame =
     (case Type frame of
        FrameResponse \<Rightarrow>
          (case UnmarshalValue codec (Payload frame) of
             Inl e \<Rightarrow> Inl (Errorf_prefix ''decode response'' e)
           | Inr v \<Rightarrow> Inr v)
      | FrameError \<Rightarrow>
          (case UnmarshalRemoteError codec (Payload frame) of
             Inl e \<Rightarrow> Inl (Errorf_prefix ''decode remote error'' e)
           | Inr r \<Rightarrow> Inl (RemoteErr (Some r)))
      | _ \<Rightarrow> Inl (Errorf_suffix ErrProtocol (''unexpected response frame '' @ FrameType_String (Type frame))))"

subsection \<open>Typed handles\<close>

text \<open>The typed wrappers hold a stream, \<open>None\<close> for a nil one.\<close>

definition StreamReader_Recv ::
  "writer \<Rightarrow> 'v Stream option \<Rightarrow> 'v res outcome \<times> 'v Stream option \<times> effect list" where
  "StreamReader_Recv wr r =
     (case r of
        None \<Rightarrow> (Return (Inl (Sentinel ErrClosed)), None, [])
      | Some s \<Rightarrow> (case Recv wr TargetPointer s of (x, s, es) \<Rightarrow> (x, Some s, es)))"

definition handle_Cancel ::
  "writer \<Rightarrow> 'v Stream option \<Rightarrow> gerror option \<times> 'v Stream option \<times> effect list" where
  "handle_Cancel wr r =
     (case r of
        None \<Rightarrow> (Some (Sentinel ErrClosed), None, [])
      | Some s \<Rightarrow> (case Cancel wr s of (x, s, es) \<Rightarrow> (x, Some s, es)))"

definition StreamWriter_Send ::
  "writer \<Rightarrow> 'v \<Rightarrow> 'v Stream option \<Rightarrow> (gerror option outcome \<times> 'v Stream option \<times> effect list) option" where
  "StreamWriter_Send wr item w =
     (case w of
        None \<Rightarrow> Some (Return (Some (Sentinel ErrClosed)), None, [])
      | Some s \<Rightarrow> map_option (\<lambda>(x, s, es). (x, Some s, es)) (Send wr item s))"

definition StreamWriter_Close ::
  "writer \<Rightarrow> 'v Stream option \<Rightarrow> gerror option \<times> 'v Stream option \<times> effect list" where
  "StreamWriter_Close wr w =
     (case w of
        None \<Rightarrow> (Some (Sentinel ErrClosed), None, [])
      | Some s \<Rightarrow> (case CloseSend wr s of (x, s, es) \<Rightarrow> (x, Some s, es)))"

text \<open>A client stream's handle: its stream, the one-slot response channel and the codec.\<close>

record clientResponse =
  cr_frame :: Frame
  cr_err :: "gerror option"

record 'v ClientStreamHandle =
  ch_stream :: "'v Stream"
  ch_response :: "clientResponse option"
  ch_codec :: "'v Codec"

definition handle_decodeResponse :: "'v ClientStreamHandle \<Rightarrow> clientResponse \<Rightarrow> 'v res" where
  "handle_decodeResponse h response =
     (case cr_err response of
        Some e \<Rightarrow> Inl e
      | None \<Rightarrow> decodeResponse (ch_codec h) (cr_frame response))"

definition handle_takeResponse :: "'v ClientStreamHandle \<Rightarrow> ('v res \<times> 'v ClientStreamHandle) option" where
  "handle_takeResponse h =
     map_option (\<lambda>r. (handle_decodeResponse h r, h\<lparr>ch_response := None\<rparr>)) (ch_response h)"

text \<open>\<^verbatim>\<open>CloseAndRecv\<close>. Other goroutines run between its steps: \<open>others i\<close> is what they do to the handle before
  \<^verbatim>\<open>CloseSend\<close> (0), until the look at the channel after it (1), during the wait (2) and, when the wait was ended by the
  context, until the last look at the channel (3). If the response and the end of the context are both ready, \<open>doneFirst\<close>
  says which case the select takes. First the two looks at the channel after a failed \<^verbatim>\<open>CloseSend\<close> and after the end of the
  context with the cause \<open>e\<close>, then the wait, the body, and the deferred \<^verbatim>\<open>finish\<close>, which runs when the body returns.\<close>

definition CloseAndRecv_last :: "gerror \<Rightarrow> 'v ClientStreamHandle \<Rightarrow> 'v res outcome \<times> 'v ClientStreamHandle" where
  "CloseAndRecv_last e h =
     (case handle_takeResponse h of
        Some (r, h) \<Rightarrow> (Return r, h)
      | None \<Rightarrow> (Return (Inl e), h))"

definition CloseAndRecv_wait ::
  "(nat \<Rightarrow> 'v ClientStreamHandle \<Rightarrow> 'v ClientStreamHandle) \<Rightarrow> bool \<Rightarrow> 'v ClientStreamHandle \<Rightarrow>
   'v res outcome \<times> 'v ClientStreamHandle" where
  "CloseAndRecv_wait others doneFirst h =
     (let h = others 2 h in
      case s_ctx (ch_stream h) of
        None \<Rightarrow>
          (case handle_takeResponse h of
             Some (r, h) \<Rightarrow> (Return r, h)
           | None \<Rightarrow> (Blocked, h))
      | Some e \<Rightarrow>
          (case handle_takeResponse h of
             Some (r, h') \<Rightarrow> if doneFirst then CloseAndRecv_last e (others 3 h) else (Return r, h')
           | None \<Rightarrow> CloseAndRecv_last e (others 3 h)))"

definition CloseAndRecv_body ::
  "(nat \<Rightarrow> 'v ClientStreamHandle \<Rightarrow> 'v ClientStreamHandle) \<Rightarrow> bool \<Rightarrow> writer \<Rightarrow> 'v ClientStreamHandle \<Rightarrow>
   'v res outcome \<times> 'v ClientStreamHandle \<times> effect list" where
  "CloseAndRecv_body others doneFirst wr h =
     (case handle_takeResponse h of
        Some (r, h) \<Rightarrow> (Return r, h, [])
      | None \<Rightarrow>
          (let h = others 0 h in
           case CloseSend wr (ch_stream h) of
             (err, s, es) \<Rightarrow>
               (let h = others 1 (h\<lparr>ch_stream := s\<rparr>);
                    (r, h) = (case err of
                       Some e \<Rightarrow> CloseAndRecv_last e h
                     | None \<Rightarrow> CloseAndRecv_wait others doneFirst h)
                in (r, h, es))))"

definition CloseAndRecv ::
  "(nat \<Rightarrow> 'v ClientStreamHandle \<Rightarrow> 'v ClientStreamHandle) \<Rightarrow> bool \<Rightarrow> writer \<Rightarrow> 'v ClientStreamHandle option \<Rightarrow>
   'v res outcome \<times> 'v ClientStreamHandle option \<times> effect list" where
  "CloseAndRecv others doneFirst wr ho =
     (case ho of
        None \<Rightarrow> (Return (Inl (Sentinel ErrClosed)), None, [])
      | Some h \<Rightarrow>
          (case CloseAndRecv_body others doneFirst wr h of
             (Return r, h, es) \<Rightarrow>
               (case finish (Sentinel ErrClosed) (ch_stream h) of
                  (_, s, es') \<Rightarrow> (Return r, Some (h\<lparr>ch_stream := s\<rparr>), es @ es'))
           | (Blocked, h, es) \<Rightarrow> (Blocked, Some h, es)))"

end
