(* ===== verification/Stream_Machine.thy ===== *)
theory Stream_Machine
  imports Stream "HOL-Library.Multiset"
begin

text \<open>
  A stream under concurrency. The operations of \<open>Stream\<close> are cut at the points where the
  source releases \<^verbatim>\<open>mu\<close> or waits, and any number of goroutines may be between two sections: at
  most one sender (\<^verbatim>\<open>sendMu\<close>), at most one \<^verbatim>\<open>CloseSend\<close> waiting for \<^verbatim>\<open>sendMu\<close>, and any number of
  receivers. A step is one section, with any outcome of the write it makes.
\<close>

datatype sender = SIdle | STake bytes | SWrite bytes

datatype receiver = RTaken bytes | RSub u64 | RGrant Frame

record 'v machine =
  m_s :: "'v Stream"
  m_snd :: sender
  m_cls :: bool
  m_rcv :: "receiver multiset"

inductive mstep :: "'v machine \<Rightarrow> effect list \<Rightarrow> 'v machine \<Rightarrow> bool" where
  send_start:
    "m_snd m = SIdle \<Longrightarrow> sendsItems (m_s m) \<Longrightarrow> sendError (m_s m) = None \<Longrightarrow>
     MarshalValue (s_codec (m_s m)) item = Inr p \<Longrightarrow> mstep m [] (m\<lparr>m_snd := STake p\<rparr>)"
| send_take:
    "m_snd m = STake p \<Longrightarrow> takeCredit_pass (word_of_nat (length p)) (m_s m) = (Return None, s') \<Longrightarrow>
     mstep m [] (m\<lparr>m_s := s', m_snd := SWrite p\<rparr>)"
| send_fail:
    "m_snd m = STake p \<Longrightarrow> takeCredit_pass (word_of_nat (length p)) (m_s m) = (Return (Some e), s') \<Longrightarrow>
     mstep m [] (m\<lparr>m_s := s', m_snd := SIdle\<rparr>)"
| send_wait:
    "m_snd m = STake p \<Longrightarrow> takeCredit_pass (word_of_nat (length p)) (m_s m) = (Blocked, s') \<Longrightarrow>
     takeCredit_select s' = Some s'' \<Longrightarrow> mstep m [] (m\<lparr>m_s := s''\<rparr>)"
| send_write:
    "m_snd m = SWrite p \<Longrightarrow>
     mstep m [Write (streamFrame FrameStreamItem (m_s m) p)] (m\<lparr>m_snd := SIdle\<rparr>)"
| send_write_fail:
    "m_snd m = SWrite p \<Longrightarrow> abort e (m_s m) = (s', es) \<Longrightarrow>
     mstep m (Write (streamFrame FrameStreamItem (m_s m) p) # es) (m\<lparr>m_s := s', m_snd := SIdle\<rparr>)"
| close_begin:
    "sendsItems (m_s m) \<Longrightarrow> \<not> closeSendOnce (m_s m) \<Longrightarrow>
     mstep m [] (m\<lparr>m_s := CloseSend_begin (m_s m), m_cls := True\<rparr>)"
| close_end:
    "m_cls m \<Longrightarrow> m_snd m = SIdle \<Longrightarrow> CloseSend_end wr (m_s m) = (s', es) \<Longrightarrow>
     mstep m es (m\<lparr>m_s := s', m_cls := False\<rparr>)"
| recv_take:
    "receivesItems (m_s m) \<Longrightarrow> recvCh (m_s m) = p # q \<Longrightarrow>
     mstep m [] (m\<lparr>m_s := (m_s m)\<lparr>recvCh := q\<rparr>, m_rcv := add_mset (RTaken p) (m_rcv m)\<rparr>)"
| recv_sub:
    "m_rcv m = add_mset (RTaken p) rs \<Longrightarrow>
     mstep m [] (m\<lparr>m_s := (m_s m)\<lparr>bufferedBytes := bufferedBytes (m_s m) - word_of_nat (length p)\<rparr>,
                   m_rcv := add_mset (RSub (word_of_nat (length p))) rs\<rparr>)"
| recv_settle:
    "m_rcv m = add_mset (RSub n) rs \<Longrightarrow> returnCredit_take n (m_s m) = (None, s') \<Longrightarrow>
     mstep m [] (m\<lparr>m_s := s', m_rcv := rs\<rparr>)"
| recv_credit:
    "m_rcv m = add_mset (RSub n) rs \<Longrightarrow> returnCredit_take n (m_s m) = (Some f, s') \<Longrightarrow>
     mstep m [] (m\<lparr>m_s := s', m_rcv := add_mset (RGrant f) rs\<rparr>)"
| recv_grant:
    "m_rcv m = add_mset (RGrant f) rs \<Longrightarrow> mstep m [Write f] (m\<lparr>m_rcv := rs\<rparr>)"
| recv_grant_fail:
    "m_rcv m = add_mset (RGrant f) rs \<Longrightarrow> abort e (m_s m) = (s', es) \<Longrightarrow>
     mstep m (Write f # es) (m\<lparr>m_s := s', m_rcv := rs\<rparr>)"
| cancel:
    "Cancel wr (m_s m) = (r, s', es) \<Longrightarrow> mstep m es (m\<lparr>m_s := s'\<rparr>)"
| initial_grant:
    "grantInitialCredit wr (m_s m) = (r, es) \<Longrightarrow> mstep m es m"
| deliver_item:
    "length (Payload f) < 2 ^ 64 \<Longrightarrow> deliverItem f (m_s m) = (s', es) \<Longrightarrow> mstep m es (m\<lparr>m_s := s'\<rparr>)"
| deliver_end:
    "deliverEnd (m_s m) = (s', es) \<Longrightarrow> mstep m es (m\<lparr>m_s := s'\<rparr>)"
| deliver_error:
    "deliverError err (m_s m) = (s', es) \<Longrightarrow> mstep m es (m\<lparr>m_s := s'\<rparr>)"
| accept_credit:
    "acceptCredit f (m_s m) = (r, s') \<Longrightarrow> mstep m [] (m\<lparr>m_s := s'\<rparr>)"
| stream_abort:
    "abort e (m_s m) = (s', es) \<Longrightarrow> mstep m es (m\<lparr>m_s := s'\<rparr>)"
| parent_cancel:
    "mstep m [] (m\<lparr>m_s := cancel_ctx e (m_s m)\<rparr>)"
| watch_context:
    "watchContext (m_s m) = (s', es) \<Longrightarrow> mstep m es (m\<lparr>m_s := s'\<rparr>)"

inductive mrun :: "'v machine \<Rightarrow> effect list \<Rightarrow> 'v machine \<Rightarrow> bool" where
  mrun_refl: "mrun m [] m"
| mrun_step: "mrun m es m' \<Longrightarrow> mstep m' es' m'' \<Longrightarrow> mrun m (es @ es') m''"

definition new_machine :: "'v Stream \<Rightarrow> 'v machine" where
  "new_machine s = \<lparr>m_s = s, m_snd = SIdle, m_cls = False, m_rcv = {#}\<rparr>"

subsection \<open>The invariant\<close>

definition payload_bytes :: "bytes list \<Rightarrow> nat" where
  "payload_bytes q = sum_list (map length q)"

fun receiver_bytes :: "receiver \<Rightarrow> nat" where
  "receiver_bytes (RTaken p) = length p"
| "receiver_bytes (RSub n) = 0"
| "receiver_bytes (RGrant f) = 0"

definition ctl_ok :: "'v Stream \<Rightarrow> bool" where
  "ctl_ok s \<longleftrightarrow>
     \<not> s_panicked s \<and> (recvDone s \<longleftrightarrow> recvClosed s) \<and> (recvErr s \<noteq> None \<longleftrightarrow> recvClosed s) \<and>
     (sendDone s \<longleftrightarrow> sendClosed s) \<and> (closeSendOnce s \<longrightarrow> sendClosed s) \<and>
     (sendsItems s \<and> sendClosed s \<longrightarrow> closeSendOnce s) \<and> (sendEnded s \<longrightarrow> sendClosed s) \<and>
     (s_done s \<longrightarrow> recvClosed s \<and> s_ctx s \<noteq> None) \<and> (sendEnded s \<and> recvClosed s \<longrightarrow> s_done s)"

definition buf_ok :: "'v Stream \<Rightarrow> receiver multiset \<Rightarrow> bool" where
  "buf_ok s rs \<longleftrightarrow>
     length (recvCh s) \<le> recvCap s \<and>
     unat (bufferedBytes s) = payload_bytes (recvCh s) + (\<Sum>r\<in>#rs. receiver_bytes r) \<and>
     bufferedBytes s \<le> recvByteLimit s"

definition close_ok :: "'v machine \<Rightarrow> bool" where
  "close_ok m \<longleftrightarrow>
     (m_cls m \<longrightarrow> closeSendOnce (m_s m) \<and> \<not> sendEnded (m_s m)) \<and>
     (closeSendOnce (m_s m) \<and> \<not> m_cls m \<longrightarrow> m_snd m = SIdle) \<and>
     (m_snd m \<noteq> SIdle \<longrightarrow> sendsItems (m_s m))"

definition grants_ok :: "'v machine \<Rightarrow> bool" where
  "grants_ok m \<longleftrightarrow>
     (\<forall>f. RGrant f \<in># m_rcv m \<longrightarrow> Type f = FrameStreamWindow \<and> RequestID f = s_requestID (m_s m))"

definition machine_ok :: "'v machine \<Rightarrow> bool" where
  "machine_ok m \<longleftrightarrow> ctl_ok (m_s m) \<and> buf_ok (m_s m) (m_rcv m) \<and> close_ok m \<and> grants_ok m"

text \<open>Streams that differ only in how they ended, and those that differ only in their credit.\<close>

definition same_buf :: "'v Stream \<Rightarrow> 'v Stream \<Rightarrow> bool" where
  "same_buf s s' \<longleftrightarrow>
     recvCh s' = recvCh s \<and> recvCap s' = recvCap s \<and> bufferedBytes s' = bufferedBytes s \<and>
     recvByteLimit s' = recvByteLimit s"

definition same_send :: "'v Stream \<Rightarrow> 'v Stream \<Rightarrow> bool" where
  "same_send s s' \<longleftrightarrow>
     closeSendOnce s' = closeSendOnce s \<and> sendEnded s' = sendEnded s \<and> sendsItems s' = sendsItems s \<and>
     sendClosed s' = sendClosed s \<and> s_requestID s' = s_requestID s"

definition same_end :: "'v Stream \<Rightarrow> 'v Stream \<Rightarrow> bool" where
  "same_end s s' \<longleftrightarrow>
     same_send s s' \<and> s_panicked s' = s_panicked s \<and> recvDone s' = recvDone s \<and>
     recvClosed s' = recvClosed s \<and> recvErr s' = recvErr s \<and> sendDone s' = sendDone s \<and>
     s_done s' = s_done s \<and> s_ctx s' = s_ctx s"

lemma same_buf_ok: "same_buf s s' \<Longrightarrow> buf_ok s' rs = buf_ok s rs"
  by (simp add: same_buf_def buf_ok_def)

lemma same_end_ok: "same_end s s' \<Longrightarrow> ctl_ok s' = ctl_ok s"
  by (simp add: same_end_def same_send_def ctl_ok_def)

lemma same_end_send: "same_end s s' \<Longrightarrow> same_send s s'"
  by (simp add: same_end_def)

lemmas stream_end_defs =
  finish_def closeRecvLocked_def close_recvDone_def cancel_ctx_def

lemma finish_ctl: "ctl_ok s \<Longrightarrow> ctl_ok (fst (snd (finish err s)))"
  by (auto simp: ctl_ok_def stream_end_defs split: option.splits)

lemma finish_same:
  "same_buf s (fst (snd (finish err s)))" "same_send s (fst (snd (finish err s)))"
  by (simp_all add: same_buf_def same_send_def stream_end_defs split: option.splits)

lemma finish_done:
  "s_done s \<Longrightarrow> finish err s = (False, s, [])"
  "\<not> s_done s \<Longrightarrow> \<exists>s'. finish err s = (True, s', [OnDone (s_requestID s)]) \<and> s_done s' \<and> recvClosed s'"
  by (simp_all add: stream_end_defs split: option.splits)

subsection \<open>What the operations do outside of the stream\<close>

fun is_done :: "effect \<Rightarrow> bool" where
  "is_done (OnDone r) = True"
| "is_done _ = False"

fun effect_frame :: "effect \<Rightarrow> Frame option" where
  "effect_frame (Write f) = Some f"
| "effect_frame (SpawnWrite f) = Some f"
| "effect_frame (OnDone r) = None"

definition is_type :: "FrameType set \<Rightarrow> effect \<Rightarrow> bool" where
  "is_type ts e \<longleftrightarrow> (case effect_frame e of None \<Rightarrow> False | Some f \<Rightarrow> Type f \<in> ts)"

lemma is_type_simps [simp]:
  "is_type ts (Write f) \<longleftrightarrow> Type f \<in> ts" "is_type ts (SpawnWrite f) \<longleftrightarrow> Type f \<in> ts"
  "\<not> is_type ts (OnDone r)"
  by (simp_all add: is_type_def)

fun effect_id :: "effect \<Rightarrow> u64" where
  "effect_id (Write f) = RequestID f"
| "effect_id (SpawnWrite f) = RequestID f"
| "effect_id (OnDone r) = r"

text \<open>An operation that ends the stream: nothing if it had ended, else the callback once and at
  most one cancel or error frame.\<close>

definition ends :: "'v Stream \<Rightarrow> effect list \<Rightarrow> 'v Stream \<Rightarrow> bool" where
  "ends s es s' \<longleftrightarrow>
     (ctl_ok s \<longrightarrow> ctl_ok s') \<and> same_buf s s' \<and> same_send s s' \<and> s_done s' \<and>
     (if s_done s then s' = s \<and> es = []
      else es = [OnDone (s_requestID s)] \<or>
           (\<exists>e. es = [OnDone (s_requestID s), e] \<and> is_type {FrameCancel, FrameError} e \<and>
                effect_id e = s_requestID s))"

lemma finish_ends: "finish err s = (b, s', es) \<Longrightarrow> ends s es s'"
  using finish_ctl [of s err] finish_same [of s err] finish_done [of s err]
  by (cases "s_done s") (auto simp: ends_def)

lemma streamFrame_simps [simp]:
  "Type (streamFrame t s p) = t" "RequestID (streamFrame t s p) = s_requestID s"
  "Payload (streamFrame t s p) = p"
  by (simp_all add: streamFrame_def)

lemma finish_then_frame:
  assumes "finish err s = (True, s', es)" "is_type {FrameCancel, FrameError} e" "effect_id e = s_requestID s'"
  shows "ends s (es @ [e]) s'"
proof -
  from assms(1) finish_done(1) have nd: "\<not> s_done s" by fastforce
  with finish_done(2) [OF nd, of err] assms(1) have "es = [OnDone (s_requestID s)]" by simp
  with finish_ends [OF assms(1)] nd assms(2,3) show ?thesis
    by (simp add: ends_def same_send_def)
qed

lemma abort_ends: "abort err s = (s', es) \<Longrightarrow> ends s es s'"
  by (auto simp: abort_def intro: finish_ends finish_then_frame
      split: prod.splits bool.splits sum.splits)

lemma Cancel_ends: "Cancel wr s = (r, s', es) \<Longrightarrow> ends s es s'"
  by (auto simp: Cancel_def Let_def intro: finish_ends finish_then_frame
      split: prod.splits bool.splits)

lemma deliverError_ends: "deliverError err s = (s', es) \<Longrightarrow> ends s es s'"
  by (auto simp: deliverError_def intro: finish_ends split: prod.splits)

lemma watchContext_ends: "watchContext s = (s', es) \<Longrightarrow> s_ctx s = None \<and> s' = s \<and> es = [] \<or> ends s es s'"
  by (auto simp: watchContext_def intro: finish_ends finish_then_frame abort_ends
      split: prod.splits bool.splits option.splits if_splits)

lemma closeRecvLocked_same:
  "same_buf s (closeRecvLocked e s)" "same_send s (closeRecvLocked e s)"
  "s_done (closeRecvLocked e s) = s_done s" "s_requestID (closeRecvLocked e s) = s_requestID s"
  "s_ctx (closeRecvLocked e s) = s_ctx s"
  by (simp_all add: same_buf_def same_send_def closeRecvLocked_def close_recvDone_def)

lemma closeRecvLocked_ctl: "ctl_ok s \<Longrightarrow> \<not> sendEnded s \<Longrightarrow> ctl_ok (closeRecvLocked e s)"
  by (auto simp: ctl_ok_def closeRecvLocked_def close_recvDone_def)

lemma closeRecv_finish_ctl:
  "ctl_ok s \<Longrightarrow> ctl_ok (fst (snd (finish err (closeRecvLocked e s))))"
  by (auto simp: ctl_ok_def stream_end_defs split: option.splits)

definition closed :: "'v machine \<Rightarrow> bool" where
  "closed m \<longleftrightarrow> closeSendOnce (m_s m) \<and> \<not> m_cls m"

definition dones :: "effect list \<Rightarrow> nat" where "dones es = length (filter is_done es)"
definition terminals :: "effect list \<Rightarrow> nat" where
  "terminals es = length (filter (is_type {FrameCancel, FrameError}) es)"
definition send_ends :: "effect list \<Rightarrow> nat" where
  "send_ends es = length (filter (is_type {FrameStreamEnd}) es)"
definition items :: "effect list \<Rightarrow> nat" where
  "items es = length (filter (is_type {FrameStreamItem}) es)"

lemmas trace_defs = dones_def terminals_def send_ends_def items_def

text \<open>The effects of a step, in terms of the state before and after it.\<close>

definition end_effects :: "'v Stream \<Rightarrow> effect list \<Rightarrow> 'v Stream \<Rightarrow> bool" where
  "end_effects s es s' \<longleftrightarrow>
     dones es + of_bool (s_done s) = of_bool (s_done s') \<and> terminals es \<le> dones es \<and>
     send_ends es = 0 \<and> items es = 0 \<and> (\<forall>e \<in> set es. effect_id e = s_requestID s)"

lemma end_effects_same [simp]: "s_done s' = s_done s \<Longrightarrow> end_effects s [] s'"
  by (simp add: end_effects_def trace_defs)

lemma is_done_not_type: "is_type ts e \<Longrightarrow> \<not> is_done e"
  by (cases e) simp_all

lemma is_type_one: "is_type {FrameCancel, FrameError} e \<Longrightarrow> \<not> is_type {FrameStreamEnd} e \<and> \<not> is_type {FrameStreamItem} e"
  by (cases e) auto

lemma terminal_effects:
  assumes "is_type {FrameCancel, FrameError} e"
  shows "dones [d, e] = dones [d]" "terminals [OnDone r, e] = 1" "send_ends [OnDone r, e] = 0"
    "items [OnDone r, e] = 0"
  using assms is_type_one [OF assms] is_done_not_type [OF assms] by (simp_all add: trace_defs)

lemma ends_effects:
  assumes "ends s es s'"
  shows "end_effects s es s'"
proof -
  have d: "s_done s'" using assms by (simp add: ends_def)
  consider "s_done s" "es = []" | "\<not> s_done s" "es = [OnDone (s_requestID s)]"
    | e where "\<not> s_done s" "es = [OnDone (s_requestID s), e]" "is_type {FrameCancel, FrameError} e"
        "effect_id e = s_requestID s"
    using assms by (auto simp: ends_def split: if_splits)
  then show ?thesis
  proof cases
    case 3
    with d show ?thesis by (simp add: end_effects_def terminal_effects) (simp add: dones_def)
  qed (use d in \<open>simp_all add: end_effects_def trace_defs\<close>)
qed

definition stream_step_ok :: "'v Stream \<Rightarrow> effect list \<Rightarrow> 'v Stream \<Rightarrow> bool" where
  "stream_step_ok s es s' \<longleftrightarrow> (ctl_ok s \<longrightarrow> ctl_ok s') \<and> same_send s s' \<and> end_effects s es s'"

lemma ends_step_ok: "ends s es s' \<Longrightarrow> stream_step_ok s es s' \<and> same_buf s s'"
  by (simp add: stream_step_ok_def ends_effects) (simp add: ends_def)

lemma watchContext_step_ok: "watchContext s = (s', es) \<Longrightarrow> stream_step_ok s es s' \<and> same_buf s s'"
  using watchContext_ends [of s s' es] ends_step_ok [of s es s']
  by (auto simp: stream_step_ok_def same_buf_def same_send_def)

lemma same_trans:
  "same_buf s s' \<Longrightarrow> same_buf s' s'' \<Longrightarrow> same_buf s s''"
  "same_send s s' \<Longrightarrow> same_send s' s'' \<Longrightarrow> same_send s s''"
  by (simp_all add: same_buf_def same_send_def)

lemma deliverEnd_step_ok:
  assumes "deliverEnd s = (s', es)"
  shows "stream_step_ok s es s' \<and> same_buf s s'"
proof -
  let ?s = "closeRecvLocked (Sentinel IoEOF) s"
  show ?thesis
  proof (cases "sendEnded s")
    case True
    then have "sendEnded ?s" using closeRecvLocked_same(2) [of s] by (simp add: same_send_def)
    with assms obtain b where f: "finish (Sentinel ErrClosed) ?s = (b, s', es)"
      by (auto simp: deliverEnd_def Let_def split: prod.splits)
    with closeRecv_finish_ctl [of s "Sentinel ErrClosed" "Sentinel IoEOF"]
    have "ctl_ok s \<longrightarrow> ctl_ok s'" by simp
    moreover have "end_effects s es s'"
      using ends_effects [OF finish_ends [OF f]] by (simp add: end_effects_def closeRecvLocked_same)
    moreover have "same_buf s s'" "same_send s s'"
      using finish_ends [OF f] same_trans closeRecvLocked_same(1,2) unfolding ends_def by blast+
    ultimately show ?thesis by (simp add: stream_step_ok_def)
  next
    case False
    then have "\<not> sendEnded ?s" using closeRecvLocked_same(2) [of s] by (simp add: same_send_def)
    with assms have "s' = ?s" "es = []" by (simp_all add: deliverEnd_def)
    with False closeRecvLocked_ctl [of s] show ?thesis
      by (simp add: stream_step_ok_def closeRecvLocked_same)
  qed
qed

lemma same_end_step_ok: "same_end s s' \<Longrightarrow> stream_step_ok s [] s'"
  using same_end_ok [of s s'] by (simp add: stream_step_ok_def same_end_def)

lemma acceptCredit_same: "acceptCredit f s = (r, s') \<Longrightarrow> same_end s s' \<and> same_buf s s'"
  by (auto simp: acceptCredit_def same_end_def same_send_def same_buf_def Let_def
      split: option.splits sum.splits if_splits)

lemma returnCredit_take_same: "returnCredit_take n s = (r, s') \<Longrightarrow> same_end s s' \<and> same_buf s s'"
  by (auto simp: returnCredit_take_def same_end_def same_send_def same_buf_def Let_def
      split: option.splits if_splits)

lemma takeCredit_pass_same: "takeCredit_pass n s = (r, s') \<Longrightarrow> same_end s s' \<and> same_buf s s'"
  by (auto simp: takeCredit_pass_def same_end_def same_send_def same_buf_def
      split: option.splits if_splits)

lemma takeCredit_select_same: "takeCredit_select s = Some s' \<Longrightarrow> same_end s s' \<and> same_buf s s'"
  by (auto simp: takeCredit_select_def same_end_def same_send_def same_buf_def
      split: option.splits if_splits)

lemma cancel_ctx_step_ok: "stream_step_ok s [] (cancel_ctx e s) \<and> same_buf s (cancel_ctx e s)"
  by (auto simp: cancel_ctx_def stream_step_ok_def ctl_ok_def same_send_def same_buf_def split: option.splits)

lemma unat_length: "length p < 2 ^ 64 \<Longrightarrow> unat (word_of_nat (length p) :: u64) = length p"
  by (rule unat_of_nat_u64)

lemma deliverItem_cases:
  obtains (drop) "recvClosed s \<or> s_done s" "deliverItem f s = (s, [])"
  | (queue) "\<not> recvClosed s" "\<not> s_done s" "length (recvCh s) < recvCap s"
      "word_of_nat (length (Payload f)) \<le> recvByteLimit s - bufferedBytes s"
      "deliverItem f s = (s\<lparr>recvCh := recvCh s @ [Payload f],
         bufferedBytes := bufferedBytes s + word_of_nat (length (Payload f))\<rparr>, [])"
  | (abort) e where "\<not> recvClosed s" "\<not> s_done s" "errors_Is e ErrBackpressure"
      "\<not> (word_of_nat (length (Payload f)) \<le> recvByteLimit s - bufferedBytes s \<and> length (recvCh s) < recvCap s)"
      "deliverItem f s = abort e s"
proof -
  define e where "e = Errorf_suffix ErrBackpressure ''stream receive buffer exhausted''"
  have e: "errors_Is e ErrBackpressure" by (simp add: e_def)
  note d = deliverItem_def [of f s, folded e_def, unfolded Let_def]
  show ?thesis
  proof (cases "recvClosed s \<or> s_done s")
    case True
    with d show ?thesis by (intro drop) simp_all
  next
    case open_: False
    show ?thesis
    proof (cases "word_of_nat (length (Payload f)) \<le> recvByteLimit s - bufferedBytes s \<and> length (recvCh s) < recvCap s")
      case True
      with open_ d show ?thesis by (intro queue) simp_all
    next
      case False
      with open_ d e show ?thesis by (intro abort [of e]) simp_all
    qed
  qed
qed

lemma deliverItem_step_ok:
  assumes "deliverItem f s = (s', es)"
  shows "stream_step_ok s es s'"
proof (cases f s rule: deliverItem_cases)
  case (abort e)
  with assms ends_step_ok [OF abort_ends] show ?thesis by metis
qed (use assms in \<open>simp_all add: stream_step_ok_def ctl_ok_def same_send_def\<close>)

lemma deliverItem_buf:
  assumes "deliverItem f s = (s', es)" "length (Payload f) < 2 ^ 64" "buf_ok s rs"
  shows "buf_ok s' rs"
proof (cases f s rule: deliverItem_cases)
  case (abort e)
  with assms ends_step_ok [OF abort_ends] same_buf_ok show ?thesis by metis
next
  case queue
  let ?n = "word_of_nat (length (Payload f)) :: u64"
  have le: "bufferedBytes s \<le> recvByteLimit s" using assms(3) by (simp add: buf_ok_def)
  have "length (Payload f) \<le> unat (recvByteLimit s) - unat (bufferedBytes s)"
    using queue(4) unat_length [OF assms(2)] unat_sub_u64 [OF le] by (simp add: u64_le_iff)
  moreover have "unat (bufferedBytes s) \<le> unat (recvByteLimit s)" using le by (simp add: u64_le_iff)
  moreover have "unat (recvByteLimit s) < 2 ^ 64" using unsigned_less [of "recvByteLimit s"] by simp
  ultimately have "unat (bufferedBytes s + ?n) = unat (bufferedBytes s) + length (Payload f)"
    and "bufferedBytes s + ?n \<le> recvByteLimit s"
    using unat_add_u64 [of "bufferedBytes s" ?n] unat_length [OF assms(2)]
    by (simp_all add: u64_le_iff)
  with assms queue show ?thesis by (auto simp: buf_ok_def payload_bytes_def)
qed (use assms in simp)

lemma CloseSend_begin_ctl:
  "ctl_ok s \<Longrightarrow> sendsItems s \<Longrightarrow> \<not> closeSendOnce s \<Longrightarrow>
     ctl_ok (CloseSend_begin s) \<and> same_buf s (CloseSend_begin s) \<and> closeSendOnce (CloseSend_begin s) \<and>
     \<not> sendEnded (CloseSend_begin s) \<and> sendsItems (CloseSend_begin s) \<and>
     s_requestID (CloseSend_begin s) = s_requestID s \<and> s_done (CloseSend_begin s) = s_done s"
  by (auto simp: CloseSend_begin_def close_sendDone_def ctl_ok_def same_buf_def)

definition ending :: "'v Stream \<Rightarrow> gerror option \<Rightarrow> 'v Stream" where
  "ending s err = s\<lparr>closeSendErr := err, sendEnded := (err = None)\<rparr>"

lemma CloseSend_end_cases:
  obtains (fail) e w es' where "CloseSend_end wr s = (fst (abort e (ending s (Some e))), w @ es')"
      "abort e (ending s (Some e)) = (fst (abort e (ending s (Some e))), es')"
      "w = [] \<or> w = [Write (streamFrame FrameStreamEnd s [])]"
  | (finish) "s_ctx s = None" "recvClosed s"
      "CloseSend_end wr s = (fst (snd (finish (Sentinel ErrClosed) (ending s None))),
         Write (streamFrame FrameStreamEnd s []) # snd (snd (finish (Sentinel ErrClosed) (ending s None))))"
  | (stay) "s_ctx s = None" "\<not> recvClosed s"
      "CloseSend_end wr s = (ending s None, [Write (streamFrame FrameStreamEnd s [])])"
proof (cases "s_ctx s")
  case (Some e)
  then show ?thesis
    by (intro fail [of e "[]" "snd (abort e (ending s (Some e)))"])
       (simp_all add: CloseSend_end_def CloseSend_finish_def ending_def split: prod.splits)
next
  case ctx: None
  show ?thesis
  proof (cases "wr (streamFrame FrameStreamEnd s [])")
    case None
    with ctx finish stay show ?thesis
      by (cases "recvClosed s") (simp_all add: CloseSend_end_def CloseSend_finish_def ending_def split: prod.splits)
  next
    case (Some e)
    with ctx show ?thesis
      by (intro fail [of e "[Write (streamFrame FrameStreamEnd s [])]" "snd (abort e (ending s (Some e)))"])
         (simp_all add: CloseSend_end_def CloseSend_finish_def ending_def split: prod.splits)
  qed
qed

lemma ending_simps [simp]:
  "same_buf s (ending s err)" "closeSendOnce (ending s err) = closeSendOnce s"
  "sendsItems (ending s err) = sendsItems s" "s_requestID (ending s err) = s_requestID s"
  "s_done (ending s err) = s_done s" "sendClosed (ending s err) = sendClosed s"
  by (simp_all add: ending_def same_buf_def)

lemma CloseSend_end_ok:
  assumes ok: "ctl_ok s" "closeSendOnce s" and e: "CloseSend_end wr s = (s', es)"
  shows "ctl_ok s' \<and> same_buf s s' \<and> closeSendOnce s' \<and> sendsItems s' = sendsItems s \<and>
    s_requestID s' = s_requestID s \<and>
    (\<exists>w es'. es = w @ es' \<and> (w = [] \<or> w = [Write (streamFrame FrameStreamEnd s [])]) \<and> end_effects s es' s')"
proof (cases wr s rule: CloseSend_end_cases)
  case (fail x w es')
  have "ctl_ok (ending s (Some x))" using ok by (auto simp: ctl_ok_def ending_def)
  moreover have x: "ends (ending s (Some x)) es' s'" using fail e abort_ends by auto
  ultimately have "ctl_ok s' \<and> same_buf s s' \<and> closeSendOnce s' \<and> sendsItems s' = sendsItems s \<and>
      s_requestID s' = s_requestID s"
    using ok(2) by (simp add: ends_def same_buf_def same_send_def) (simp add: ending_def)
  moreover have "end_effects s es' s'" using ends_effects [OF x] by (simp add: end_effects_def)
  ultimately show ?thesis using fail e by auto
next
  case finish
  let ?t = "ending s None"
  have "ctl_ok (fst (snd (finish (Sentinel ErrClosed) ?t)))"
    using ok finish(1) by (auto simp: ctl_ok_def ending_def stream_end_defs)
  moreover obtain b where f: "Stream.finish (Sentinel ErrClosed) ?t = (b, s', tl es)"
    using e finish(3) by (metis fst_conv list.sel(3) prod.collapse snd_conv)
  ultimately have "ctl_ok s'" by simp
  have x: "ends ?t (tl es) s'" by (rule finish_ends [OF f])
  then have "same_buf s s' \<and> closeSendOnce s' \<and> sendsItems s' = sendsItems s \<and> s_requestID s' = s_requestID s"
    using ok(2) by (simp add: ends_def same_buf_def same_send_def) (simp add: ending_def)
  moreover have "end_effects s (tl es) s'" using ends_effects [OF x] by (simp add: end_effects_def)
  moreover have "es = [Write (streamFrame FrameStreamEnd s [])] @ tl es" using e finish(3) by auto
  ultimately show ?thesis using \<open>ctl_ok s'\<close> by blast
next
  case stay
  then have "ctl_ok (ending s None)" using ok by (auto simp: ctl_ok_def ending_def)
  moreover have "es = [Write (streamFrame FrameStreamEnd s [])] @ [] \<and> end_effects s [] s'"
    using stay e by auto
  ultimately show ?thesis
    using stay e ok(2) by (intro conjI exI [of _ "[Write (streamFrame FrameStreamEnd s [])]"] exI [of _ "[]"]) auto
qed

subsection \<open>Every step keeps the invariant\<close>

lemma stream_step_machine:
  assumes "machine_ok m" "stream_step_ok (m_s m) es s'" "buf_ok s' (m_rcv m)"
  shows "machine_ok (m\<lparr>m_s := s'\<rparr>)"
  using assms by (auto simp: machine_ok_def stream_step_ok_def close_ok_def grants_ok_def same_send_def)

lemma stream_step_machine_buf:
  assumes "machine_ok m" "stream_step_ok (m_s m) es s' \<and> same_buf (m_s m) s'"
  shows "machine_ok (m\<lparr>m_s := s'\<rparr>)"
  using assms stream_step_machine [of m es s'] same_buf_ok by (auto simp: machine_ok_def)

lemma machine_snd_idle: "machine_ok m \<Longrightarrow> machine_ok (m\<lparr>m_snd := SIdle\<rparr>)"
  by (auto simp: machine_ok_def close_ok_def grants_ok_def)

lemma machine_snd_active: "machine_ok m \<Longrightarrow> m_snd m \<noteq> SIdle \<Longrightarrow> machine_ok (m\<lparr>m_snd := x\<rparr>)"
  by (auto simp: machine_ok_def close_ok_def grants_ok_def)

lemma ctl_ok_update [simp]:
  "ctl_ok (s\<lparr>recvCh := q\<rparr>) = ctl_ok s" "ctl_ok (s\<lparr>bufferedBytes := b\<rparr>) = ctl_ok s"
  by (simp_all add: ctl_ok_def)

lemma machine_rcv_drop:
  "machine_ok m \<Longrightarrow> m_rcv m = add_mset r rs \<Longrightarrow> receiver_bytes r = 0 \<Longrightarrow> machine_ok (m\<lparr>m_rcv := rs\<rparr>)"
  by (auto simp: machine_ok_def close_ok_def grants_ok_def buf_ok_def)

lemma unat_sub_length:
  fixes n :: u64
  assumes "unat n = length p + k"
  shows "unat (n - word_of_nat (length p)) = k" "n - word_of_nat (length p) \<le> n"
proof -
  have "length p < 2 ^ 64" using assms unsigned_less [of n, where 'a = nat] by simp
  then have l: "unat (word_of_nat (length p) :: u64) = length p" by (rule unat_of_nat_u64)
  then have "(word_of_nat (length p) :: u64) \<le> n" using assms by (simp add: u64_le_iff)
  then show "unat (n - word_of_nat (length p)) = k" "n - word_of_nat (length p) \<le> n"
    using l assms unat_sub_u64 by (auto simp: u64_le_iff)
qed

lemma mstep_ok:
  assumes "mstep m es m'" "machine_ok m"
  shows "machine_ok m'"
  using assms
proof (induction rule: mstep.induct)
  case (send_start m item p)
  then show ?case
    by (auto simp: machine_ok_def close_ok_def grants_ok_def sendError_def ctl_ok_def split: option.splits if_splits)
next
  case (send_take m p s')
  then have "machine_ok (m\<lparr>m_s := s'\<rparr>)"
    using takeCredit_pass_same same_end_step_ok stream_step_machine_buf by blast
  from machine_snd_active [OF this] send_take(1) show ?case by simp
next
  case (send_fail m p e s')
  then have "machine_ok (m\<lparr>m_s := s'\<rparr>)"
    using takeCredit_pass_same same_end_step_ok stream_step_machine_buf by blast
  from machine_snd_idle [OF this] show ?case by simp
next
  case (send_wait m p s' s'')
  then have "machine_ok (m\<lparr>m_s := s'\<rparr>)"
    using takeCredit_pass_same same_end_step_ok stream_step_machine_buf by blast
  from stream_step_machine_buf [OF this, of "[]" s''] takeCredit_select_same [OF send_wait(3)]
    same_end_step_ok [of s' s''] show ?case by simp
next
  case (send_write m p)
  then show ?case by (simp add: machine_snd_idle)
next
  case (send_write_fail m p e s' es)
  then have "machine_ok (m\<lparr>m_s := s'\<rparr>)"
    using abort_ends ends_step_ok stream_step_machine_buf by blast
  from machine_snd_idle [OF this] show ?case by simp
next
  case (close_begin m)
  let ?s = "CloseSend_begin (m_s m)"
  have c: "ctl_ok ?s \<and> same_buf (m_s m) ?s \<and> closeSendOnce ?s \<and> \<not> sendEnded ?s \<and> sendsItems ?s \<and>
      s_requestID ?s = s_requestID (m_s m)"
    using CloseSend_begin_ctl [of "m_s m"] close_begin by (simp add: machine_ok_def)
  then have "buf_ok ?s (m_rcv m)"
    using same_buf_ok [of "m_s m" ?s "m_rcv m"] close_begin(3) by (simp add: machine_ok_def)
  with c close_begin(3) show ?case by (simp add: machine_ok_def close_ok_def grants_ok_def)
next
  case (close_end m wr s' es)
  then have "ctl_ok (m_s m)" "closeSendOnce (m_s m)" by (auto simp: machine_ok_def close_ok_def)
  from CloseSend_end_ok [OF this close_end(3)]
  have c: "ctl_ok s' \<and> same_buf (m_s m) s' \<and> closeSendOnce s' \<and> sendsItems s' = sendsItems (m_s m) \<and>
      s_requestID s' = s_requestID (m_s m)" by blast
  then have "buf_ok s' (m_rcv m)"
    using same_buf_ok [of "m_s m" s' "m_rcv m"] close_end(4) by (simp add: machine_ok_def)
  with c close_end(2,4) show ?case by (simp add: machine_ok_def close_ok_def grants_ok_def)
next
  case (recv_take m p q)
  then show ?case
    by (simp add: machine_ok_def close_ok_def grants_ok_def buf_ok_def payload_bytes_def)
next
  case (recv_sub m p rs)
  then have "unat (bufferedBytes (m_s m)) = length p + (payload_bytes (recvCh (m_s m)) + (\<Sum>r\<in>#rs. receiver_bytes r))"
    by (simp add: machine_ok_def buf_ok_def)
  note d = unat_sub_length [OF this]
  moreover have "bufferedBytes (m_s m) - word_of_nat (length p) \<le> recvByteLimit (m_s m)"
    using d(2) recv_sub(2) by (simp add: machine_ok_def buf_ok_def) (meson order_trans)
  ultimately show ?case using recv_sub
    by (simp add: machine_ok_def close_ok_def grants_ok_def buf_ok_def)
next
  case (recv_settle m n rs s')
  then have "machine_ok (m\<lparr>m_s := s'\<rparr>)"
    using returnCredit_take_same same_end_step_ok stream_step_machine_buf by blast
  with recv_settle(1) machine_rcv_drop [of "m\<lparr>m_s := s'\<rparr>"] show ?case by simp
next
  case (recv_credit m n rs f s')
  then have "machine_ok (m\<lparr>m_s := s'\<rparr>)"
    using returnCredit_take_same same_end_step_ok stream_step_machine_buf by blast
  then have "machine_ok (m\<lparr>m_s := s', m_rcv := rs\<rparr>)"
    using recv_credit(1) machine_rcv_drop [of "m\<lparr>m_s := s'\<rparr>"] by simp
  moreover have "Type f = FrameStreamWindow \<and> RequestID f = s_requestID s'"
    using recv_credit(2) by (auto simp: returnCredit_take_def Let_def split: option.splits if_splits)
  ultimately show ?case by (simp add: machine_ok_def close_ok_def grants_ok_def buf_ok_def)
next
  case (recv_grant m f rs)
  then show ?case by (simp add: machine_rcv_drop)
next
  case (recv_grant_fail m f rs e s' es)
  then have "machine_ok (m\<lparr>m_s := s'\<rparr>)"
    using abort_ends ends_step_ok stream_step_machine_buf by blast
  with recv_grant_fail(1) machine_rcv_drop [of "m\<lparr>m_s := s'\<rparr>"] show ?case by simp
next
  case (cancel wr m r s' es)
  then show ?case using Cancel_ends ends_step_ok stream_step_machine_buf by blast
next
  case (deliver_item f m s' es)
  then show ?case
    using deliverItem_step_ok deliverItem_buf stream_step_machine by (metis machine_ok_def)
next
  case (deliver_end m s' es)
  then show ?case using deliverEnd_step_ok stream_step_machine_buf by blast
next
  case (deliver_error err m s' es)
  then show ?case using deliverError_ends ends_step_ok stream_step_machine_buf by blast
next
  case (accept_credit f m r s')
  then show ?case using acceptCredit_same same_end_step_ok stream_step_machine_buf by blast
next
  case (stream_abort e m s' es)
  then show ?case using abort_ends ends_step_ok stream_step_machine_buf by blast
next
  case (parent_cancel m e)
  then show ?case using cancel_ctx_step_ok stream_step_machine_buf by blast
next
  case (watch_context m s' es)
  then show ?case using watchContext_step_ok stream_step_machine_buf by blast
qed

subsection \<open>Traces\<close>

definition step_effects :: "'v machine \<Rightarrow> effect list \<Rightarrow> 'v machine \<Rightarrow> bool" where
  "step_effects m es m' \<longleftrightarrow>
     s_requestID (m_s m') = s_requestID (m_s m) \<and>
     dones es + of_bool (s_done (m_s m)) = of_bool (s_done (m_s m')) \<and> terminals es \<le> dones es \<and>
     send_ends es + of_bool (closed m) \<le> of_bool (closed m') \<and>
     (closed m \<longrightarrow> items es = 0) \<and> (send_ends es > 0 \<longrightarrow> items es = 0) \<and>
     (\<forall>e \<in> set es. effect_id e = s_requestID (m_s m))"

lemma trace_append [simp]:
  "dones (es @ es') = dones es + dones es'" "terminals (es @ es') = terminals es + terminals es'"
  "send_ends (es @ es') = send_ends es + send_ends es'" "items (es @ es') = items es + items es'"
  by (simp_all add: trace_defs)

lemma trace_Cons:
  "dones (e # es) = of_bool (is_done e) + dones es"
  "terminals (e # es) = of_bool (is_type {FrameCancel, FrameError} e) + terminals es"
  "send_ends (e # es) = of_bool (is_type {FrameStreamEnd} e) + send_ends es"
  "items (e # es) = of_bool (is_type {FrameStreamItem} e) + items es"
  by (simp_all add: trace_defs)

lemma trace_Nil [simp]: "dones [] = 0" "terminals [] = 0" "send_ends [] = 0" "items [] = 0"
  by (simp_all add: trace_defs)

lemma step_effects_stream:
  assumes "stream_step_ok (m_s m) es (m_s m')" "m_cls m' = m_cls m"
  shows "step_effects m es m'"
  using assms by (simp add: step_effects_def stream_step_ok_def end_effects_def closed_def same_send_def)

lemma step_effects_write:
  assumes "stream_step_ok (m_s m) es (m_s m')" "m_cls m' = m_cls m"
    and "RequestID f = s_requestID (m_s m)"
    and "Type f = FrameStreamWindow \<or> (Type f = FrameStreamItem \<and> \<not> closed m)"
  shows "step_effects m (Write f # es) m'"
proof -
  have "dones (Write f # es) = dones es" "terminals (Write f # es) = terminals es"
    "send_ends (Write f # es) = send_ends es" "items es = 0" "send_ends es = 0"
    "items (Write f # es) = of_bool (Type f = FrameStreamItem)"
    using assms(1,4) by (auto simp: trace_Cons stream_step_ok_def end_effects_def)
  with step_effects_stream [OF assms(1,2)] assms(3,4) show ?thesis
    by (elim disjE) (simp_all add: step_effects_def)
qed

lemma stream_step_ok_refl [simp]: "stream_step_ok s [] s"
  by (simp add: stream_step_ok_def same_send_def)

lemma machine_grant:
  "machine_ok m \<Longrightarrow> RGrant f \<in># m_rcv m \<Longrightarrow> Type f = FrameStreamWindow \<and> RequestID f = s_requestID (m_s m)"
  unfolding machine_ok_def grants_ok_def by blast

lemma mstep_effects:
  assumes "mstep m es m'" "machine_ok m"
  shows "step_effects m es m'"
  using assms
proof (induction rule: mstep.induct)
  case (send_write m p)
  then have "\<not> closed m" by (auto simp: machine_ok_def close_ok_def closed_def)
  then show ?case by (intro step_effects_write) simp_all
next
  case (send_write_fail m p e s' es)
  then have "\<not> closed m" by (auto simp: machine_ok_def close_ok_def closed_def)
  with ends_step_ok [OF abort_ends [OF send_write_fail(2)]] show ?case
    by (intro step_effects_write) simp_all
next
  case (close_begin m)
  then have "CloseSend_begin (m_s m) = CloseSend_begin (m_s m) \<and> s_done (CloseSend_begin (m_s m)) = s_done (m_s m) \<and>
     s_requestID (CloseSend_begin (m_s m)) = s_requestID (m_s m)"
    using CloseSend_begin_ctl [of "m_s m"] by (simp add: machine_ok_def)
  with close_begin show ?case by (simp add: step_effects_def closed_def)
next
  case (close_end m wr s' es)
  then have "ctl_ok (m_s m)" "closeSendOnce (m_s m)" by (auto simp: machine_ok_def close_ok_def)
  from CloseSend_end_ok [OF this close_end(3)] obtain w es' where
    c: "closeSendOnce s'" "s_requestID s' = s_requestID (m_s m)" "es = w @ es'"
       "w = [] \<or> w = [Write (streamFrame FrameStreamEnd (m_s m) [])]" "end_effects (m_s m) es' s'" by blast
  have "\<not> closed m" using close_end(1) by (simp add: closed_def)
  from c(4) this c(1,2,3,5) show ?case
    by (elim disjE) (simp_all add: step_effects_def closed_def end_effects_def trace_Cons)
next
  case (recv_grant m f rs)
  then have "Type f = FrameStreamWindow" "RequestID f = s_requestID (m_s m)"
    using machine_grant [of m f] by simp_all
  then show ?case by (intro step_effects_write) simp_all
next
  case (recv_grant_fail m f rs e s' es)
  then have "Type f = FrameStreamWindow" "RequestID f = s_requestID (m_s m)"
    using machine_grant [of m f] by simp_all
  with ends_step_ok [OF abort_ends [OF recv_grant_fail(2)]] show ?case by (intro step_effects_write) simp_all
next
  case (initial_grant wr m r es)
  then consider "es = []" | f where "es = [Write f]" "Type f = FrameStreamWindow" "RequestID f = s_requestID (m_s m)"
    by (auto simp: grantInitialCredit_def receiveWindow_def Let_def split: if_splits)
  then show ?case by cases (simp_all add: step_effects_stream step_effects_write)
next
  case (send_take m p s')
  then show ?case using takeCredit_pass_same same_end_step_ok by (intro step_effects_stream) fastforce+
next
  case (send_fail m p e s')
  then show ?case using takeCredit_pass_same same_end_step_ok by (intro step_effects_stream) fastforce+
next
  case (send_wait m p s' s'')
  then have "stream_step_ok (m_s m) [] s'" "stream_step_ok s' [] s''"
    using takeCredit_pass_same takeCredit_select_same same_end_step_ok by blast+
  then have "stream_step_ok (m_s m) [] s''"
    by (auto simp: stream_step_ok_def same_send_def end_effects_def)
  then show ?case by (intro step_effects_stream) simp_all
next
  case (recv_settle m n rs s')
  then show ?case using returnCredit_take_same same_end_step_ok by (intro step_effects_stream) fastforce+
next
  case (recv_credit m n rs f s')
  then show ?case using returnCredit_take_same same_end_step_ok by (intro step_effects_stream) fastforce+
next
  case (cancel wr m r s' es)
  then show ?case using Cancel_ends ends_step_ok by (intro step_effects_stream) fastforce+
next
  case (deliver_item f m s' es)
  then show ?case using deliverItem_step_ok by (intro step_effects_stream) fastforce+
next
  case (deliver_end m s' es)
  then show ?case using deliverEnd_step_ok by (intro step_effects_stream) fastforce+
next
  case (deliver_error err m s' es)
  then show ?case using deliverError_ends ends_step_ok by (intro step_effects_stream) fastforce+
next
  case (accept_credit f m r s')
  then show ?case using acceptCredit_same same_end_step_ok by (intro step_effects_stream) fastforce+
next
  case (stream_abort e m s' es)
  then show ?case using abort_ends ends_step_ok by (intro step_effects_stream) fastforce+
next
  case (parent_cancel m e)
  then show ?case using cancel_ctx_step_ok by (intro step_effects_stream) fastforce+
next
  case (watch_context m s' es)
  then show ?case using watchContext_step_ok by (intro step_effects_stream) fastforce+
qed (intro step_effects_stream; simp add: stream_step_ok_def same_send_def)+

lemma mrun_ok: "mrun m es m' \<Longrightarrow> machine_ok m \<Longrightarrow> machine_ok m'"
  by (induction rule: mrun.induct) (auto intro: mstep_ok)

text \<open>No item is written after the end frame.\<close>

definition items_before_end :: "effect list \<Rightarrow> bool" where
  "items_before_end es \<longleftrightarrow>
     (\<forall>pre post. es = pre @ post \<longrightarrow> send_ends pre > 0 \<longrightarrow> items post = 0)"

definition fresh_machine :: "'v machine \<Rightarrow> bool" where
  "fresh_machine m \<longleftrightarrow> machine_ok m \<and> \<not> s_done (m_s m) \<and> \<not> closed m"

lemma items_before_end_append:
  assumes "items_before_end es" "send_ends es > 0 \<Longrightarrow> items es' = 0" "send_ends es' > 0 \<Longrightarrow> items es' = 0"
  shows "items_before_end (es @ es')"
  unfolding items_before_end_def
proof (intro allI impI)
  fix pre post assume eq: "es @ es' = pre @ post" and e: "send_ends pre > 0"
  from eq consider z where "es = pre @ z" "post = z @ es'" | z where "pre = es @ z" "es' = z @ post"
    by (auto simp: append_eq_append_conv2)
  then show "items post = 0"
  proof cases
    case 1
    with assms(1) e have "items z = 0" by (simp add: items_before_end_def)
    moreover have "send_ends es > 0" using 1 e by simp
    ultimately show ?thesis using 1 assms(2) by simp
  next
    case 2
    with e assms(2,3) have "items es' = 0" by auto
    with 2 show ?thesis by simp
  qed
qed

lemma mrun_trace:
  assumes "mrun m es m'" "fresh_machine m"
  shows "s_requestID (m_s m') = s_requestID (m_s m) \<and> dones es = of_bool (s_done (m_s m')) \<and>
    terminals es \<le> dones es \<and> send_ends es \<le> of_bool (closed m') \<and> items_before_end es \<and>
    (\<forall>e \<in> set es. effect_id e = s_requestID (m_s m))"
  using assms
proof (induction rule: mrun.induct)
  case (mrun_refl m)
  then show ?case by (simp add: fresh_machine_def items_before_end_def)
next
  case (mrun_step m es m' es' m'')
  then have "machine_ok m'" using mrun_ok by (auto simp: fresh_machine_def)
  then have st: "step_effects m' es' m''" using mrun_step by (intro mstep_effects)
  have "items_before_end (es @ es')"
  proof (rule items_before_end_append)
    assume "send_ends es > 0"
    then have "closed m'" using mrun_step by (cases "closed m'") auto
    then show "items es' = 0" using st by (simp add: step_effects_def)
  qed (use mrun_step st in \<open>simp_all add: step_effects_def\<close>)
  moreover have "send_ends (es @ es') \<le> of_bool (closed m'')"
    using mrun_step st by (simp add: step_effects_def)
  ultimately show ?case using mrun_step st by (auto simp: step_effects_def)
qed


subsection \<open>Fresh streams\<close>

lemma new_stream_fresh:
  "fresh_machine (new_machine (configure kind caller fc (newStreamWithOptions mc lib ctx rid fn codec opts)))"
  by (cases kind; cases caller)
     (simp_all add: fresh_machine_def new_machine_def machine_ok_def close_ok_def grants_ok_def closed_def
        configure_def newStreamWithOptions_def Let_def close_sendDone_def close_recvDone_def ctl_ok_def
        buf_ok_def payload_bytes_def)

text \<open>C1. The life of a stream, under every interleaving of its goroutines with the connection
  reader, every outcome of a write and every cancellation: it never closes a channel twice,
  its queue stays within RecvBuffer items and RecvBytes bytes with bufferedBytes exact, the
  completion callback runs exactly once and exactly when the stream is done, at most one
  cancel or error frame is sent and only by the operation that ended it, at most one end
  frame is sent and no item follows it, and every frame carries the stream's request id.\<close>

theorem stream_life:
  assumes "mrun (new_machine (configure kind caller fc
      (newStreamWithOptions mc lib ctx rid fn codec opts))) es m"
  shows "\<not> s_panicked (m_s m) \<and> length (recvCh (m_s m)) \<le> recvCap (m_s m) \<and>
    unat (bufferedBytes (m_s m)) = payload_bytes (recvCh (m_s m)) + (\<Sum>r\<in>#m_rcv m. receiver_bytes r) \<and>
    bufferedBytes (m_s m) \<le> recvByteLimit (m_s m) \<and>
    dones es = of_bool (s_done (m_s m)) \<and> terminals es \<le> dones es \<and>
    send_ends es \<le> 1 \<and> items_before_end es \<and> (\<forall>e \<in> set es. effect_id e = rid)"
proof -
  let ?m = "new_machine (configure kind caller fc (newStreamWithOptions mc lib ctx rid fn codec opts))"
  have fresh: "fresh_machine ?m" by (rule new_stream_fresh)
  have id: "s_requestID (m_s ?m) = rid"
    by (cases kind; cases caller) (simp_all add: new_machine_def configure_def newStreamWithOptions_def
        Let_def close_sendDone_def close_recvDone_def)
  have "machine_ok m" using mrun_ok [OF assms] fresh by (simp add: fresh_machine_def)
  then have "ctl_ok (m_s m)" "buf_ok (m_s m) (m_rcv m)" by (simp_all add: machine_ok_def)
  moreover note mrun_trace [OF assms fresh, unfolded id]
  moreover have "(of_bool (closed m) :: nat) \<le> 1" by simp
  ultimately show ?thesis unfolding ctl_ok_def buf_ok_def by (meson order_trans)
qed

text \<open>Deliveries by the connection reader never write on its goroutine, whatever the
  stream's state: an item that does not fit, an end or an error at most runs the completion
  callback and spawns the error frame's write, and accepting credit writes nothing. So the
  reader stays free to deliver the credit a blocked writer waits for.\<close>

theorem deliveries_never_write:
  "Write f \<notin> set (snd (deliverItem g s)) \<and> Write f \<notin> set (snd (deliverEnd s)) \<and>
   Write f \<notin> set (snd (deliverError err s)) \<and> Write f \<notin> set (snd (abort e s))"
proof -
  have fin: "finish e t = (b, t', es) \<Longrightarrow> Write f \<notin> set es" for e b es and t t' :: "'a Stream"
    by (auto simp: finish_def split: if_splits)
  then have ab: "Write f \<notin> set (snd (abort e s))" for e
    by (auto simp: abort_def split: prod.splits bool.splits sum.splits)
  moreover have "Write f \<notin> set (snd (deliverItem g s))"
    by (cases g s rule: deliverItem_cases) (simp_all add: ab)
  moreover have "Write f \<notin> set (snd (deliverEnd s))"
    using fin by (auto simp: deliverEnd_def Let_def split: prod.splits)
  moreover have "Write f \<notin> set (snd (deliverError err s))"
    using fin by (auto simp: deliverError_def split: prod.splits)
  ultimately show ?thesis by blast
qed

subsection \<open>Sending\<close>

text \<open>What a sender waits for: credit for one item of its size.\<close>

definition lacks_credit :: "u64 \<Rightarrow> 'v Stream \<Rightarrow> bool" where
  "lacks_credit n s \<longleftrightarrow>
     (case flow s of
        None \<Rightarrow> False
      | Some f \<Rightarrow> \<not> (fl_initialized f \<and> n > fl_maxBytes f) \<and> \<not> (fl_items f > 0 \<and> n \<le> fl_bytes f))"

lemma takeCredit_pass_Blocked:
  "takeCredit_pass n s = (Blocked, s') \<longleftrightarrow> s' = s \<and> sendError s = None \<and> lacks_credit n s"
  by (auto simp: takeCredit_pass_def lacks_credit_def split: option.splits if_splits)

lemma takeCredit_pass_Return:
  "fst (takeCredit_pass n s) = Blocked \<or> (\<exists>r. fst (takeCredit_pass n s) = Return r)"
  by (cases "fst (takeCredit_pass n s)") auto

definition drop_token :: "'v Stream \<Rightarrow> 'v Stream" where
  "drop_token s = s\<lparr>flow := map_option (\<lambda>f. f\<lparr>fl_changed := False\<rparr>) (flow s)\<rparr>"

lemma drop_token_same:
  "sendError (drop_token s) = sendError s" "lacks_credit n (drop_token s) = lacks_credit n s"
  by (simp_all add: drop_token_def sendError_def lacks_credit_def split: option.split)

lemma takeCredit_total:
  assumes "ctl_ok s"
  shows "takeCredit n s = Some (case takeCredit_pass n s of
     (Return r, s') \<Rightarrow> (Return r, s') | (Blocked, s') \<Rightarrow> (Blocked, drop_token s))"
proof (cases "fst (takeCredit_pass n s) = Blocked")
  case False
  then obtain r s' where p: "takeCredit_pass n s = (Return r, s')"
    using takeCredit_pass_Return by (metis prod.collapse)
  then show ?thesis by (subst takeCredit.simps) simp
next
  case True
  then obtain s' where p0: "takeCredit_pass n s = (Blocked, s')" by (metis prod.collapse)
  then have b: "s' = s" "sendError s = None" "lacks_credit n s" by (simp_all add: takeCredit_pass_Blocked)
  then have p: "takeCredit_pass n s = (Blocked, s)" using p0 by simp
  have open_: "\<not> sendDone s" "s_ctx s = None"
    using b(2) assms by (auto simp: sendError_def ctl_ok_def split: option.splits if_splits)
  obtain f where f: "flow s = Some f" using b(3) by (auto simp: lacks_credit_def split: option.splits)
  have q: "takeCredit_pass n (drop_token s) = (Blocked, drop_token s)"
    unfolding takeCredit_pass_Blocked using b(2,3) by (simp add: drop_token_same)
  have stop: "takeCredit_select (drop_token s) = None"
    using f open_ by (simp add: takeCredit_select_def drop_token_def)
  have last: "takeCredit n (drop_token s) = Some (Blocked, drop_token s)"
    by (subst takeCredit.simps) (simp add: q stop)
  show ?thesis
  proof (cases "fl_changed f")
    case True
    then have "takeCredit_select s = Some (drop_token s)" using f by (simp add: takeCredit_select_def drop_token_def)
    then show ?thesis by (subst takeCredit.simps) (simp add: p last)
  next
    case False
    then have "takeCredit_select s = None" "drop_token s = s"
      using f open_ by (simp_all add: takeCredit_select_def drop_token_def)
    then show ?thesis by (subst takeCredit.simps) (simp add: p)
  qed
qed

text \<open>C4. Send always terminates or waits for credit, on every stream whose invariant holds: it
  returns an error before writing anything if this side sends no items, the stream has ended,
  the item cannot be encoded or it exceeds the receiver's whole window; it waits exactly when
  the granted credit does not cover the item; otherwise it spends one item and the payload's
  bytes (on a stream with flow control) and writes the one item frame, and when the write
  fails the stream is aborted with that error.\<close>

theorem Send_total:
  assumes "ctl_ok s"
  shows "\<exists>r s' es. Send wr item s = Some (r, s', es) \<and>
    (if \<not> sendsItems s \<or> sendError s \<noteq> None \<or> (\<exists>e. MarshalValue (s_codec s) item = Inl e)
     then (\<exists>e. r = Return (Some e)) \<and> s' = s \<and> es = []
     else \<exists>p. MarshalValue (s_codec s) item = Inr p \<and>
       (let n = word_of_nat (length p); f = streamFrame FrameStreamItem s p in
        if lacks_credit n s then r = Blocked \<and> s' = drop_token s \<and> es = []
        else case flow s of
            None \<Rightarrow> (if wr f = None then r = Return None \<and> s' = s \<and> es = [Write f]
                     else r = Return (wr f) \<and> (s', tl es) = abort (the (wr f)) s \<and> hd es = Write f)
          | Some w \<Rightarrow>
              if fl_initialized w \<and> n > fl_maxBytes w
              then (\<exists>e. r = Return (Some e) \<and> errors_Is e ErrFrameTooLarge) \<and> s' = s \<and> es = []
              else (let t = s\<lparr>flow := Some (w\<lparr>fl_items := fl_items w - 1, fl_bytes := fl_bytes w - n\<rparr>)\<rparr> in
                    if wr f = None then r = Return None \<and> s' = t \<and> es = [Write f]
                    else r = Return (wr f) \<and> (s', tl es) = abort (the (wr f)) t \<and> hd es = Write f)))"
proof -
  consider (refuse) "\<not> sendsItems s \<or> sendError s \<noteq> None \<or> (\<exists>e. MarshalValue (s_codec s) item = Inl e)"
    | (go) p where "sendsItems s" "sendError s = None" "MarshalValue (s_codec s) item = Inr p"
    by (cases "MarshalValue (s_codec s) item") auto
  then show ?thesis
  proof cases
    case refuse
    then show ?thesis by (auto simp: Send_def split: option.splits sum.splits)
  next
    case (go p)
    let ?n = "word_of_nat (length p) :: u64"
    show ?thesis
    proof (cases "lacks_credit ?n s")
      case True
      with go have "takeCredit_pass ?n s = (Blocked, s)" by (simp add: takeCredit_pass_Blocked)
      then have "takeCredit ?n s = Some (Blocked, drop_token s)" using takeCredit_total [OF assms] by simp
      with go True show ?thesis by (simp add: Send_def)
    next
      case False
      show ?thesis
      proof (cases "flow s")
        case None
        then have "takeCredit ?n s = Some (Return None, s)"
          using go takeCredit_total [OF assms] by (simp add: takeCredit_pass_def)
        with go None False show ?thesis
          by (cases "wr (streamFrame FrameStreamItem s p)")
             (simp_all add: Send_def split: prod.splits)
      next
        case (Some w)
        show ?thesis
        proof (cases "fl_initialized w \<and> ?n > fl_maxBytes w")
          case big: True
          then obtain e where "takeCredit_pass ?n s = (Return (Some e), s)" "errors_Is e ErrFrameTooLarge"
            using Some go by (simp add: takeCredit_pass_def)
          with go Some False big takeCredit_total [OF assms] show ?thesis by (simp add: Send_def)
        next
          case fits: False
          let ?t = "s\<lparr>flow := Some (w\<lparr>fl_items := fl_items w - 1, fl_bytes := fl_bytes w - ?n\<rparr>)\<rparr>"
          have "takeCredit_pass ?n s = (Return None, ?t)"
            using Some go False fits by (auto simp: takeCredit_pass_def lacks_credit_def)
          then have "takeCredit ?n s = Some (Return None, ?t)" using takeCredit_total [OF assms] by simp
          moreover have "streamFrame FrameStreamItem ?t p = streamFrame FrameStreamItem s p"
            by (simp add: streamFrame_def)
          ultimately show ?thesis using go Some False fits
            by (cases "wr (streamFrame FrameStreamItem s p)")
               (simp_all add: Send_def split: prod.splits)
        qed
      qed
    qed
  qed
qed

subsection \<open>Receiving\<close>

fun recv_n :: "nat \<Rightarrow> writer \<Rightarrow> 'v Stream \<Rightarrow> 'v res list \<times> 'v Stream \<times> effect list" where
  "recv_n 0 wr s = ([], s, [])"
| "recv_n (Suc n) wr s =
     (case Recv wr TargetPointer s of
        (Blocked, s, es) \<Rightarrow> ([], s, es)
      | (Return r, s, es) \<Rightarrow>
          (case recv_n n wr s of (rs, s, es') \<Rightarrow> (r # rs, s, es @ es')))"

definition decoded :: "'v Codec \<Rightarrow> bytes \<Rightarrow> 'v res" where
  "decoded codec p = (case UnmarshalValue codec p of
     Inl e \<Rightarrow> Inl (Errorf_prefix ''decode stream item'' e) | Inr v \<Rightarrow> Inr v)"

lemma Recv_closed_empty:
  assumes "receivesItems s" "recvDone s" "recvErr s = Some e" "recvCh s = []"
  shows "Recv wr TargetPointer s = (Return (Inl e), s, [])"
  using assms by (simp add: Recv_def validateResponseTarget_def)

lemma Recv_closed_item:
  assumes "receivesItems s" "recvClosed s" "recvCh s = p # q"
  shows "Recv wr TargetPointer s = (Return (decoded (s_codec s) p),
     s\<lparr>recvCh := q, bufferedBytes := bufferedBytes s - word_of_nat (length p)\<rparr>, [])"
  using assms by (simp add: Recv_def validateResponseTarget_def receivePayload_def returnCredit_def
      returnCredit_take_def decoded_def Let_def split: option.splits sum.splits)

lemma recv_n_closed_empty:
  assumes "receivesItems s" "recvDone s" "recvErr s = Some e" "recvCh s = []"
  shows "recv_n k wr s = (replicate k (Inl e), s, [])"
  by (induction k) (simp_all add: Recv_closed_empty [OF assms])

lemma recv_n_drains:
  assumes "receivesItems s" "recvClosed s" "recvDone s" "recvErr s = Some e"
  shows "fst (recv_n (length (recvCh s) + k) wr s) = map (decoded (s_codec s)) (recvCh s) @ replicate k (Inl e) \<and>
         snd (snd (recv_n (length (recvCh s) + k) wr s)) = []"
  using assms
proof (induction "recvCh s" arbitrary: s)
  case Nil
  then show ?case using recv_n_closed_empty [of s e k wr] by simp
next
  case (Cons p q)
  let ?t = "s\<lparr>recvCh := q, bufferedBytes := bufferedBytes s - word_of_nat (length p)\<rparr>"
  have "fst (recv_n (length q + k) wr ?t) = map (decoded (s_codec s)) q @ replicate k (Inl e) \<and>
        snd (snd (recv_n (length q + k) wr ?t)) = []"
    using Cons.hyps(1) [of ?t] Cons.prems by simp
  with Cons.prems Recv_closed_item [OF Cons.prems(1,2) Cons.hyps(2) [symmetric], of wr]
  show ?case by (auto simp: Cons.hyps(2) [symmetric] split: prod.splits)
qed

text \<open>C6. Nothing that was queued is lost when a stream ends: on a stream whose invariant holds
  and whose receiving side has closed, with end of file after the peer's clean close or with
  the error that ended it, the following Recvs return the queued items one by one in order of
  arrival, then that terminal error for ever, and none of them writes a frame.\<close>

theorem Recv_drains_queue:
  assumes "ctl_ok s" "receivesItems s" "recvClosed s"
  shows "\<exists>e. recvErr s = Some e \<and>
    fst (recv_n (length (recvCh s) + k) wr s) = map (decoded (s_codec s)) (recvCh s) @ replicate k (Inl e) \<and>
    snd (snd (recv_n (length (recvCh s) + k) wr s)) = []"
proof -
  from assms obtain e where "recvErr s = Some e" "recvDone s" by (auto simp: ctl_ok_def)
  with recv_n_drains assms show ?thesis by blast
qed

text \<open>Other goroutines may fill the response channel and end the stream; they do not take a response from it.\<close>

definition leaves_response :: "('v ClientStreamHandle \<Rightarrow> 'v ClientStreamHandle) \<Rightarrow> bool" where
  "leaves_response f \<longleftrightarrow> (\<forall>h. ch_codec (f h) = ch_codec h \<and> (\<forall>x. ch_response h = Some x \<longrightarrow> ch_response (f h) = Some x))"

lemma leaves_responseD:
  "leaves_response f \<Longrightarrow> ch_codec (f h) = ch_codec h" "leaves_response f \<Longrightarrow> ch_response h = Some x \<Longrightarrow> ch_response (f h) = Some x"
  by (simp_all add: leaves_response_def)

lemma handle_takeResponse_eq:
  "handle_takeResponse h = (case ch_response h of None \<Rightarrow> None | Some x \<Rightarrow> Some (handle_decodeResponse h x, h\<lparr>ch_response := None\<rparr>))"
  by (simp add: handle_takeResponse_def split: option.splits)

lemma handle_decodeResponse_cong: "ch_codec g = ch_codec h \<Longrightarrow> handle_decodeResponse g = handle_decodeResponse h"
  by (rule ext) (simp add: handle_decodeResponse_def split: option.split)

lemma CloseAndRecv_result:
  assumes "CloseAndRecv others doneFirst wr (Some h) = (r, h', es)"
  shows "r = fst (CloseAndRecv_body others doneFirst wr h) \<and> (r \<noteq> Blocked \<longrightarrow> (\<exists>h1. h' = Some h1 \<and> s_done (ch_stream h1)))"
proof -
  obtain b g es1 where g: "CloseAndRecv_body others doneFirst wr h = (b, g, es1)" by (metis prod_cases3)
  have "s_done (fst (snd (finish e t)))" for e and t :: "'a Stream"
    by (simp add: stream_end_defs split: option.splits)
  moreover have "r = b"
    "b \<noteq> Blocked \<longrightarrow> h' = Some (g\<lparr>ch_stream := fst (snd (finish (Sentinel ErrClosed) (ch_stream g)))\<rparr>)"
    using assms g by (auto simp: CloseAndRecv_def split: outcome.splits prod.splits)
  ultimately show ?thesis using g by auto
qed

text \<open>C10. CloseAndRecv never misses the response and always ends the stream, whatever other goroutines do between its
  steps (they may deliver the response and end the stream at any time) and whichever case a select takes when several are
  ready. A response that is there at the start is returned. Otherwise the sending side is closed; if that fails, the
  response is returned if it has arrived by then and the error if not. If it succeeds, the response is returned if
  it arrives before the stream ends, or after that but before the last look at the channel; if the stream ends without a
  response its cause is returned, and the call waits exactly while there is neither. When it returns, the
  stream is done.\<close>

theorem CloseAndRecv_response:
  fixes h :: "'v ClientStreamHandle"
  defines "decode \<equiv> \<lambda>x. Return (handle_decodeResponse h x)"
  assumes run: "CloseAndRecv others doneFirst wr (Some h) = (r, h', es)" and others: "\<forall>i. leaves_response (others i)"
    and closed: "CloseSend wr (ch_stream (others 0 h)) = (err, s, es')"
    and h1: "h1 = others 1 ((others 0 h)\<lparr>ch_stream := s\<rparr>)" and h2: "h2 = others 2 h1" and h3: "h3 = others 3 h2"
  shows "(\<forall>x. ch_response h = Some x \<longrightarrow> r = decode x) \<and>
    (ch_response h = None \<longrightarrow>
      (\<forall>e. err = Some e \<longrightarrow> r = (case ch_response h1 of Some x \<Rightarrow> decode x | None \<Rightarrow> Return (Inl e))) \<and>
      (err = None \<longrightarrow>
        (\<forall>x. ch_response h2 = Some x \<longrightarrow> r = decode x) \<and>
        (ch_response h2 = None \<longrightarrow>
          r = (case s_ctx (ch_stream h2) of
                 None \<Rightarrow> Blocked
               | Some e \<Rightarrow> (case ch_response h3 of Some x \<Rightarrow> decode x | None \<Rightarrow> Return (Inl e)))))) \<and>
    (r \<noteq> Blocked \<longrightarrow> (\<exists>g. h' = Some g \<and> s_done (ch_stream g)))"
proof -
  note res = CloseAndRecv_result [OF run]
  have l: "leaves_response (others i)" for i using others by blast
  have c: "ch_codec h1 = ch_codec h" "ch_codec h2 = ch_codec h" "ch_codec h3 = ch_codec h"
    using leaves_responseD(1) [OF l] by (simp_all add: h1 h2 h3)
  note d = handle_decodeResponse_cong [OF c(1)] handle_decodeResponse_cong [OF c(2)] handle_decodeResponse_cong [OF c(3)]
  have stays: "ch_response h3 = Some x" if "ch_response h2 = Some x" for x using leaves_responseD(2) [OF l that] by (simp add: h3)
  have last: "fst (CloseAndRecv_last e g) = (case ch_response g of Some x \<Rightarrow> Return (handle_decodeResponse g x) | None \<Rightarrow> Return (Inl e))"
    for e and g :: "'v ClientStreamHandle"
    by (simp add: CloseAndRecv_last_def handle_takeResponse_eq split: option.splits)
  have body: "r = (case err of Some e \<Rightarrow> fst (CloseAndRecv_last e h1) | None \<Rightarrow> fst (CloseAndRecv_wait others doneFirst h1))"
    if "ch_response h = None"
    using res that closed h1
    by (simp add: CloseAndRecv_body_def handle_takeResponse_eq Let_def split: option.splits prod.splits)
  have wait: "fst (CloseAndRecv_wait others doneFirst h1) =
      (case ch_response h2 of
         Some x \<Rightarrow> decode x
       | None \<Rightarrow> (case s_ctx (ch_stream h2) of None \<Rightarrow> Blocked | Some e \<Rightarrow> fst (CloseAndRecv_last e h3)))"
    using stays d
    by (auto simp: CloseAndRecv_wait_def handle_takeResponse_eq h2 [symmetric] h3 [symmetric] last decode_def Let_def split: option.splits)
  have now: "r = decode x" if "ch_response h = Some x" for x
    using res that by (simp add: CloseAndRecv_body_def handle_takeResponse_eq decode_def)
  have failed: "r = (case ch_response h1 of Some x \<Rightarrow> decode x | None \<Rightarrow> Return (Inl e))" if "ch_response h = None" "err = Some e" for e
    using body that d by (simp add: last decode_def split: option.splits)
  from now failed body wait res d show ?thesis by (auto simp: last decode_def split: option.splits)
qed

subsection \<open>Witnesses\<close>

definition sampleStream :: "bytes Stream" where
  "sampleStream = configure StreamKindBidi True True
     (newStreamWithOptions msgpcode_spec sampleCodec None 5 ''sum'' (Some sampleCodec)
        \<lparr>RecvBuffer = 2, RecvBytes = 8\<rparr>)"

theorem stream_life_witness:
  "\<exists>m. mrun (new_machine sampleStream) [OnDone 5, Write (streamFrame FrameCancel sampleStream [])] m \<and>
       s_done (m_s m) \<and> dones [OnDone 5, Write (streamFrame FrameCancel sampleStream [])] = 1"
proof -
  let ?m = "new_machine sampleStream"
  let ?c = "Cancel (\<lambda>f. None) (m_s ?m)"
  have "snd (snd ?c) = [OnDone 5, Write (streamFrame FrameCancel sampleStream [])]" by code_simp
  then obtain r s' es where c: "?c = (r, s', es)"
    and es: "es = [OnDone 5, Write (streamFrame FrameCancel sampleStream [])]"
    by (metis prod.collapse)
  have "mrun ?m ([] @ es) (?m\<lparr>m_s := s'\<rparr>)" by (rule mrun_step [OF mrun_refl mstep.cancel [OF c]])
  then have r: "mrun ?m es (?m\<lparr>m_s := s'\<rparr>)" by simp
  from stream_life [OF r [unfolded sampleStream_def]] have
    "dones es = of_bool (s_done (m_s (?m\<lparr>m_s := s'\<rparr>)))" by (simp add: sampleStream_def)
  moreover have "dones es = 1" by (simp add: es trace_defs)
  ultimately show ?thesis using r es by (intro exI [of _ "?m\<lparr>m_s := s'\<rparr>"]) (cases "s_done s'"; simp)
qed

lemma sampleStream_ok: "ctl_ok sampleStream"
  using new_stream_fresh [of StreamKindBidi True True msgpcode_spec sampleCodec None 5 "''sum''"
      "Some sampleCodec" "\<lparr>RecvBuffer = 2, RecvBytes = 8\<rparr>"]
  by (simp add: sampleStream_def fresh_machine_def machine_ok_def new_machine_def)

theorem Send_total_witness:
  "ctl_ok sampleStream \<and> (\<exists>s' es. Send (\<lambda>f. None) [1, 2, 3] sampleStream = Some (Blocked, s', es) \<and> es = [])"
proof -
  have "sendsItems sampleStream" "sendError sampleStream = None" "MarshalValue (s_codec sampleStream) [1, 2, 3] = Inr [1, 2, 3]"
    "lacks_credit 3 sampleStream"
    by code_simp+
  with Send_total [OF sampleStream_ok, of "\<lambda>f. None" "[1, 2, 3]"] sampleStream_ok show ?thesis
    by (simp add: Let_def)
qed

theorem Recv_drains_queue_witness:
  "fst (recv_n 3 (\<lambda>f. None) (fst (deliverEnd (fst (deliverItem (zeroFrame\<lparr>Payload := [7]\<rparr>) sampleStream))))) =
     [Inr [7], Inl (Sentinel IoEOF), Inl (Sentinel IoEOF)]"
proof -
  let ?s = "fst (deliverEnd (fst (deliverItem (zeroFrame\<lparr>Payload := [7]\<rparr>) sampleStream)))"
  let ?d = "deliverItem (zeroFrame\<lparr>Payload := [7]\<rparr>) sampleStream"
  have "ctl_ok (fst ?d)"
    using deliverItem_step_ok [OF prod.collapse [symmetric, of ?d]] sampleStream_ok
    by (simp add: stream_step_ok_def)
  then have "ctl_ok ?s"
    using deliverEnd_step_ok [OF prod.collapse [symmetric, of "deliverEnd (fst ?d)"]]
    by (simp add: stream_step_ok_def)
  moreover have "receivesItems ?s" "recvClosed ?s" "recvErr ?s = Some (Sentinel IoEOF)" "recvCh ?s = [[7]]"
    "decoded (s_codec ?s) [7] = Inr [7]"
    by code_simp+
  ultimately show ?thesis using Recv_drains_queue [of ?s 2 "\<lambda>f. None"] by (simp add: numeral_2_eq_2 numeral_3_eq_3)
qed

definition sampleHandle :: "bytes ClientStreamHandle" where
  "sampleHandle = \<lparr>ch_stream = sampleStream,
     ch_response = Some \<lparr>cr_frame = zeroFrame\<lparr>Type := FrameResponse, Payload := [9]\<rparr>, cr_err = None\<rparr>,
     ch_codec = sampleCodec\<rparr>"

text \<open>The response arrives between the end of the stream and the last look at the channel.\<close>

theorem CloseAndRecv_response_witness:
  "fst (CloseAndRecv
      (\<lambda>i h. if i = 2 then h\<lparr>ch_stream := cancel_ctx (Sentinel ErrClosed) (ch_stream h)\<rparr>
             else if i = 3 then h\<lparr>ch_response := (case ch_response h of None \<Rightarrow> ch_response sampleHandle | Some x \<Rightarrow> Some x)\<rparr> else h)
      True (\<lambda>f. None) (Some (sampleHandle\<lparr>ch_response := None\<rparr>))) = Return (Inr [9])"
proof -
  let ?h = "sampleHandle\<lparr>ch_response := None\<rparr>"
  let ?o = "\<lambda>i :: nat. \<lambda>h :: bytes ClientStreamHandle. if i = 2 then h\<lparr>ch_stream := cancel_ctx (Sentinel ErrClosed) (ch_stream h)\<rparr>
             else if i = 3 then h\<lparr>ch_response := (case ch_response h of None \<Rightarrow> ch_response sampleHandle | Some x \<Rightarrow> Some x)\<rparr> else h"
  let ?c = "CloseSend (\<lambda>f. None) sampleStream"
  have o: "\<forall>i. leaves_response (?o i)" by (auto simp: leaves_response_def split: option.splits)
  have "fst ?c = None" by code_simp
  then obtain s es where c: "?c = (None, s, es)" by (cases ?c) simp
  then have c0: "CloseSend (\<lambda>f. None) (ch_stream (?o 0 ?h)) = (None, s, es)" by (simp add: sampleHandle_def)
  have "s_ctx (cancel_ctx (Sentinel ErrClosed) (fst (snd ?c))) = Some (Sentinel ErrClosed)" by code_simp
  with c have e: "s_ctx (cancel_ctx (Sentinel ErrClosed) s) = Some (Sentinel ErrClosed)" by simp
  obtain r h' es' where run: "CloseAndRecv ?o True (\<lambda>f. None) (Some ?h) = (r, h', es')" using prod_cases3 .
  have d: "handle_decodeResponse ?h \<lparr>cr_frame = zeroFrame\<lparr>Type := FrameResponse, Payload := [9]\<rparr>, cr_err = None\<rparr> = Inr [9]"
    by (simp add: handle_decodeResponse_def decodeResponse_def sampleHandle_def sampleCodec_def)
  from CloseAndRecv_response [OF run o c0 refl refl refl] e d have "r = Return (Inr [9])"
    by (simp add: sampleHandle_def)
  with run show ?thesis by simp
qed

end
