(* ===== verification/Flow_Protocol.thy ===== *)
theory Flow_Protocol
  imports Stream_Machine "HOL-Library.Multiset"
begin

text \<open>
  The credit protocol between the two ends of a stream (\<^verbatim>\<open>stream_flow.go\<close>, and what \<^verbatim>\<open>Send\<close> and \<^verbatim>\<open>Recv\<close> of
  \<^verbatim>\<open>stream.go\<close> do between two locks). A \<open>pipe\<close> holds the sending and the receiving stream, the frames on the
  way in each direction and the goroutines that are between two steps. It is shown to implement a bounded
  first-in first-out queue: \<open>queue_step\<close> is the specification, \<open>in_transit\<close> the abstraction.
\<close>

subsection \<open>Refinement\<close>

text \<open>A step relation with an invariant, an abstraction, and an abstract step relation that allows every
  concrete step that is visible.\<close>

locale refinement =
  fixes step :: "'c \<Rightarrow> 'c \<Rightarrow> bool" and inv :: "'c \<Rightarrow> bool" and spec :: "'a \<Rightarrow> 'a \<Rightarrow> bool" and abs :: "'c \<Rightarrow> 'a"
  assumes preserved: "step s s' \<Longrightarrow> inv s \<Longrightarrow> inv s'"
    and simulated: "step s s' \<Longrightarrow> inv s \<Longrightarrow> abs s' = abs s \<or> spec (abs s) (abs s')"
begin

lemma run_ok: "step\<^sup>*\<^sup>* s s' \<Longrightarrow> inv s \<Longrightarrow> inv s'"
  by (induction rule: rtranclp_induct) (auto intro: preserved)

lemma run_refines: "step\<^sup>*\<^sup>* s s' \<Longrightarrow> inv s \<Longrightarrow> spec\<^sup>*\<^sup>* (abs s) (abs s')"
proof (induction rule: rtranclp_induct)
  case (step t t')
  from simulated [OF step.hyps(2) run_ok [OF step.hyps(1) step.prems]] step.IH [OF step.prems] show ?case
    by (metis rtranclp.rtrancl_into_rtrancl)
qed simp

end

text \<open>The specification: a queue of at most \<open>n\<close> items with at most \<open>b\<close> bytes together.\<close>

abbreviation load :: "bytes list \<Rightarrow> nat" where
  "load xs \<equiv> sum_list (map length xs)"

inductive queue_step :: "nat \<Rightarrow> nat \<Rightarrow> bytes list \<Rightarrow> bytes list \<Rightarrow> bool" for n b where
  queue_put: "length q < n \<Longrightarrow> load q + length x \<le> b \<Longrightarrow> queue_step n b q (q @ [x])"
| queue_get: "queue_step n b (x # q) q"

lemma queue_bounded: "(queue_step n b)\<^sup>*\<^sup>* [] q \<Longrightarrow> length q \<le> n \<and> load q \<le> b"
  by (induction rule: rtranclp_induct) (auto elim!: queue_step.cases)

subsection \<open>Two ends and what is between them\<close>

text \<open>\<open>pp_waiting\<close> is the item of the \<^verbatim>\<open>Send\<close> that holds \<^verbatim>\<open>sendMu\<close> and is in \<^verbatim>\<open>takeCredit\<close>: before a pass of its loop, or
  (\<open>True\<close>) parked in the select after a pass that found too little credit. \<open>pp_sending\<close> is the item once
  the credit is taken; \<open>pp_down\<close> the items
  written and not yet delivered; \<open>pp_popped\<close> and \<open>pp_freed\<close> the items of the \<^verbatim>\<open>Recv\<close> calls that have taken one
  from the queue, before and after the locked subtraction in \<^verbatim>\<open>receivePayload\<close>; \<open>pp_up\<close> the window
  frames that have been made and not yet reached the sender, in whatever order they do. \<open>pp_written\<close> and
  \<open>pp_received\<close> record the items in the order of their writes and of their removal from the queue.\<close>

record 'v pipe =
  pp_sender :: "'v Stream"
  pp_receiver :: "'v Stream"
  pp_waiting :: "(bytes \<times> bool) option"
  pp_sending :: "bytes option"
  pp_down :: "bytes list"
  pp_popped :: "bytes multiset"
  pp_freed :: "bytes multiset"
  pp_up :: "Frame multiset"
  pp_written :: "bytes list"
  pp_received :: "bytes list"

definition new_pipe :: "'v Stream \<Rightarrow> 'v Stream \<Rightarrow> 'v pipe" where
  "new_pipe s r =
     \<lparr>pp_sender = s, pp_receiver = r, pp_waiting = None, pp_sending = None, pp_down = [], pp_popped = {#}, pp_freed = {#},
      pp_up = {#receiveWindow r (zeroFrame\<lparr>Type := FrameStreamWindow, RequestID := s_requestID r\<rparr>)#},
      pp_written = [], pp_received = []\<rparr>"

text \<open>The steps while neither side ends the stream and the transport works: the locked sections and the select, in any
  order. All of them but the start of a \<^verbatim>\<open>Send\<close> are moves of goroutines that are under way.\<close>

inductive pipe_move :: "'v pipe \<Rightarrow> 'v pipe \<Rightarrow> bool" where
  send_take: "pp_waiting pp = Some (x, False) \<Longrightarrow>
    takeCredit_pass (word_of_nat (length x)) (pp_sender pp) = (Return None, s) \<Longrightarrow>
    pipe_move pp (pp\<lparr>pp_sender := s, pp_sending := Some x, pp_waiting := None\<rparr>)"
| send_park: "pp_waiting pp = Some (x, False) \<Longrightarrow>
    takeCredit_pass (word_of_nat (length x)) (pp_sender pp) = (Blocked, s) \<Longrightarrow>
    pipe_move pp (pp\<lparr>pp_sender := s, pp_waiting := Some (x, True)\<rparr>)"
| send_refuse: "pp_waiting pp = Some (x, False) \<Longrightarrow>
    takeCredit_pass (word_of_nat (length x)) (pp_sender pp) = (Return (Some err), s) \<Longrightarrow>
    pipe_move pp (pp\<lparr>pp_sender := s, pp_waiting := None\<rparr>)"
| send_wake: "pp_waiting pp = Some (x, True) \<Longrightarrow> takeCredit_select (pp_sender pp) = Some s \<Longrightarrow>
    pipe_move pp (pp\<lparr>pp_sender := s, pp_waiting := Some (x, False)\<rparr>)"
| send_write: "pp_sending pp = Some x \<Longrightarrow>
    pipe_move pp (pp\<lparr>pp_sending := None, pp_down := pp_down pp @ [x], pp_written := pp_written pp @ [x]\<rparr>)"
| recv_deliver: "pp_down pp = x # down \<Longrightarrow>
    deliverItem (streamFrame FrameStreamItem (pp_sender pp) x) (pp_receiver pp) = (r, es) \<Longrightarrow>
    pipe_move pp (pp\<lparr>pp_receiver := r, pp_down := down\<rparr>)"
| recv_pop: "recvCh (pp_receiver pp) = x # q \<Longrightarrow>
    pipe_move pp (pp\<lparr>pp_receiver := (pp_receiver pp)\<lparr>recvCh := q\<rparr>, pp_popped := add_mset x (pp_popped pp),
      pp_received := pp_received pp @ [x]\<rparr>)"
| recv_free: "pp_popped pp = add_mset x m \<Longrightarrow>
    pipe_move pp (pp\<lparr>pp_receiver := (pp_receiver pp)\<lparr>bufferedBytes := bufferedBytes (pp_receiver pp) - word_of_nat (length x)\<rparr>,
      pp_popped := m, pp_freed := add_mset x (pp_freed pp)\<rparr>)"
| recv_return: "pp_freed pp = add_mset x m \<Longrightarrow>
    returnCredit_take (word_of_nat (length x)) (pp_receiver pp) = (fo, r) \<Longrightarrow>
    pipe_move pp (pp\<lparr>pp_receiver := r, pp_freed := m,
      pp_up := (case fo of None \<Rightarrow> pp_up pp | Some f \<Rightarrow> add_mset f (pp_up pp))\<rparr>)"
| send_credit: "pp_up pp = add_mset f m \<Longrightarrow> acceptCredit f (pp_sender pp) = (err, s) \<Longrightarrow>
    pipe_move pp (pp\<lparr>pp_sender := s, pp_up := m\<rparr>)"

inductive pipe_step :: "'v pipe \<Rightarrow> 'v pipe \<Rightarrow> bool" where
  send_begin: "pp_waiting pp = None \<Longrightarrow> pp_sending pp = None \<Longrightarrow> length x < 2 ^ 64 \<Longrightarrow>
    pipe_step pp (pp\<lparr>pp_waiting := Some (x, False)\<rparr>)"
| send_move: "pipe_move pp pp' \<Longrightarrow> pipe_step pp pp'"

abbreviation pipe_run :: "'v pipe \<Rightarrow> 'v pipe \<Rightarrow> bool" where
  "pipe_run \<equiv> pipe_step\<^sup>*\<^sup>*"

definition in_transit :: "'v pipe \<Rightarrow> bytes list" where
  "in_transit pp = recvCh (pp_receiver pp) @ pp_down pp"

subsection \<open>The account\<close>

abbreviation mload :: "bytes multiset \<Rightarrow> nat" where
  "mload m \<equiv> \<Sum>\<^sub># (image_mset length m)"

definition granted_items :: "Frame multiset \<Rightarrow> nat" where
  "granted_items m = \<Sum>\<^sub># (image_mset (\<lambda>f. unat (WindowItems f)) m)"

definition granted_bytes :: "Frame multiset \<Rightarrow> nat" where
  "granted_bytes m = \<Sum>\<^sub># (image_mset (\<lambda>f. unat (WindowBytes f)) m)"

lemma granted_simps [simp]:
  "granted_items {#} = 0" "granted_items (add_mset f m) = unat (WindowItems f) + granted_items m"
  "granted_bytes {#} = 0" "granted_bytes (add_mset f m) = unat (WindowBytes f) + granted_bytes m"
  by (simp_all add: granted_items_def granted_bytes_def)

text \<open>The two flows and what is between them, as the invariant sees them.\<close>

definition sender_ok :: "'v Stream \<Rightarrow> bool" where
  "sender_ok s \<longleftrightarrow> sendsItems s \<and> \<not> s_done s \<and> \<not> sendClosed s \<and> \<not> sendDone s \<and> s_ctx s = None \<and> flow s \<noteq> None"

definition receiver_ok :: "'v Stream \<Rightarrow> bool" where
  "receiver_ok r \<longleftrightarrow> receivesItems r \<and> \<not> s_done r \<and> \<not> recvClosed r \<and> flow r \<noteq> None \<and> 0 < recvCap r \<and>
     recvCap r < 2 ^ 64 \<and> recvByteLimit r \<noteq> 0"

definition on_the_way :: "'v pipe \<Rightarrow> bytes list" where
  "on_the_way pp = in_transit pp @ (case pp_sending pp of None \<Rightarrow> [] | Some x \<Rightarrow> [x])"

definition unstarted :: "'v pipe \<Rightarrow> bool" where
  "unstarted pp \<longleftrightarrow>
     (let f = the (flow (pp_sender pp)); g = the (flow (pp_receiver pp)) in
      \<not> fl_initialized f \<and> fl_items f = 0 \<and> fl_bytes f = 0 \<and> on_the_way pp = [] \<and> pp_popped pp = {#} \<and> pp_freed pp = {#} \<and>
      bufferedBytes (pp_receiver pp) = 0 \<and> fl_returnItems g = 0 \<and> fl_returnBytes g = 0 \<and>
      (\<exists>w. pp_up pp = {#w#} \<and> WindowItems w = word_of_nat (recvCap (pp_receiver pp)) \<and>
         WindowBytes w = recvByteLimit (pp_receiver pp)))"

definition accounted :: "'v pipe \<Rightarrow> bool" where
  "accounted pp \<longleftrightarrow>
     (let f = the (flow (pp_sender pp)); g = the (flow (pp_receiver pp)); r = pp_receiver pp in
      fl_initialized f \<and> unat (fl_maxItems f) = recvCap r \<and> fl_maxBytes f = recvByteLimit r \<and>
      unat (fl_items f) + length (on_the_way pp) + (size (pp_popped pp) + size (pp_freed pp)) + unat (fl_returnItems g) +
        granted_items (pp_up pp) = recvCap r \<and>
      unat (fl_bytes f) + load (on_the_way pp) + (mload (pp_popped pp) + mload (pp_freed pp)) + unat (fl_returnBytes g) +
        granted_bytes (pp_up pp) = unat (recvByteLimit r) \<and>
      unat (bufferedBytes r) = load (recvCh r) + mload (pp_popped pp) \<and>
      (\<forall>w \<in># pp_up pp. WindowItems w \<noteq> 0) \<and> (fl_returnItems g = 0 \<longrightarrow> fl_returnBytes g = 0) \<and>
      (fl_returnItems g \<noteq> 0 \<longrightarrow> recvCh r \<noteq> [] \<or> pp_popped pp \<noteq> {#} \<or> pp_freed pp \<noteq> {#}))"

definition pipe_ok :: "'v pipe \<Rightarrow> bool" where
  "pipe_ok pp \<longleftrightarrow> sender_ok (pp_sender pp) \<and> receiver_ok (pp_receiver pp) \<and> (unstarted pp \<or> accounted pp) \<and>
     pp_received pp @ in_transit pp = pp_written pp"

text \<open>No wake-up is lost: a parked \<^verbatim>\<open>Send\<close> has a token to wake it, or a pass of its loop would park it again.\<close>

definition waiting_ok :: "'v pipe \<Rightarrow> bool" where
  "waiting_ok pp \<longleftrightarrow>
     (case pp_waiting pp of
        None \<Rightarrow> True
      | Some (x, parked) \<Rightarrow>
          pp_sending pp = None \<and> length x < 2 ^ 64 \<and>
          (parked \<longrightarrow> fl_changed (the (flow (pp_sender pp))) \<or>
             takeCredit_pass (word_of_nat (length x)) (pp_sender pp) = (Blocked, pp_sender pp)))"

lemma pipe_ok_waiting [simp]: "pipe_ok (pp\<lparr>pp_waiting := w\<rparr>) = pipe_ok pp"
  by (simp add: pipe_ok_def unstarted_def accounted_def on_the_way_def in_transit_def)

lemma waiting_ok_cong:
  "pp_waiting pp' = pp_waiting pp \<Longrightarrow> pp_sending pp' = pp_sending pp \<Longrightarrow> pp_sender pp' = pp_sender pp \<Longrightarrow>
   waiting_ok pp' = waiting_ok pp"
  unfolding waiting_ok_def by (elim ssubst) (rule refl)

lemma takeCredit_pass_stays:
  "takeCredit_pass n s = (r, s') \<Longrightarrow> r \<noteq> Return None \<Longrightarrow> s' = s"
  by (auto simp: takeCredit_pass_def split: option.splits if_splits)

lemma takeCredit_pass_takes:
  assumes "takeCredit_pass n s = (Return None, s')" "sender_ok s"
  obtains f where "flow s = Some f" "fl_items f \<noteq> 0" "n \<le> fl_bytes f"
    "s' = s\<lparr>flow := Some (f\<lparr>fl_items := fl_items f - 1, fl_bytes := fl_bytes f - n\<rparr>)\<rparr>"
  using assms by (auto simp: takeCredit_pass_def sendError_def sender_ok_def word_gt_0 split: option.splits if_splits)

lemma takeCredit_select_token:
  assumes "takeCredit_select s = Some s'" "sender_ok s"
  obtains f where "flow s = Some f" "fl_changed f" "s' = s\<lparr>flow := Some (f\<lparr>fl_changed := False\<rparr>)\<rparr>"
  using assms by (cases "flow s") (auto simp: takeCredit_select_def sender_ok_def split: if_splits)

lemma send_take_ok:
  assumes "pipe_ok pp" "pp_sending pp = None" "length x < 2 ^ 64"
    "takeCredit_pass (word_of_nat (length x)) (pp_sender pp) = (Return None, s)"
  shows "pipe_ok (pp\<lparr>pp_sender := s, pp_sending := Some x\<rparr>)"
proof -
  from assms(1) have so: "sender_ok (pp_sender pp)" by (simp add: pipe_ok_def)
  from assms(4) so obtain f where f: "flow (pp_sender pp) = Some f" "fl_items f \<noteq> 0" "word_of_nat (length x) \<le> fl_bytes f"
    "s = (pp_sender pp)\<lparr>flow := Some (f\<lparr>fl_items := fl_items f - 1, fl_bytes := fl_bytes f - word_of_nat (length x)\<rparr>)\<rparr>"
    by (rule takeCredit_pass_takes)
  from assms(1) f(1,2) have acc: "accounted pp" by (auto simp: pipe_ok_def unstarted_def Let_def)
  have "unat (fl_items f - 1) = unat (fl_items f) - 1" "0 < unat (fl_items f)"
    using f(2) by (simp_all add: unat_minus_one unat_gt_0)
  moreover have "unat (fl_bytes f - word_of_nat (length x)) = unat (fl_bytes f) - length x" "length x \<le> unat (fl_bytes f)"
    using f(3) assms(3) unat_sub_u64 [OF f(3)] by (simp_all add: unat_length u64_le_iff)
  ultimately have "accounted (pp\<lparr>pp_sender := s, pp_sending := Some x\<rparr>)"
    using acc f(1,4) assms(2) by (simp add: accounted_def on_the_way_def in_transit_def Let_def)
  with assms(1) so f(4) show ?thesis by (simp add: pipe_ok_def sender_ok_def in_transit_def)
qed

lemma send_wake_ok:
  assumes "pipe_ok pp" "takeCredit_select (pp_sender pp) = Some s"
  shows "pipe_ok (pp\<lparr>pp_sender := s\<rparr>)"
proof -
  from assms(1) have so: "sender_ok (pp_sender pp)" by (simp add: pipe_ok_def)
  from assms(2) so obtain f where f: "flow (pp_sender pp) = Some f"
    and s: "s = (pp_sender pp)\<lparr>flow := Some (f\<lparr>fl_changed := False\<rparr>)\<rparr>"
    by (rule takeCredit_select_token)
  have "unstarted (pp\<lparr>pp_sender := s\<rparr>) = unstarted pp" "accounted (pp\<lparr>pp_sender := s\<rparr>) = accounted pp"
    using f by (simp_all add: s unstarted_def accounted_def on_the_way_def in_transit_def Let_def)
  with assms(1) show ?thesis by (simp add: s pipe_ok_def sender_ok_def in_transit_def)
qed

lemma send_write_ok:
  assumes "pipe_ok pp" "pp_sending pp = Some x"
  shows "pipe_ok (pp\<lparr>pp_sending := None, pp_down := pp_down pp @ [x], pp_written := pp_written pp @ [x]\<rparr>)"
proof -
  let ?pp = "pp\<lparr>pp_sending := None, pp_down := pp_down pp @ [x], pp_written := pp_written pp @ [x]\<rparr>"
  have "on_the_way ?pp = on_the_way pp" using assms(2) by (simp add: on_the_way_def in_transit_def)
  then have "unstarted ?pp = unstarted pp" "accounted ?pp = accounted pp" by (simp_all add: unstarted_def accounted_def)
  with assms(1) show ?thesis by (simp add: pipe_ok_def in_transit_def)
qed

text \<open>The receiver has room for every item that was sent within the credit.\<close>

lemma deliver_fits:
  assumes "pipe_ok pp" "pp_down pp = x # down" "Payload fr = x"
  shows "deliverItem fr (pp_receiver pp) =
    ((pp_receiver pp)\<lparr>recvCh := recvCh (pp_receiver pp) @ [x],
        bufferedBytes := bufferedBytes (pp_receiver pp) + word_of_nat (length x)\<rparr>, [])"
    and "unat (bufferedBytes (pp_receiver pp) + word_of_nat (length x)) = unat (bufferedBytes (pp_receiver pp)) + length x"
proof -
  let ?r = "pp_receiver pp"
  have acc: "accounted pp" using assms(1,2) by (auto simp: pipe_ok_def unstarted_def on_the_way_def in_transit_def Let_def)
  have fits: "unat (bufferedBytes ?r) + length x \<le> unat (recvByteLimit ?r)" "length (recvCh ?r) < recvCap ?r"
    using acc assms(2) by (auto simp: accounted_def on_the_way_def in_transit_def Let_def split: option.splits)
  have lx: "unat (word_of_nat (length x) :: u64) = length x"
    using fits(1) unsigned_less [of "recvByteLimit ?r", where 'a = nat] by (intro unat_length) simp
  have "bufferedBytes ?r \<le> recvByteLimit ?r" using fits(1) by (simp add: u64_le_iff)
  from unat_sub_u64 [OF this] fits(1) lx have room: "(word_of_nat (length x) :: u64) \<le> recvByteLimit ?r - bufferedBytes ?r"
    by (simp add: u64_le_iff)
  with fits(2) assms(1,3) show "deliverItem fr ?r = (?r\<lparr>recvCh := recvCh ?r @ [x], bufferedBytes := bufferedBytes ?r + word_of_nat (length x)\<rparr>, [])"
    by (simp add: deliverItem_def pipe_ok_def receiver_ok_def)
  show "unat (bufferedBytes ?r + word_of_nat (length x)) = unat (bufferedBytes ?r) + length x"
    using unat_add_u64 [of "bufferedBytes ?r" "word_of_nat (length x)"] lx fits(1)
      unsigned_less [of "recvByteLimit ?r", where 'a = nat] by simp
qed

lemma recv_deliver_ok:
  assumes "pipe_ok pp" "pp_down pp = x # down"
    "deliverItem (streamFrame FrameStreamItem (pp_sender pp) x) (pp_receiver pp) = (r, es)"
  shows "pipe_ok (pp\<lparr>pp_receiver := r, pp_down := down\<rparr>)"
proof -
  have p: "Payload (streamFrame FrameStreamItem (pp_sender pp) x) = x" by (simp add: streamFrame_def)
  have acc: "accounted pp" using assms(1,2) by (auto simp: pipe_ok_def unstarted_def on_the_way_def in_transit_def Let_def)
  note d = deliver_fits [OF assms(1,2) p]
  from d(1) assms(3) have r: "r = (pp_receiver pp)\<lparr>recvCh := recvCh (pp_receiver pp) @ [x],
      bufferedBytes := bufferedBytes (pp_receiver pp) + word_of_nat (length x)\<rparr>" by simp
  have "accounted (pp\<lparr>pp_receiver := r, pp_down := down\<rparr>)"
    using acc d(2) assms(2) by (simp add: r accounted_def on_the_way_def in_transit_def Let_def)
  with assms(1,2) show ?thesis by (simp add: r pipe_ok_def receiver_ok_def in_transit_def)
qed

lemma recv_pop_ok:
  assumes "pipe_ok pp" "recvCh (pp_receiver pp) = x # q"
  shows "pipe_ok (pp\<lparr>pp_receiver := (pp_receiver pp)\<lparr>recvCh := q\<rparr>, pp_popped := add_mset x (pp_popped pp),
    pp_received := pp_received pp @ [x]\<rparr>)"
proof -
  let ?pp = "pp\<lparr>pp_receiver := (pp_receiver pp)\<lparr>recvCh := q\<rparr>, pp_popped := add_mset x (pp_popped pp),
    pp_received := pp_received pp @ [x]\<rparr>"
  have acc: "accounted pp" using assms by (auto simp: pipe_ok_def unstarted_def on_the_way_def in_transit_def)
  then have "accounted ?pp" using assms(2) by (simp add: accounted_def on_the_way_def in_transit_def Let_def)
  with assms show ?thesis by (simp add: pipe_ok_def receiver_ok_def in_transit_def)
qed

lemma recv_free_ok:
  assumes "pipe_ok pp" "pp_popped pp = add_mset x m"
  shows "pipe_ok (pp\<lparr>pp_receiver := (pp_receiver pp)\<lparr>bufferedBytes := bufferedBytes (pp_receiver pp) - word_of_nat (length x)\<rparr>,
    pp_popped := m, pp_freed := add_mset x (pp_freed pp)\<rparr>)"
proof -
  have acc: "accounted pp" using assms by (auto simp: pipe_ok_def unstarted_def Let_def)
  then have "unat (bufferedBytes (pp_receiver pp)) = length x + (load (recvCh (pp_receiver pp)) + mload m)"
    using assms(2) by (simp add: accounted_def Let_def)
  from unat_sub_length(1) [OF this] have "unat (bufferedBytes (pp_receiver pp) - word_of_nat (length x)) =
      load (recvCh (pp_receiver pp)) + mload m" .
  with acc assms(2) have "accounted (pp\<lparr>pp_receiver := (pp_receiver pp)\<lparr>bufferedBytes := bufferedBytes (pp_receiver pp) -
      word_of_nat (length x)\<rparr>, pp_popped := m, pp_freed := add_mset x (pp_freed pp)\<rparr>)"
    by (simp add: accounted_def on_the_way_def in_transit_def Let_def)
  with assms(1) show ?thesis by (simp add: pipe_ok_def receiver_ok_def in_transit_def)
qed

lemma unat_Suc_u64: "unat (a :: u64) + 1 < 2 ^ 64 \<Longrightarrow> unat (a + 1) = unat a + 1"
  using unat_add_u64 [of a 1] by simp

text \<open>Returning credit: the items and bytes counted so far, kept or sent as a whole.\<close>

lemma returnCredit_take_cases:
  assumes "returnCredit_take n r = (fo, r')" "receiver_ok r" "flow r = Some g"
  obtains (kept) "fo = None" "recvCh r \<noteq> []"
      "r' = r\<lparr>flow := Some (g\<lparr>fl_returnItems := fl_returnItems g + 1, fl_returnBytes := fl_returnBytes g + n\<rparr>)\<rparr>"
    | (sent) w where "fo = Some w" "WindowItems w = fl_returnItems g + 1" "WindowBytes w = fl_returnBytes g + n"
      "r' = r\<lparr>flow := Some (g\<lparr>fl_returnItems := 0, fl_returnBytes := 0\<rparr>)\<rparr>"
  using assms by (auto simp: returnCredit_take_def receiver_ok_def Let_def split: if_splits)

lemma recv_return_ok:
  assumes "pipe_ok pp" "pp_freed pp = add_mset x m"
    "returnCredit_take (word_of_nat (length x)) (pp_receiver pp) = (fo, r)"
  shows "pipe_ok (pp\<lparr>pp_receiver := r, pp_freed := m,
    pp_up := (case fo of None \<Rightarrow> pp_up pp | Some f \<Rightarrow> add_mset f (pp_up pp))\<rparr>)"
proof -
  let ?r = "pp_receiver pp"
  from assms(1) have ro: "receiver_ok ?r" by (simp add: pipe_ok_def)
  then obtain g where g: "flow ?r = Some g" by (auto simp: receiver_ok_def)
  have acc: "accounted pp" using assms(1,2) by (auto simp: pipe_ok_def unstarted_def Let_def)
  from acc g assms(2) have le: "unat (fl_returnItems g) + 1 \<le> recvCap ?r" "unat (fl_returnBytes g) + length x \<le> unat (recvByteLimit ?r)"
    by (auto simp: accounted_def Let_def)
  have lim: "unat (recvByteLimit ?r) < 2 ^ 64" using unsigned_less [of "recvByteLimit ?r", where 'a = nat] by simp
  have lx: "unat (word_of_nat (length x) :: u64) = length x" using le(2) lim by (intro unat_length) simp
  have i: "unat (fl_returnItems g + 1) = unat (fl_returnItems g) + 1"
    using le(1) ro by (intro unat_Suc_u64) (simp add: receiver_ok_def)
  have b: "unat (fl_returnBytes g + word_of_nat (length x)) = unat (fl_returnBytes g) + length x"
    using unat_add_u64 [of "fl_returnBytes g" "word_of_nat (length x)"] le(2) lim lx by simp
  have ne: "fl_returnItems g + 1 \<noteq> 0" using i by (metis add_is_0 unsigned_0 zero_neq_one)
  from assms(3) ro g show ?thesis
  proof (cases rule: returnCredit_take_cases)
    case kept
    have "accounted (pp\<lparr>pp_receiver := r, pp_freed := m\<rparr>)"
      using acc i b ne assms(2) g kept(2) by (simp add: kept(3) accounted_def on_the_way_def in_transit_def Let_def)
    with assms(1) kept show ?thesis by (simp add: pipe_ok_def receiver_ok_def in_transit_def)
  next
    case (sent w)
    have "accounted (pp\<lparr>pp_receiver := r, pp_freed := m, pp_up := add_mset w (pp_up pp)\<rparr>)"
      using acc i b ne assms(2) g sent(2,3) by (simp add: sent(4) accounted_def on_the_way_def in_transit_def Let_def)
    with assms(1) sent show ?thesis by (simp add: pipe_ok_def receiver_ok_def in_transit_def)
  qed
qed

text \<open>The sender accepts every window frame of the receiver.\<close>

lemma credit_accepted:
  assumes "pipe_ok pp" "pp_up pp = add_mset w m"
  obtains f f' where "flow (pp_sender pp) = Some f"
    "acceptCredit w (pp_sender pp) = (None, (pp_sender pp)\<lparr>flow := Some f'\<rparr>)"
    "fl_initialized f'" "fl_maxBytes f' = recvByteLimit (pp_receiver pp)" "unat (fl_maxItems f') = recvCap (pp_receiver pp)"
    "unat (fl_items f') = unat (fl_items f) + unat (WindowItems w)" "unat (fl_bytes f') = unat (fl_bytes f) + unat (WindowBytes w)"
    "fl_changed f'"
proof -
  let ?r = "pp_receiver pp"
  from assms(1) have so: "sender_ok (pp_sender pp)" and ro: "receiver_ok ?r" by (simp_all add: pipe_ok_def)
  then obtain f where f: "flow (pp_sender pp) = Some f" by (auto simp: sender_ok_def)
  have lim: "unat (recvByteLimit ?r) < 2 ^ 64" using unsigned_less [of "recvByteLimit ?r", where 'a = nat] by simp
  have cap: "unat (word_of_nat (recvCap ?r) :: u64) = recvCap ?r" using ro by (intro unat_of_nat_u64) (simp add: receiver_ok_def)
  have ne: "(word_of_nat (recvCap ?r) :: u64) \<noteq> 0" "recvByteLimit ?r \<noteq> 0"
    using cap ro by (auto simp: receiver_ok_def)
  show thesis
  proof (cases "unstarted pp")
    case True
    with assms(2) f have w: "WindowItems w = word_of_nat (recvCap ?r)" "WindowBytes w = recvByteLimit ?r" "\<not> fl_initialized f"
      "fl_items f = 0" "fl_bytes f = 0" by (auto simp: unstarted_def Let_def)
    then show thesis
      using that [OF f, of "f\<lparr>fl_initialized := True, fl_maxItems := WindowItems w, fl_maxBytes := WindowBytes w,
          fl_items := fl_items f + WindowItems w, fl_bytes := fl_bytes f + WindowBytes w, fl_changed := True\<rparr>"]
        so f ne cap by (simp add: acceptCredit_def sender_ok_def)
  next
    case False
    with assms(1) have acc: "accounted pp" by (simp add: pipe_ok_def)
    with f assms(2) have a: "fl_initialized f" "unat (fl_maxItems f) = recvCap ?r" "fl_maxBytes f = recvByteLimit ?r" "WindowItems w \<noteq> 0"
      "unat (fl_items f) + unat (WindowItems w) \<le> unat (fl_maxItems f)" "unat (fl_bytes f) + unat (WindowBytes w) \<le> unat (fl_maxBytes f)"
      by (auto simp: accounted_def Let_def)
    have "unat (fl_maxItems f - fl_items f) = unat (fl_maxItems f) - unat (fl_items f)"
      "unat (fl_maxBytes f - fl_bytes f) = unat (fl_maxBytes f) - unat (fl_bytes f)"
      using a(5,6) by (auto intro!: unat_sub_u64 simp: u64_le_iff)
    with a have "\<not> WindowItems w > fl_maxItems f - fl_items f" "\<not> WindowBytes w > fl_maxBytes f - fl_bytes f"
      by (simp_all add: u64_less_iff)
    moreover have "unat (fl_items f + WindowItems w) = unat (fl_items f) + unat (WindowItems w)"
      "unat (fl_bytes f + WindowBytes w) = unat (fl_bytes f) + unat (WindowBytes w)"
      using a ro lim by (auto intro!: unat_add_u64 simp: receiver_ok_def)
    ultimately show thesis
      using that [OF f, of "f\<lparr>fl_items := fl_items f + WindowItems w, fl_bytes := fl_bytes f + WindowBytes w, fl_changed := True\<rparr>"]
        so f a by (simp add: acceptCredit_def sender_ok_def)
  qed
qed

lemma send_credit_ok:
  assumes "pipe_ok pp" "pp_up pp = add_mset w m" "acceptCredit w (pp_sender pp) = (err, s)"
  shows "pipe_ok (pp\<lparr>pp_sender := s, pp_up := m\<rparr>)"
proof -
  from assms(1,2) obtain f f' where f: "flow (pp_sender pp) = Some f"
    "acceptCredit w (pp_sender pp) = (None, (pp_sender pp)\<lparr>flow := Some f'\<rparr>)"
    "fl_initialized f'" "fl_maxBytes f' = recvByteLimit (pp_receiver pp)" "unat (fl_maxItems f') = recvCap (pp_receiver pp)"
    "unat (fl_items f') = unat (fl_items f) + unat (WindowItems w)" "unat (fl_bytes f') = unat (fl_bytes f) + unat (WindowBytes w)"
    by (rule credit_accepted)
  from f(2) assms(3) have s: "s = (pp_sender pp)\<lparr>flow := Some f'\<rparr>" by simp
  have "accounted (pp\<lparr>pp_sender := s, pp_up := m\<rparr>)"
  proof (cases "unstarted pp")
    case True
    have "unat (word_of_nat (recvCap (pp_receiver pp)) :: u64) = recvCap (pp_receiver pp)"
      using assms(1) by (intro unat_of_nat_u64) (simp add: pipe_ok_def receiver_ok_def)
    with True f assms(2) show ?thesis by (auto simp: s unstarted_def accounted_def on_the_way_def in_transit_def Let_def)
  next
    case False
    with assms(1) have "accounted pp" by (simp add: pipe_ok_def)
    with f assms(2) show ?thesis by (simp add: s accounted_def on_the_way_def in_transit_def Let_def)
  qed
  with assms(1) show ?thesis by (simp add: s pipe_ok_def sender_ok_def in_transit_def)
qed

lemma pipe_move_ok:
  assumes "pipe_move pp pp'" "pipe_ok pp" "waiting_ok pp"
  shows "pipe_ok pp' \<and> waiting_ok pp'"
  using assms
proof (cases rule: pipe_move.cases)
  case (send_take x s)
  then have "pp_sending pp = None" "length x < 2 ^ 64" using assms(3) by (simp_all add: waiting_ok_def)
  from send_take_ok [OF assms(2) this send_take(3)] send_take(1) show ?thesis by (simp add: waiting_ok_def)
next
  case (send_park x s)
  from takeCredit_pass_stays [OF send_park(3)] have s: "s = pp_sender pp" by simp
  then have "pp' = pp\<lparr>pp_waiting := Some (x, True)\<rparr>" using send_park(1) by (cases pp) simp
  with assms s send_park show ?thesis by (simp add: waiting_ok_def)
next
  case (send_refuse x err s)
  from takeCredit_pass_stays [OF send_refuse(3)] have "s = pp_sender pp" by simp
  then have "pp' = pp\<lparr>pp_waiting := None\<rparr>" using send_refuse(1) by (cases pp) simp
  with assms(2) show ?thesis by (simp add: waiting_ok_def)
next
  case (send_wake x s)
  with assms(3) send_wake_ok [OF assms(2) send_wake(3)] show ?thesis by (simp add: waiting_ok_def)
next
  case (send_write x)
  with assms send_write_ok [OF assms(2) send_write(2)] show ?thesis by (simp add: waiting_ok_def split: option.splits)
next
  case (recv_deliver x down r es)
  with assms(3) recv_deliver_ok [OF assms(2) recv_deliver(2,3)] waiting_ok_cong [of pp' pp] show ?thesis by simp
next
  case (recv_pop x q)
  with assms(3) recv_pop_ok [OF assms(2) recv_pop(2)] waiting_ok_cong [of pp' pp] show ?thesis by simp
next
  case (recv_free x m)
  with assms(3) recv_free_ok [OF assms(2) recv_free(2)] waiting_ok_cong [of pp' pp] show ?thesis by simp
next
  case (recv_return x m fo r)
  with assms(3) recv_return_ok [OF assms(2) recv_return(2,3)] waiting_ok_cong [of pp' pp] show ?thesis by simp
next
  case (send_credit f m err s)
  from assms(2) send_credit(2) obtain f' where "acceptCredit f (pp_sender pp) = (None, (pp_sender pp)\<lparr>flow := Some f'\<rparr>)" "fl_changed f'"
    by (rule credit_accepted)
  with assms(3) send_credit send_credit_ok [OF assms(2) send_credit(2,3)] show ?thesis
    by (auto simp: waiting_ok_def split: option.splits)
qed

lemma pipe_step_ok: "pipe_step pp pp' \<Longrightarrow> pipe_ok pp \<and> waiting_ok pp \<Longrightarrow> pipe_ok pp' \<and> waiting_ok pp'"
  by (induction rule: pipe_step.induct) (auto simp: waiting_ok_def [of "_\<lparr>pp_waiting := _\<rparr>"] dest: pipe_move_ok)

subsection \<open>The refinement\<close>

definition window :: "'v pipe \<Rightarrow> nat \<times> nat" where
  "window pp = (recvCap (pp_receiver pp), unat (recvByteLimit (pp_receiver pp)))"

lemma room_for_write:
  assumes "pipe_ok pp" "pp_sending pp = Some x"
  shows "length (in_transit pp) < fst (window pp)" "load (in_transit pp) + length x \<le> snd (window pp)"
proof -
  have "accounted pp" using assms by (auto simp: pipe_ok_def unstarted_def on_the_way_def Let_def)
  with assms(2) show "length (in_transit pp) < fst (window pp)" "load (in_transit pp) + length x \<le> snd (window pp)"
    by (auto simp: accounted_def on_the_way_def window_def Let_def)
qed

lemma pipe_move_simulates:
  "pipe_move pp pp' \<Longrightarrow> pipe_ok pp \<Longrightarrow>
   window pp' = window pp \<and>
   (in_transit pp' = in_transit pp \<or> queue_step (fst (window pp)) (snd (window pp)) (in_transit pp) (in_transit pp'))"
proof (induction rule: pipe_move.induct)
  case (send_write pp x)
  then show ?case using room_for_write [of pp x] queue_put [of "in_transit pp"] by (simp add: in_transit_def window_def)
next
  case (recv_deliver pp x down r es)
  from deliver_fits(1) [OF recv_deliver.prems recv_deliver.hyps(1), of "streamFrame FrameStreamItem (pp_sender pp) x"]
    recv_deliver show ?case by (auto simp: in_transit_def window_def streamFrame_def)
next
  case (recv_pop pp x q)
  then show ?case by (simp add: in_transit_def window_def queue_get)
next
  case (recv_return pp x m fo r)
  then have ro: "receiver_ok (pp_receiver pp)" by (simp add: pipe_ok_def)
  then obtain g where g: "flow (pp_receiver pp) = Some g" by (auto simp: receiver_ok_def)
  from recv_return.hyps(2) ro g show ?case
    by (cases rule: returnCredit_take_cases) (simp_all add: in_transit_def window_def)
qed (simp_all add: in_transit_def window_def)

lemma pipe_step_simulates:
  "pipe_step pp pp' \<Longrightarrow> pipe_ok pp \<Longrightarrow>
   window pp' = window pp \<and>
   (in_transit pp' = in_transit pp \<or> queue_step (fst (window pp)) (snd (window pp)) (in_transit pp) (in_transit pp'))"
  by (induction rule: pipe_step.induct) (auto simp: in_transit_def window_def dest: pipe_move_simulates)

interpretation credit: refinement pipe_step "\<lambda>pp. (pipe_ok pp \<and> waiting_ok pp) \<and> window pp = (n, b)" "queue_step n b" in_transit
proof unfold_locales
  show "(pipe_ok pp' \<and> waiting_ok pp') \<and> window pp' = (n, b)"
    if "pipe_step pp pp'" "(pipe_ok pp \<and> waiting_ok pp) \<and> window pp = (n, b)" for pp pp' :: "'a pipe"
    using pipe_step_ok [OF that(1)] pipe_step_simulates [OF that(1)] that(2) by simp
  show "in_transit pp' = in_transit pp \<or> queue_step n b (in_transit pp) (in_transit pp')"
    if "pipe_step pp pp'" "(pipe_ok pp \<and> waiting_ok pp) \<and> window pp = (n, b)" for pp pp' :: "'a pipe"
    using pipe_step_simulates [OF that(1)] that(2) by simp
qed

text \<open>Nothing is lost between the two ends.\<close>

definition idle_pipe :: "'v pipe \<Rightarrow> bool" where
  "idle_pipe pp \<longleftrightarrow> in_transit pp = [] \<and> pp_sending pp = None \<and> pp_popped pp = {#} \<and> pp_freed pp = {#} \<and> pp_up pp = {#}"

lemma idle_passes:
  assumes "pipe_ok pp" "idle_pipe pp" "length x < 2 ^ 64"
  shows "\<exists>r s. takeCredit_pass (word_of_nat (length x)) (pp_sender pp) = (Return r, s)"
proof -
  have acc: "accounted pp" using assms(1,2) by (auto simp: pipe_ok_def unstarted_def idle_pipe_def Let_def)
  from assms(1) obtain f where f: "flow (pp_sender pp) = Some f" by (auto simp: pipe_ok_def sender_ok_def)
  have ro: "0 < recvCap (pp_receiver pp)" using assms(1) by (simp add: pipe_ok_def receiver_ok_def)
  from acc assms(2) f have a: "unat (fl_items f) = recvCap (pp_receiver pp)" "unat (fl_bytes f) = unat (fl_maxBytes f)" "fl_initialized f"
    by (auto simp: accounted_def idle_pipe_def on_the_way_def in_transit_def Let_def)
  then have "fl_items f > 0" using ro by (simp add: u64_less_iff)
  moreover have "fl_bytes f = fl_maxBytes f" using a(2) by (intro antisym) (simp_all add: u64_le_iff)
  ultimately show ?thesis using a(3) assms(1) f by (auto simp: takeCredit_pass_def sendError_def pipe_ok_def sender_ok_def)
qed

lemma unat_word_of_int_u64: "0 \<le> k \<Longrightarrow> k < 2 ^ 64 \<Longrightarrow> unat (word_of_int k :: u64) = nat k"
proof -
  assume k: "0 \<le> k" "k < 2 ^ 64"
  have "(word_of_int k :: u64) = word_of_nat (nat k)" using k(1) by (metis int_nat_eq of_int_of_nat_eq)
  with k show ?thesis using unat_of_nat_u64 [of "nat k"] by (simp add: nat_less_iff)
qed

lemma new_pipe_ok:
  assumes "s = configure kind caller True (newStreamWithOptions mc lib None i fn codec opts)"
    "r = configure kind (\<not> caller) True (newStreamWithOptions mc' lib' None i fn codec' opts')"
    "sendsItems s" "receivesItems r" "RecvBuffer opts' < 2 ^ 63" "RecvBytes opts' < 2 ^ 63"
  shows "pipe_ok (new_pipe s r)"
    "window (new_pipe s r) = (nat (RecvBuffer (normalizeStreamOptions opts')), nat (RecvBytes (normalizeStreamOptions opts')))"
proof -
  have n: "0 < RecvBuffer (normalizeStreamOptions opts')" "RecvBuffer (normalizeStreamOptions opts') < 2 ^ 63"
    "0 < RecvBytes (normalizeStreamOptions opts')" "RecvBytes (normalizeStreamOptions opts') < 2 ^ 63"
    using assms(5,6) by (auto simp: normalizeStreamOptions_def streamRecvBuffer_def DefaultMaxFrameSize_def Let_def)
  have r: "recvCap r = nat (RecvBuffer (normalizeStreamOptions opts'))" "\<not> s_done r" "\<not> recvClosed r" "flow r = Some newFlow"
    "recvCh r = []" "bufferedBytes r = 0" "recvByteLimit r = word_of_int (RecvBytes (normalizeStreamOptions opts'))"
    using assms(2,4)
    by (cases kind; cases caller; auto simp: configure_def newStreamWithOptions_def close_sendDone_def close_recvDone_def Let_def)+
  have s: "\<not> s_done s" "\<not> sendClosed s" "\<not> sendDone s" "s_ctx s = None" "flow s = Some newFlow"
    using assms(1,3)
    by (cases kind; cases caller; auto simp: configure_def newStreamWithOptions_def close_sendDone_def close_recvDone_def Let_def)+
  have b: "unat (recvByteLimit r) = nat (RecvBytes (normalizeStreamOptions opts'))"
    unfolding r(7) using n(3,4) by (intro unat_word_of_int_u64) simp_all
  then have nz: "recvByteLimit r \<noteq> 0" using n(3) by auto
  show "window (new_pipe s r) = (nat (RecvBuffer (normalizeStreamOptions opts')), nat (RecvBytes (normalizeStreamOptions opts')))"
    using b r(1) by (simp add: window_def new_pipe_def)
  have "unstarted (new_pipe s r)"
    using r s assms(4) by (simp add: unstarted_def new_pipe_def on_the_way_def in_transit_def newFlow_def receiveWindow_def)
  with n r s nz assms(3,4) show "pipe_ok (new_pipe s r)"
    by (simp add: pipe_ok_def sender_ok_def receiver_ok_def new_pipe_def in_transit_def)
qed

text \<open>Every move brings a waiting sender, an item or its credit further.\<close>

definition weight :: "'v pipe \<Rightarrow> nat" where
  "weight pp =
     (case pp_waiting pp of None \<Rightarrow> 0 | Some (_, parked) \<Rightarrow> if parked then 8 else 9) +
     (case pp_sending pp of None \<Rightarrow> 0 | Some _ \<Rightarrow> 8) + 7 * length (pp_down pp) + 6 * length (recvCh (pp_receiver pp)) +
     5 * size (pp_popped pp) + 4 * size (pp_freed pp) + 3 * size (pp_up pp) +
     (if fl_changed (the (flow (pp_sender pp))) then 2 else 0)"

lemma pipe_move_weight:
  assumes "pipe_move pp pp'" "pipe_ok pp" "waiting_ok pp"
  shows "weight pp' < weight pp"
  using assms(1)
proof (cases rule: pipe_move.cases)
  case (send_take x s)
  have so: "sender_ok (pp_sender pp)" using assms(2) by (simp add: pipe_ok_def)
  from send_take(3) so obtain f where "flow (pp_sender pp) = Some f"
    "s = (pp_sender pp)\<lparr>flow := Some (f\<lparr>fl_items := fl_items f - 1, fl_bytes := fl_bytes f - word_of_nat (length x)\<rparr>)\<rparr>"
    by (rule takeCredit_pass_takes)
  moreover have "pp_sending pp = None" using assms(3) send_take(2) by (simp add: waiting_ok_def)
  ultimately show ?thesis by (simp add: weight_def send_take(1,2))
next
  case (send_park x s)
  with takeCredit_pass_stays [OF send_park(3)] show ?thesis by (simp add: weight_def)
next
  case (send_refuse x err s)
  with takeCredit_pass_stays [OF send_refuse(3)] show ?thesis by (simp add: weight_def)
next
  case (send_wake x s)
  have so: "sender_ok (pp_sender pp)" using assms(2) by (simp add: pipe_ok_def)
  from send_wake(3) so obtain f where "flow (pp_sender pp) = Some f" "fl_changed f"
    "s = (pp_sender pp)\<lparr>flow := Some (f\<lparr>fl_changed := False\<rparr>)\<rparr>" by (rule takeCredit_select_token)
  with send_wake show ?thesis by (simp add: weight_def)
next
  case (recv_deliver x down r es)
  have "recvCh r = recvCh (pp_receiver pp) @ [x]"
    using deliver_fits(1) [OF assms(2) recv_deliver(2), of "streamFrame FrameStreamItem (pp_sender pp) x"] recv_deliver(3)
    by (auto simp: streamFrame_def)
  with recv_deliver show ?thesis by (simp add: weight_def)
next
  case (recv_return x m fo r)
  have ro: "receiver_ok (pp_receiver pp)" using assms(2) by (simp add: pipe_ok_def)
  then obtain g where g: "flow (pp_receiver pp) = Some g" by (auto simp: receiver_ok_def)
  from recv_return(3) ro g have "recvCh r = recvCh (pp_receiver pp)" by (cases rule: returnCredit_take_cases) simp_all
  with recv_return show ?thesis by (simp add: weight_def split: option.split)
qed (simp_all add: weight_def)

text \<open>Whenever something is under way, a move is possible; a parked \<^verbatim>\<open>Send\<close> is not left behind.\<close>

lemma pipe_moves:
  assumes "pipe_ok pp" "waiting_ok pp" "\<not> idle_pipe pp \<or> pp_waiting pp \<noteq> None"
  shows "\<exists>pp'. pipe_move pp pp'"
proof -
  consider (waiting_next) x parked where "pp_waiting pp = Some (x, parked)" "idle_pipe pp"
    | (write_next) x where "pp_sending pp = Some x" | (deliver_next) x down where "pp_down pp = x # down"
    | (pop_next) x q where "recvCh (pp_receiver pp) = x # q" | (free_next) x m where "pp_popped pp = add_mset x m"
    | (return_next) x m where "pp_freed pp = add_mset x m" | (credit_next) w m where "pp_up pp = add_mset w m"
    using assms(3) by (cases "idle_pipe pp") (auto simp: idle_pipe_def in_transit_def neq_Nil_conv dest: multi_nonempty_split)
  then show ?thesis
  proof cases
    case waiting_next
    have lx: "length x < 2 ^ 64" using assms(2) waiting_next(1) by (simp add: waiting_ok_def)
    from idle_passes [OF assms(1) waiting_next(2) lx] obtain r s
      where t: "takeCredit_pass (word_of_nat (length x)) (pp_sender pp) = (Return r, s)" by blast
    show ?thesis
    proof (cases parked)
      case True
      with assms waiting_next(1) t have "fl_changed (the (flow (pp_sender pp)))" "flow (pp_sender pp) \<noteq> None"
        by (auto simp: waiting_ok_def pipe_ok_def sender_ok_def)
      then have "\<exists>s. takeCredit_select (pp_sender pp) = Some s" by (auto simp: takeCredit_select_def)
      with waiting_next(1) True show ?thesis by (auto intro: send_wake)
    next
      case False
      with waiting_next(1) t show ?thesis by (cases r) (auto intro: send_take send_refuse)
    qed
  next
    case write_next
    then show ?thesis by (blast intro: send_write)
  next
    case deliver_next
    then show ?thesis by (blast intro: recv_deliver [OF _ surjective_pairing])
  next
    case pop_next
    then show ?thesis by (blast intro: recv_pop)
  next
    case free_next
    then show ?thesis by (blast intro: recv_free)
  next
    case return_next
    then show ?thesis by (blast intro: recv_return [OF _ surjective_pairing])
  next
    case credit_next
    then show ?thesis by (blast intro: send_credit [OF _ surjective_pairing])
  qed
qed

text \<open>What the \<^verbatim>\<open>Send\<close> under way will write: its item, if that fits into a window of \<open>b\<close> bytes.\<close>

definition due :: "nat \<Rightarrow> 'v pipe \<Rightarrow> bytes list" where
  "due b pp =
     (case pp_sending pp of
        Some x \<Rightarrow> [x]
      | None \<Rightarrow> (case pp_waiting pp of None \<Rightarrow> [] | Some (x, _) \<Rightarrow> if length x \<le> b then [x] else []))"

lemma pass_within_window:
  assumes "pipe_ok pp" "length x < 2 ^ 64" "takeCredit_pass (word_of_nat (length x)) (pp_sender pp) = (Return r, s)"
  shows "r = None \<longleftrightarrow> length x \<le> snd (window pp)"
proof -
  have so: "sender_ok (pp_sender pp)" using assms(1) by (simp add: pipe_ok_def)
  then obtain f where f: "flow (pp_sender pp) = Some f" by (auto simp: sender_ok_def)
  have lx: "unat (word_of_nat (length x) :: u64) = length x" using assms(2) by (rule unat_length)
  have "accounted pp" using assms(1,3) f so
    by (auto simp: pipe_ok_def unstarted_def Let_def takeCredit_pass_def sendError_def sender_ok_def split: if_splits)
  with f have a: "fl_initialized f" "fl_maxBytes f = recvByteLimit (pp_receiver pp)" "unat (fl_bytes f) \<le> unat (recvByteLimit (pp_receiver pp))"
    by (auto simp: accounted_def Let_def)
  with assms(3) f so lx show ?thesis
    by (auto simp: takeCredit_pass_def sendError_def sender_ok_def window_def u64_le_iff u64_less_iff split: if_splits)
qed

lemma pipe_move_due:
  assumes "pipe_move pp pp'" "pipe_ok pp" "waiting_ok pp" "window pp = (n, b)"
  shows "pp_written pp' @ due b pp' = pp_written pp @ due b pp"
  using assms(1)
proof (cases rule: pipe_move.cases)
  case (send_take x s)
  then have "pp_sending pp = None" "length x < 2 ^ 64" using assms(3) by (simp_all add: waiting_ok_def)
  with pass_within_window [OF assms(2) _ send_take(3)] assms(4) send_take show ?thesis by (simp add: due_def)
next
  case (send_refuse x err s)
  then have "pp_sending pp = None" "length x < 2 ^ 64" using assms(3) by (simp_all add: waiting_ok_def)
  with pass_within_window [OF assms(2) _ send_refuse(3)] assms(4) send_refuse show ?thesis by (simp add: due_def)
next
  case (send_write x)
  then have "pp_waiting pp = None" using assms(3) by (cases "pp_waiting pp") (auto simp: waiting_ok_def)
  with send_write show ?thesis by (simp add: due_def)
qed (auto simp: due_def split: option.split)

lemma pipe_moves_bound:
  assumes "(pipe_move ^^ k) pp pp'" "(pipe_ok pp \<and> waiting_ok pp) \<and> window pp = (n, b)"
  shows "((pipe_ok pp' \<and> waiting_ok pp') \<and> window pp' = (n, b)) \<and> k + weight pp' \<le> weight pp \<and>
    pp_written pp' @ due b pp' = pp_written pp @ due b pp"
  using assms
proof (induction k arbitrary: pp')
  case (Suc k)
  then obtain pp1 where m: "(pipe_move ^^ k) pp pp1" "pipe_move pp1 pp'" by auto
  note h = Suc.IH [OF m(1) Suc.prems(2)]
  from h pipe_move_weight [OF m(2)] pipe_move_due [OF m(2), of n b] credit.preserved [OF send_move [OF m(2)], of n b]
  show ?case by auto
qed simp

subsection \<open>Correctness of flow control\<close>

text \<open>C36. Stream flow control implements a bounded queue. Take the two ends of a stream that was opened with flow
  control, one that sends and one that receives, in any kind of stream and with any options, and let senders,
  receivers and the two connection readers run in any order. Then the items between the write and the removal by
  a reader behave as a first-in first-out queue of RecvBuffer items and RecvBytes bytes of the receiver: what was
  received is what was written first. No item is ever refused by the receiver for want of room, and no
  window frame by the sender as invalid, at any time. No wake-up is lost: a sender parked in takeCredit whose item has
  become sendable can leave the select. And flow control blocks no sender for good: as long as the receiver goes on
  receiving, in whatever order the goroutines under way move, they make at most weight moves, one is
  possible while a sender waits or anything is on the way, and when none is left the sender is through: its item has
  been written, or refused if it exceeds the byte window, and everything written has been received.\<close>

theorem flow_control_refines_queue:
  assumes s: "s = configure kind caller True (newStreamWithOptions mc lib None i fn codec opts)" "sendsItems s"
    and r: "r = configure kind (\<not> caller) True (newStreamWithOptions mc' lib' None i fn codec' opts')" "receivesItems r"
    and int64: "RecvBuffer opts' < 2 ^ 63" "RecvBytes opts' < 2 ^ 63"
    and n: "n = nat (RecvBuffer (normalizeStreamOptions opts'))" and b: "b = nat (RecvBytes (normalizeStreamOptions opts'))"
    and run: "pipe_run (new_pipe s r) pp"
  shows "(queue_step n b)\<^sup>*\<^sup>* [] (in_transit pp) \<and> length (in_transit pp) \<le> n \<and> load (in_transit pp) \<le> b \<and>
    pp_received pp @ in_transit pp = pp_written pp \<and>
    (pp_down pp = x # down \<longrightarrow>
      (\<exists>r'. deliverItem (streamFrame FrameStreamItem (pp_sender pp) x) (pp_receiver pp) = (r', []) \<and>
         recvCh r' = recvCh (pp_receiver pp) @ [x])) \<and>
    (\<forall>w. w \<in># pp_up pp \<longrightarrow> fst (acceptCredit w (pp_sender pp)) = None) \<and>
    (pp_waiting pp = Some (y, True) \<and> fst (takeCredit_pass (word_of_nat (length y)) (pp_sender pp)) \<noteq> Blocked \<longrightarrow>
      takeCredit_select (pp_sender pp) \<noteq> None) \<and>
    (pp_waiting pp \<noteq> None \<or> pp_sending pp \<noteq> None \<or> in_transit pp \<noteq> [] \<longrightarrow> (\<exists>pp'. pipe_move pp pp')) \<and>
    (\<forall>k pp'. (pipe_move ^^ k) pp pp' \<longrightarrow>
      k + weight pp' \<le> weight pp \<and>
      ((\<nexists>pp''. pipe_move pp' pp'') \<longrightarrow>
        pp_waiting pp' = None \<and> pp_sending pp' = None \<and> pp_written pp' = pp_written pp @ due b pp \<and>
        pp_received pp' = pp_written pp'))"
proof -
  note new = new_pipe_ok [OF s(1) r(1) s(2) r(2) int64]
  have init: "(pipe_ok (new_pipe s r) \<and> waiting_ok (new_pipe s r)) \<and> window (new_pipe s r) = (n, b)"
    using new n b by (simp add: waiting_ok_def new_pipe_def)
  note all = credit.run_ok [OF run init]
  then have ok: "pipe_ok pp" "waiting_ok pp" "window pp = (n, b)" by simp_all
  have "recvCh r = []" using s r
    by (cases kind; cases caller) (auto simp: configure_def newStreamWithOptions_def close_sendDone_def close_recvDone_def Let_def)
  then have "in_transit (new_pipe s r) = []" by (simp add: in_transit_def new_pipe_def)
  then have ref: "(queue_step n b)\<^sup>*\<^sup>* [] (in_transit pp)" using credit.run_refines [OF run init] by simp
  have fits: "\<exists>r'. deliverItem (streamFrame FrameStreamItem (pp_sender pp) x) (pp_receiver pp) = (r', []) \<and>
         recvCh r' = recvCh (pp_receiver pp) @ [x]" if "pp_down pp = x # down"
    using deliver_fits(1) [OF ok(1) that, of "streamFrame FrameStreamItem (pp_sender pp) x"] by (simp add: streamFrame_def)
  have accepted: "fst (acceptCredit w (pp_sender pp)) = None" if "w \<in># pp_up pp" for w
    using credit_accepted [OF ok(1)] multi_member_split [OF that] by (metis fst_conv)
  have woken: "takeCredit_select (pp_sender pp) \<noteq> None"
    if "pp_waiting pp = Some (y, True)" "fst (takeCredit_pass (word_of_nat (length y)) (pp_sender pp)) \<noteq> Blocked"
    using ok(1,2) that by (auto simp: waiting_ok_def takeCredit_select_def pipe_ok_def sender_ok_def)
  have moves: "\<exists>pp'. pipe_move pp pp'" if "pp_waiting pp \<noteq> None \<or> pp_sending pp \<noteq> None \<or> in_transit pp \<noteq> []"
    using pipe_moves [OF ok(1,2)] that by (auto simp: idle_pipe_def)
  have through: "pp_waiting pp' = None \<and> pp_sending pp' = None \<and> pp_written pp' = pp_written pp @ due b pp \<and>
        pp_received pp' = pp_written pp'" if m: "(pipe_move ^^ k) pp pp'" "\<nexists>pp''. pipe_move pp' pp''" for k pp'
  proof -
    note e = pipe_moves_bound [OF m(1) all]
    from e pipe_moves [of pp'] m(2) have q: "idle_pipe pp'" "pp_waiting pp' = None" by blast+
    then have "pp_sending pp' = None" "in_transit pp' = []" by (simp_all add: idle_pipe_def)
    with q(2) e show ?thesis by (auto simp: due_def pipe_ok_def)
  qed
  from ref queue_bounded [OF ref] ok(1) fits accepted woken moves through pipe_moves_bound [OF _ all]
  show ?thesis unfolding pipe_ok_def by blast
qed

definition sampleEnd :: "bool \<Rightarrow> bytes Stream" where
  "sampleEnd caller = configure StreamKindServer caller True
     (newStreamWithOptions msgpcode_spec sampleCodec None 5 ''list'' (Some sampleCodec) \<lparr>RecvBuffer = 2, RecvBytes = 8\<rparr>)"

lemma pipe_moves_end:
  assumes "(pipe_ok pp \<and> waiting_ok pp) \<and> window pp = (n, b)"
  shows "\<exists>k pp'. (pipe_move ^^ k) pp pp' \<and> (\<nexists>pp''. pipe_move pp' pp'')"
  using assms
proof (induction pp rule: measure_induct_rule [of weight])
  case (less pp)
  show ?case
  proof (cases "\<exists>pp1. pipe_move pp pp1")
    case True
    then obtain pp1 where m: "pipe_move pp pp1" by blast
    from less.IH [OF _ credit.preserved [OF send_move [OF m] less.prems]] pipe_move_weight [OF m] less.prems m show ?thesis
      by (metis relpowp_Suc_I2)
  qed (metis relpowp_0_I)
qed

text \<open>The witness: an item is sent before any credit has arrived.\<close>

theorem flow_control_refines_queue_witness:
  "\<exists>pp pp'. pipe_run (new_pipe (sampleEnd False) (sampleEnd True)) pp \<and> pp_waiting pp = Some ([1, 2, 3], False) \<and>
     pipe_move\<^sup>*\<^sup>* pp pp' \<and> pp_received pp' = [[1, 2, 3]]"
proof -
  let ?o = "\<lparr>RecvBuffer = 2, RecvBytes = 8\<rparr>"
  let ?p = "new_pipe (sampleEnd False) (sampleEnd True)"
  let ?q = "?p\<lparr>pp_waiting := Some ([1, 2, 3], False)\<rparr>"
  have e: "sampleEnd True = configure StreamKindServer (\<not> False) True
     (newStreamWithOptions msgpcode_spec sampleCodec None 5 ''list'' (Some sampleCodec) ?o)" by (simp add: sampleEnd_def)
  have k: "sendsItems (sampleEnd False)" "receivesItems (sampleEnd True)"
    by (simp_all add: sampleEnd_def configure_def newStreamWithOptions_def close_sendDone_def close_recvDone_def Let_def)
  have o: "RecvBuffer ?o < 2 ^ 63" "RecvBytes ?o < 2 ^ 63" by simp_all
  have "pipe_step ?p ?q" by (rule send_begin) (simp_all add: new_pipe_def)
  then have run: "pipe_run ?p ?q" by simp
  note new = new_pipe_ok [OF sampleEnd_def e k o]
  have "waiting_ok ?q" by (simp add: waiting_ok_def new_pipe_def)
  moreover have "pipe_ok ?q" using new(1) by simp
  moreover have "window ?q = window ?p" by (simp add: window_def)
  ultimately have "(pipe_ok ?q \<and> waiting_ok ?q) \<and> window ?q = (nat (RecvBuffer (normalizeStreamOptions ?o)), nat (RecvBytes (normalizeStreamOptions ?o)))"
    using new(2) by simp
  from pipe_moves_end [OF this] obtain j pp' where m: "(pipe_move ^^ j) ?q pp'" "\<nexists>pp''. pipe_move pp' pp''" by blast
  from flow_control_refines_queue [OF sampleEnd_def k(1) e k(2) o refl refl run] m
  have "pp_received pp' = pp_written ?q @ due (nat (RecvBytes (normalizeStreamOptions ?o))) ?q" by metis
  then have "pp_received pp' = [[1, 2, 3]]" by (simp add: due_def new_pipe_def normalizeStreamOptions_def Let_def)
  with run m(1) show ?thesis by (intro exI [of _ ?q] exI [of _ pp']) (auto simp: relpowp_imp_rtranclp)
qed

end
