(* ===== verification/Handlers.thy ===== *)
theory Handlers
  imports Stream
begin

text \<open>
  Handlers: the message context (\<^verbatim>\<open>context.go\<close>), the typed wrappers and the registries
  (\<^verbatim>\<open>server.go\<close>, \<^verbatim>\<open>client.go\<close>) and the interceptors (\<^verbatim>\<open>interceptor.go\<close>).

  An application handler is a parameter: a function of the context and the request whose
  outcome is a value, an error or a panic (\<open>hres\<close>). A stream is passed to a handler by
  reference (a \<open>nat\<close>). The five handler maps are the record \<open>Registry\<close>, which
  \<open>Server\<close> and \<open>Client\<close> extend; the locale \<open>handler_registry\<close> is the contract
  the dispatch code relies on, and each pair of register and find functions interprets it.
\<close>

subsection \<open>Context\<close>

record Context =
  rc_deadline :: "int option"
  rc_clientName :: string
  rc_requestID :: u64
  rc_function :: string
  rc_remoteAddr :: string
  rc_localAddr :: string
  rc_conn :: bool
  rc_generation :: u64
  rc_notify :: bool
  rc_stream :: bool
  rc_streamKind :: StreamKind

definition Context_ClientName :: "Context option \<Rightarrow> string" where
  "Context_ClientName c = (case c of None \<Rightarrow> '''' | Some c \<Rightarrow> rc_clientName c)"

definition Context_RequestID :: "Context option \<Rightarrow> u64" where
  "Context_RequestID c = (case c of None \<Rightarrow> 0 | Some c \<Rightarrow> rc_requestID c)"

definition Context_Function :: "Context option \<Rightarrow> string" where
  "Context_Function c = (case c of None \<Rightarrow> '''' | Some c \<Rightarrow> rc_function c)"

definition Context_IsNotify :: "Context option \<Rightarrow> bool" where
  "Context_IsNotify c = (case c of None \<Rightarrow> False | Some c \<Rightarrow> rc_notify c)"

definition Context_IsStream :: "Context option \<Rightarrow> bool" where
  "Context_IsStream c = (case c of None \<Rightarrow> False | Some c \<Rightarrow> rc_stream c)"

definition Context_StreamKind :: "Context option \<Rightarrow> StreamKind" where
  "Context_StreamKind c = (case c of None \<Rightarrow> StreamKindOther 0 | Some c \<Rightarrow> rc_streamKind c)"

definition Context_ConnectionGeneration :: "Context option \<Rightarrow> u64" where
  "Context_ConnectionGeneration c = (case c of None \<Rightarrow> 0 | Some c \<Rightarrow> rc_generation c)"

text \<open>\<^verbatim>\<open>contextFromFrame\<close>: the deadline of the context of an inbound stream.\<close>

definition contextFromFrame :: "Frame \<Rightarrow> int option" where
  "contextFromFrame frame = (if DeadlineUnixNano frame > 0 then Some (DeadlineUnixNano frame) else None)"

subsection \<open>Handlers and their typed wrappers\<close>

datatype 'a hres = HVal 'a | HErr gerror | HPanic string

type_synonym handler = "Context \<Rightarrow> bytes \<Rightarrow> bytes hres"
type_synonym notifyHandler = "Context \<Rightarrow> bytes \<Rightarrow> unit hres"
type_synonym serverStreamHandler = "Context \<Rightarrow> bytes \<Rightarrow> nat \<Rightarrow> unit hres"
type_synonym clientStreamHandler = "Context \<Rightarrow> nat \<Rightarrow> bytes hres"
type_synonym bidiStreamHandler = "Context \<Rightarrow> nat \<Rightarrow> unit hres"

definition wrapHandler :: "'v Codec \<Rightarrow> (Context \<Rightarrow> 'v \<Rightarrow> 'v hres) \<Rightarrow> handler" where
  "wrapHandler codec fn ctx payload =
     (case UnmarshalValue codec payload of
        Inl e \<Rightarrow> HErr (RemoteErr (Some (NewRemoteError ErrorCodeInvalidRequest (''decode request: '' @ error_text e) [])))
      | Inr req \<Rightarrow>
          (case fn ctx req of
             HPanic t \<Rightarrow> HPanic t
           | HErr e \<Rightarrow> HErr e
           | HVal resp \<Rightarrow>
               (case MarshalValue codec resp of
                  Inl e \<Rightarrow> HErr (Errorf_prefix ''encode response'' e)
                | Inr data \<Rightarrow> HVal data)))"

definition wrapServerStreamHandler :: "'v Codec \<Rightarrow> (Context \<Rightarrow> 'v \<Rightarrow> nat \<Rightarrow> unit hres) \<Rightarrow> serverStreamHandler" where
  "wrapServerStreamHandler codec fn ctx payload stream =
     (case UnmarshalValue codec payload of
        Inl e \<Rightarrow> HErr (RemoteErr (Some (NewRemoteError ErrorCodeInvalidRequest (''decode stream request: '' @ error_text e) [])))
      | Inr req \<Rightarrow> fn ctx req stream)"

definition wrapClientStreamHandler :: "'v Codec \<Rightarrow> (Context \<Rightarrow> nat \<Rightarrow> 'v hres) \<Rightarrow> clientStreamHandler" where
  "wrapClientStreamHandler codec fn ctx stream =
     (case fn ctx stream of
        HPanic t \<Rightarrow> HPanic t
      | HErr e \<Rightarrow> HErr e
      | HVal resp \<Rightarrow>
          (case MarshalValue codec resp of
             Inl e \<Rightarrow> HErr (Errorf_prefix ''encode stream response'' e)
           | Inr data \<Rightarrow> HVal data))"

definition wrapBidiStreamHandler :: "'v Codec \<Rightarrow> (Context \<Rightarrow> nat \<Rightarrow> unit hres) \<Rightarrow> bidiStreamHandler" where
  "wrapBidiStreamHandler codec fn ctx stream = fn ctx stream"

definition wrapNotifyHandler :: "'v Codec \<Rightarrow> (Context \<Rightarrow> 'v \<Rightarrow> unit hres) \<Rightarrow> notifyHandler" where
  "wrapNotifyHandler codec fn ctx payload =
     (case UnmarshalValue codec payload of
        Inl e \<Rightarrow> HErr (RemoteErr (Some (NewRemoteError ErrorCodeInvalidRequest (''decode notification: '' @ error_text e) [])))
      | Inr req \<Rightarrow> fn ctx req)"

subsection \<open>Interceptors\<close>

type_synonym UnaryInterceptor = "Context \<Rightarrow> bytes \<Rightarrow> (Context \<Rightarrow> bytes \<Rightarrow> bytes hres) \<Rightarrow> bytes hres"
type_synonym NotifyInterceptor = "Context \<Rightarrow> bytes \<Rightarrow> (Context \<Rightarrow> bytes \<Rightarrow> unit hres) \<Rightarrow> unit hres"
type_synonym StreamHandler = "Context \<Rightarrow> StreamKind \<times> bytes \<Rightarrow> nat \<Rightarrow> bytes hres"
type_synonym StreamInterceptor = "Context \<Rightarrow> StreamKind \<times> bytes \<Rightarrow> nat \<Rightarrow> StreamHandler \<Rightarrow> bytes hres"

text \<open>A result \<^verbatim>\<open>(nil, err)\<close> and, in the other direction, the error of a pair.\<close>

definition no_payload :: "unit hres \<Rightarrow> bytes hres" where
  "no_payload r = (case r of HVal _ \<Rightarrow> HVal [] | HErr e \<Rightarrow> HErr e | HPanic t \<Rightarrow> HPanic t)"

definition only_error :: "bytes hres \<Rightarrow> unit hres" where
  "only_error r = (case r of HVal _ \<Rightarrow> HVal () | HErr e \<Rightarrow> HErr e | HPanic t \<Rightarrow> HPanic t)"

definition invokeUnary :: "Context \<Rightarrow> bytes \<Rightarrow> handler \<Rightarrow> UnaryInterceptor option \<Rightarrow> bytes hres" where
  "invokeUnary ctx payload h interceptor =
     (let next = (\<lambda>nextCtx nextReq. h nextCtx nextReq) in
      case interceptor of
        None \<Rightarrow> next ctx payload
      | Some i \<Rightarrow> i ctx payload next)"

definition invokeNotify :: "Context \<Rightarrow> bytes \<Rightarrow> notifyHandler \<Rightarrow> NotifyInterceptor option \<Rightarrow> unit hres" where
  "invokeNotify ctx payload h interceptor =
     (let next = (\<lambda>nextCtx nextReq. h nextCtx nextReq) in
      case interceptor of
        None \<Rightarrow> next ctx payload
      | Some i \<Rightarrow> i ctx payload next)"

definition invokeServerStream ::
  "Context \<Rightarrow> bytes \<Rightarrow> nat \<Rightarrow> serverStreamHandler \<Rightarrow> StreamInterceptor option \<Rightarrow> unit hres" where
  "invokeServerStream ctx payload stream h interceptor =
     (let next = (\<lambda>nextCtx nextReq nextStream. no_payload (h nextCtx (snd nextReq) nextStream)) in
      case interceptor of
        None \<Rightarrow> only_error (next ctx (StreamKindServer, payload) stream)
      | Some i \<Rightarrow> only_error (i ctx (StreamKindServer, payload) stream next))"

definition invokeClientStream ::
  "Context \<Rightarrow> nat \<Rightarrow> clientStreamHandler \<Rightarrow> StreamInterceptor option \<Rightarrow> bytes hres" where
  "invokeClientStream ctx stream h interceptor =
     (let next = (\<lambda>nextCtx nextReq nextStream. h nextCtx nextStream) in
      case interceptor of
        None \<Rightarrow> next ctx (StreamKindClient, []) stream
      | Some i \<Rightarrow> i ctx (StreamKindClient, []) stream next)"

definition invokeBidiStream ::
  "Context \<Rightarrow> nat \<Rightarrow> bidiStreamHandler \<Rightarrow> StreamInterceptor option \<Rightarrow> unit hres" where
  "invokeBidiStream ctx stream h interceptor =
     (let next = (\<lambda>nextCtx nextReq nextStream. no_payload (h nextCtx nextStream)) in
      case interceptor of
        None \<Rightarrow> only_error (next ctx (StreamKindBidi, []) stream)
      | Some i \<Rightarrow> only_error (i ctx (StreamKindBidi, []) stream next))"

subsection \<open>Registries\<close>

record 'v Registry =
  reg_codec :: "'v Codec"
  handlers :: "string \<rightharpoonup> handler"
  notifyHandlers :: "string \<rightharpoonup> notifyHandler"
  serverStreamHandlers :: "string \<rightharpoonup> serverStreamHandler"
  clientStreamHandlers :: "string \<rightharpoonup> clientStreamHandler"
  bidiStreamHandlers :: "string \<rightharpoonup> bidiStreamHandler"

text \<open>The body every register function has: a handler may be nil (\<open>None\<close>).\<close>

definition register_in :: "string \<Rightarrow> 'h option \<Rightarrow> (string \<rightharpoonup> 'h) \<Rightarrow> gerror option \<times> (string \<rightharpoonup> 'h)" where
  "register_in function h m =
     (if function = '''' \<or> h = None then (Some (Sentinel ErrInvalidFunction), m)
      else if m function \<noteq> None then (Some (Sentinel ErrDuplicateFunction), m)
      else (None, m(function := h)))"

definition registerHandler ::
  "string \<Rightarrow> handler option \<Rightarrow> ('v, 'm) Registry_scheme \<Rightarrow> gerror option \<times> ('v, 'm) Registry_scheme" where
  "registerHandler function h s =
     (case register_in function h (handlers s) of (err, m) \<Rightarrow> (err, s\<lparr>handlers := m\<rparr>))"

definition registerNotifyHandler ::
  "string \<Rightarrow> notifyHandler option \<Rightarrow> ('v, 'm) Registry_scheme \<Rightarrow> gerror option \<times> ('v, 'm) Registry_scheme" where
  "registerNotifyHandler function h s =
     (case register_in function h (notifyHandlers s) of (err, m) \<Rightarrow> (err, s\<lparr>notifyHandlers := m\<rparr>))"

definition registerServerStreamHandler ::
  "string \<Rightarrow> serverStreamHandler option \<Rightarrow> ('v, 'm) Registry_scheme \<Rightarrow> gerror option \<times> ('v, 'm) Registry_scheme" where
  "registerServerStreamHandler function h s =
     (case register_in function h (serverStreamHandlers s) of (err, m) \<Rightarrow> (err, s\<lparr>serverStreamHandlers := m\<rparr>))"

definition registerClientStreamHandler ::
  "string \<Rightarrow> clientStreamHandler option \<Rightarrow> ('v, 'm) Registry_scheme \<Rightarrow> gerror option \<times> ('v, 'm) Registry_scheme" where
  "registerClientStreamHandler function h s =
     (case register_in function h (clientStreamHandlers s) of (err, m) \<Rightarrow> (err, s\<lparr>clientStreamHandlers := m\<rparr>))"

definition registerBidiStreamHandler ::
  "string \<Rightarrow> bidiStreamHandler option \<Rightarrow> ('v, 'm) Registry_scheme \<Rightarrow> gerror option \<times> ('v, 'm) Registry_scheme" where
  "registerBidiStreamHandler function h s =
     (case register_in function h (bidiStreamHandlers s) of (err, m) \<Rightarrow> (err, s\<lparr>bidiStreamHandlers := m\<rparr>))"

text \<open>The generic registration functions. The target is nil, something that is not a registrar,
  a nil registrar (which has no codec) or a registrar.\<close>

datatype 'r registrar = TargetIsNil | NotRegistrar | NilRegistrar | Registrar 'r

definition register_target ::
  "(string \<Rightarrow> 'h option \<Rightarrow> ('v, 'm) Registry_scheme \<Rightarrow> gerror option \<times> ('v, 'm) Registry_scheme) \<Rightarrow>
   ('v Codec \<Rightarrow> 'f \<Rightarrow> 'h) \<Rightarrow> ('v, 'm) Registry_scheme registrar \<Rightarrow> string \<Rightarrow> 'f option \<Rightarrow>
   gerror option \<times> ('v, 'm) Registry_scheme registrar" where
  "register_target reg wrap target function fn =
     (case target of
        TargetIsNil \<Rightarrow> (Some (Sentinel ErrClosed), target)
      | _ \<Rightarrow>
          if function = '''' \<or> fn = None then (Some (Sentinel ErrInvalidFunction), target)
          else
            (case target of
               Registrar r \<Rightarrow>
                 (case reg function (map_option (wrap (reg_codec r)) fn) r of
                    (err, r) \<Rightarrow> (err, Registrar r))
             | NilRegistrar \<Rightarrow> (Some (Sentinel ErrClosed), target)
             | _ \<Rightarrow> (Some (Sentinel ErrInvalidHandler), target)))"

definition Register ::
  "('v, 'm) Registry_scheme registrar \<Rightarrow> string \<Rightarrow> (Context \<Rightarrow> 'v \<Rightarrow> 'v hres) option \<Rightarrow>
   gerror option \<times> ('v, 'm) Registry_scheme registrar" where
  "Register = register_target registerHandler wrapHandler"

definition RegisterNotify ::
  "('v, 'm) Registry_scheme registrar \<Rightarrow> string \<Rightarrow> (Context \<Rightarrow> 'v \<Rightarrow> unit hres) option \<Rightarrow>
   gerror option \<times> ('v, 'm) Registry_scheme registrar" where
  "RegisterNotify = register_target registerNotifyHandler wrapNotifyHandler"

definition RegisterServerStream ::
  "('v, 'm) Registry_scheme registrar \<Rightarrow> string \<Rightarrow> (Context \<Rightarrow> 'v \<Rightarrow> nat \<Rightarrow> unit hres) option \<Rightarrow>
   gerror option \<times> ('v, 'm) Registry_scheme registrar" where
  "RegisterServerStream = register_target registerServerStreamHandler wrapServerStreamHandler"

definition RegisterClientStream ::
  "('v, 'm) Registry_scheme registrar \<Rightarrow> string \<Rightarrow> (Context \<Rightarrow> nat \<Rightarrow> 'v hres) option \<Rightarrow>
   gerror option \<times> ('v, 'm) Registry_scheme registrar" where
  "RegisterClientStream = register_target registerClientStreamHandler wrapClientStreamHandler"

definition RegisterBidiStream ::
  "('v, 'm) Registry_scheme registrar \<Rightarrow> string \<Rightarrow> (Context \<Rightarrow> nat \<Rightarrow> unit hres) option \<Rightarrow>
   gerror option \<times> ('v, 'm) Registry_scheme registrar" where
  "RegisterBidiStream = register_target registerBidiStreamHandler wrapBidiStreamHandler"

text \<open>The Must variants panic (\<open>None\<close>) on an error.\<close>

definition must :: "gerror option \<times> 'r \<Rightarrow> 'r option" where
  "must x = (case x of (None, r) \<Rightarrow> Some r | (Some e, r) \<Rightarrow> None)"

subsection \<open>The contract of a registry\<close>

locale handler_registry =
  fixes reg :: "string \<Rightarrow> 'h option \<Rightarrow> 'r \<Rightarrow> gerror option \<times> 'r"
    and lookup :: "'r \<Rightarrow> string \<Rightarrow> 'h option"
  assumes reg_ok: "f \<noteq> '''' \<Longrightarrow> lookup r f = None \<Longrightarrow>
      fst (reg f (Some h) r) = None \<and> lookup (snd (reg f (Some h) r)) = (lookup r)(f \<mapsto> h)"
    and reg_dup: "f \<noteq> '''' \<Longrightarrow> lookup r f \<noteq> None \<Longrightarrow>
      reg f (Some h) r = (Some (Sentinel ErrDuplicateFunction), r)"
    and reg_invalid: "f = '''' \<or> k = None \<Longrightarrow> reg f k r = (Some (Sentinel ErrInvalidFunction), r)"
begin

text \<open>A sequence of registrations.\<close>

definition reg_all :: "(string \<times> 'h option) list \<Rightarrow> 'r \<Rightarrow> 'r" where
  "reg_all = fold (\<lambda>(f, h) r. snd (reg f h r))"

lemma reg_keeps: "lookup r f = Some h \<Longrightarrow> lookup (snd (reg g k r)) f = Some h"
proof (cases "g = '''' \<or> k = None")
  case False
  assume a: "lookup r f = Some h"
  from False obtain k' where "k = Some k'" by auto
  with False a reg_ok [of g r k'] reg_dup [of g r k'] show ?thesis
    by (cases "lookup r g = None"; cases "f = g") simp_all
qed (simp add: reg_invalid)

lemma first_registration_wins:
  "lookup r f = Some h \<Longrightarrow> lookup (reg_all xs r) f = Some h"
  unfolding reg_all_def by (induction xs arbitrary: r) (auto intro: reg_keeps)

lemma reg_adds:
  assumes "lookup r f = None"
  shows "lookup (snd (reg g k r)) f = None \<or> (\<exists>k'. g = f \<and> k = Some k' \<and> lookup (snd (reg g k r)) f = Some k')"
proof (cases "g = '''' \<or> k = None")
  case True
  with assms show ?thesis by (simp add: reg_invalid)
next
  case False
  then obtain k' where k: "k = Some k'" by auto
  show ?thesis
  proof (cases "lookup r g = None")
    case True
    with False k assms reg_ok [of g r k'] show ?thesis by (cases "f = g") simp_all
  next
    case False
    with \<open>\<not> (g = '''' \<or> k = None)\<close> k assms reg_dup [of g r k'] show ?thesis by simp
  qed
qed

lemma lookup_registered:
  assumes "f \<noteq> ''''" "lookup r f = None"
  shows "lookup (reg_all (xs @ (f, Some h) # ys) r) f = Some h \<or>
         (\<exists>k. (f, Some k) \<in> set xs \<and> lookup (reg_all (xs @ (f, Some h) # ys) r) f = Some k)"
proof -
  have pre: "lookup (reg_all xs r) f = None \<or> (\<exists>k. (f, Some k) \<in> set xs \<and> lookup (reg_all xs r) f = Some k)"
    using assms(2)
  proof (induction xs arbitrary: r)
    case (Cons x xs)
    obtain g k where x: "x = (g, k)" by fastforce
    let ?r = "snd (reg g k r)"
    consider "lookup ?r f = None" | k' where "g = f" "k = Some k'" "lookup ?r f = Some k'"
      using reg_adds [OF Cons.prems, of g k] by (elim disjE exE conjE)
    then show ?case
    proof cases
      case 1
      with Cons.IH x show ?thesis by (auto simp: reg_all_def)
    next
      case 2
      with first_registration_wins [of ?r f k' xs] x show ?thesis by (auto simp: reg_all_def)
    qed
  qed (simp add: reg_all_def)
  have split: "reg_all (xs @ (f, Some h) # ys) r = reg_all ys (snd (reg f (Some h) (reg_all xs r)))"
    by (simp add: reg_all_def)
  from pre show ?thesis
  proof
    assume "lookup (reg_all xs r) f = None"
    with reg_ok [OF assms(1)] have "lookup (snd (reg f (Some h) (reg_all xs r))) f = Some h" by simp
    with first_registration_wins split show ?thesis by simp
  next
    assume "\<exists>k. (f, Some k) \<in> set xs \<and> lookup (reg_all xs r) f = Some k"
    with reg_keeps first_registration_wins split show ?thesis by metis
  qed
qed

end

lemma register_in_cases:
  "f \<noteq> '''' \<Longrightarrow> m f = None \<Longrightarrow> register_in f (Some h) m = (None, m(f \<mapsto> h))"
  "f \<noteq> '''' \<Longrightarrow> m f \<noteq> None \<Longrightarrow> register_in f (Some h) m = (Some (Sentinel ErrDuplicateFunction), m)"
  "f = '''' \<or> h' = None \<Longrightarrow> register_in f h' m = (Some (Sentinel ErrInvalidFunction), m)"
  by (auto simp: register_in_def)

interpretation unary_reg: handler_registry registerHandler handlers
  by unfold_locales (simp_all add: registerHandler_def register_in_cases)

interpretation notify_reg: handler_registry registerNotifyHandler notifyHandlers
  by unfold_locales (simp_all add: registerNotifyHandler_def register_in_cases)

interpretation server_stream_reg: handler_registry registerServerStreamHandler serverStreamHandlers
  by unfold_locales (simp_all add: registerServerStreamHandler_def register_in_cases)

interpretation client_stream_reg: handler_registry registerClientStreamHandler clientStreamHandlers
  by unfold_locales (simp_all add: registerClientStreamHandler_def register_in_cases)

interpretation bidi_stream_reg: handler_registry registerBidiStreamHandler bidiStreamHandlers
  by unfold_locales (simp_all add: registerBidiStreamHandler_def register_in_cases)

end
