(* ===== verification/Auth.thy ===== *)
theory Auth
  imports Framing
begin

text \<open>
  Shared-secret authentication (\<^verbatim>\<open>auth.go\<close>). \<^verbatim>\<open>hmac.New(sha256.New, key)\<close> followed by writes and
  \<^verbatim>\<open>Sum(nil)\<close> is the parameter \<open>hmac key message\<close> applied to the concatenation of what was
  written (\<open>auth_transcript\<close>); \<^verbatim>\<open>hmac.Equal\<close> is equality of byte strings; \<^verbatim>\<open>rand.Reader\<close> is a
  \<open>Reader\<close>. \<open>SharedSecret\<close> returns \<open>None\<close> where the source panics.
\<close>

record Auth =
  sharedSecret :: bytes
  auth_enabled :: bool

definition authMethodHMACSHA256 :: string where
  "authMethodHMACSHA256 = ''hmac-sha256''"

definition noAuth :: Auth where
  "noAuth = \<lparr>sharedSecret = [], auth_enabled = False\<rparr>"

definition SharedSecret :: "string \<Rightarrow> Auth option" where
  "SharedSecret secret =
     (if secret = '''' then None
      else Some \<lparr>sharedSecret = bytes_of_string secret, auth_enabled = True\<rparr>)"

definition enabledAuth :: "Auth \<Rightarrow> bool" where
  "enabledAuth a = auth_enabled a"

definition auth_method :: "Auth \<Rightarrow> string" where
  "auth_method a = (if \<not> auth_enabled a then '''' else authMethodHMACSHA256)"

definition auth_challenge :: "Reader \<Rightarrow> bytes res \<times> Reader" where
  "auth_challenge rand =
     (case io_ReadFull rand 32 of
        (Inl e, rand) \<Rightarrow> (Inl (Errorf_prefix ''create auth challenge'' e), rand)
      | (Inr c, rand) \<Rightarrow> (Inr c, rand))"

definition writeAuthString :: "string \<Rightarrow> bytes" where
  "writeAuthString value = PutUint32 (word_of_nat (length value)) @ bytes_of_string value"

definition auth_transcript :: "bytes \<Rightarrow> u16 \<Rightarrow> string \<Rightarrow> string \<Rightarrow> string list \<Rightarrow> bytes" where
  "auth_transcript challenge protocolVersion codec clientName capabilities =
     bytes_of_string ''gorpc-auth-v1'' @ PutUint16 protocolVersion @ writeAuthString codec @
     writeAuthString clientName @ challenge @ concat (map writeAuthString capabilities)"

definition auth_sign ::
  "(bytes \<Rightarrow> bytes \<Rightarrow> bytes) \<Rightarrow> Auth \<Rightarrow> bytes \<Rightarrow> u16 \<Rightarrow> string \<Rightarrow> string \<Rightarrow> string list \<Rightarrow> bytes" where
  "auth_sign hmac a challenge protocolVersion codec clientName capabilities =
     hmac (sharedSecret a) (auth_transcript challenge protocolVersion codec clientName capabilities)"

definition auth_verify ::
  "(bytes \<Rightarrow> bytes \<Rightarrow> bytes) \<Rightarrow> Auth \<Rightarrow> bytes \<Rightarrow> u16 \<Rightarrow> string \<Rightarrow> string \<Rightarrow> bytes \<Rightarrow> string list \<Rightarrow> bool" where
  "auth_verify hmac a challenge protocolVersion codec clientName signature capabilities \<longleftrightarrow>
     auth_sign hmac a challenge protocolVersion codec clientName capabilities = signature"

subsection \<open>Facts\<close>

text \<open>Strings that fit the four-byte length of the transcript.\<close>

definition auth_short :: "string \<Rightarrow> bool" where
  "auth_short s \<longleftrightarrow> length s \<le> nat MaxUint32"

lemma writeAuthString_inject:
  assumes "auth_short s" "auth_short t" "writeAuthString s @ x = writeAuthString t @ y"
  shows "s = t \<and> x = y"
proof -
  from assms(3) have "word_of_nat (length s) = (word_of_nat (length t) :: u32)"
    by (simp add: writeAuthString_def)
  then have "length s = length t"
    using assms(1,2) by (metis auth_short_def unat_word_of_nat_32)
  with assms(3) show ?thesis by (simp add: writeAuthString_def)
qed

lemma writeAuthString_not_Nil: "writeAuthString s \<noteq> []"
  by (simp add: writeAuthString_def PutUint32_def)

lemma writeAuthStrings_inject:
  assumes "list_all auth_short ss" "list_all auth_short ts"
    and "concat (map writeAuthString ss) = concat (map writeAuthString ts)"
  shows "ss = ts"
  using assms
proof (induction ss arbitrary: ts)
  case Nil
  then show ?case using writeAuthString_not_Nil by (cases ts) auto
next
  case (Cons s ss)
  obtain t ts' where ts: "ts = t # ts'"
    using Cons.prems(3) writeAuthString_not_Nil [of s] by (cases ts) simp_all
  from Cons.prems ts have "s = t \<and> concat (map writeAuthString ss) = concat (map writeAuthString ts')"
    by (intro writeAuthString_inject) simp_all
  with Cons ts show ?case by simp
qed

text \<open>What of two transcripts agrees when they are equal, and all of it when the challenges have the same length.\<close>

lemma auth_transcript_inject:
  assumes "auth_short c" "auth_short c'" "auth_short n" "auth_short n'"
  shows "auth_transcript ch v c n k = auth_transcript ch' v' c' n' k' \<longleftrightarrow>
    v = v' \<and> c = c' \<and> n = n' \<and> ch @ concat (map writeAuthString k) = ch' @ concat (map writeAuthString k')"
proof
  assume t: "auth_transcript ch v c n k = auth_transcript ch' v' c' n' k'"
  then have v: "v = v'" and c: "writeAuthString c @ writeAuthString n @ ch @ concat (map writeAuthString k) =
      writeAuthString c' @ writeAuthString n' @ ch' @ concat (map writeAuthString k')"
    by (simp_all add: auth_transcript_def)
  from writeAuthString_inject [OF assms(1,2) c] have cc: "c = c'"
    and n: "writeAuthString n @ ch @ concat (map writeAuthString k) =
      writeAuthString n' @ ch' @ concat (map writeAuthString k')" by simp_all
  from writeAuthString_inject [OF assms(3,4) n] v cc
  show "v = v' \<and> c = c' \<and> n = n' \<and> ch @ concat (map writeAuthString k) = ch' @ concat (map writeAuthString k')" by simp
qed (simp add: auth_transcript_def)

lemma challenge_and_capabilities:
  assumes "list_all auth_short k" "list_all auth_short k'" "length ch = length ch'"
  shows "ch @ concat (map writeAuthString k) = ch' @ concat (map writeAuthString k') \<longleftrightarrow> ch = ch' \<and> k = k'"
  using writeAuthStrings_inject [OF assms(1,2)] assms(3) by auto

text \<open>C9. What a signature stands for. The server's verify accepts a signature exactly if it was made for the same
  protocol version, codec and client name and the same bytes of challenge followed by capabilities, or if two
  different transcripts collide under HMAC; the strings fit their four-byte lengths. Where the challenge
  that was signed has the length of the challenge of the server, which always issues 32 bytes, challenge and
  capability list are then both the same. For challenges of different lengths they need not be, because the boundary
  between them is not part of the transcript.\<close>

theorem auth_verify_binds:
  assumes short: "auth_short c" "auth_short c'" "auth_short n" "auth_short n'"
  shows "(auth_verify hmac a ch v c n (auth_sign hmac a ch' v' c' n' k') k \<longleftrightarrow>
     (v, c, n) = (v', c', n') \<and> ch @ concat (map writeAuthString k) = ch' @ concat (map writeAuthString k') \<or>
     (auth_transcript ch v c n k \<noteq> auth_transcript ch' v' c' n' k' \<and>
      hmac (sharedSecret a) (auth_transcript ch v c n k) = hmac (sharedSecret a) (auth_transcript ch' v' c' n' k'))) \<and>
   (list_all auth_short k \<and> list_all auth_short k' \<and> length ch = length ch' \<longrightarrow>
     (auth_verify hmac a ch v c n (auth_sign hmac a ch' v' c' n' k') k \<longleftrightarrow>
       (ch, v, c, n, k) = (ch', v', c', n', k') \<or>
       (auth_transcript ch v c n k \<noteq> auth_transcript ch' v' c' n' k' \<and>
        hmac (sharedSecret a) (auth_transcript ch v c n k) = hmac (sharedSecret a) (auth_transcript ch' v' c' n' k'))))"
  using auth_transcript_inject [OF short, of ch v k ch' v' k'] challenge_and_capabilities [of k k' ch ch']
  by (auto simp: auth_verify_def auth_sign_def)

theorem auth_verify_binds_witness:
  "\<not> auth_verify (\<lambda>key m. key @ m) \<lparr>sharedSecret = [1], auth_enabled = True\<rparr> [7, 7] 1 ''msgpack'' ''worker''
      (auth_sign (\<lambda>key m. key @ m) \<lparr>sharedSecret = [1], auth_enabled = True\<rparr> [7, 7] 1 ''msgpack'' ''worker'' [])
      [capabilityStreamCredit]"
proof -
  have "auth_short ''msgpack''" "auth_short ''worker''" "list_all auth_short [capabilityStreamCredit]"
    by (simp_all add: auth_short_def MaxUint32_def capabilityStreamCredit_def)
  with auth_verify_binds [of "''msgpack''" "''msgpack''" "''worker''" "''worker''"] writeAuthString_not_Nil show ?thesis by simp
qed

text \<open>The length condition on the challenge is needed, because the client signs whatever
  non-empty challenge it is sent: a challenge that ends with the encoding of a capability,
  signed with no capability, has the transcript of the shorter challenge with that
  capability, so the one signature verifies for both.\<close>

lemma auth_challenge_length_matters:
  "auth_verify hmac a ch v c n (auth_sign hmac a (ch @ writeAuthString cap) v c n []) [cap]"
  by (simp add: auth_verify_def auth_sign_def auth_transcript_def)

text \<open>The server's challenge is 32 bytes or an error.\<close>

lemma auth_challenge_length: "auth_challenge rand = (Inr c, rand') \<Longrightarrow> length c = 32"
  by (auto simp: auth_challenge_def io_ReadFull_def split: if_splits)

end
