(* ===== verification/Backpressure.thy ===== *)
theory Backpressure
  imports Protocol
begin

text \<open>
  Admission limits (\<^verbatim>\<open>backpressure.go\<close>). The write limiter is a channel used as a counting
  semaphore: \<open>wl_used\<close> of \<open>wl_cap\<close> slots are taken; a nil limiter is \<open>None\<close>.
  Of the user's callback only its presence matters to the library (\<open>OnBackpressure\<close>);
  \<open>reportBackpressure\<close> returns the calls it receives.
\<close>

record BackpressureInfo =
  bi_Side :: string
  bi_Reason :: string
  bi_Limit :: int
  bi_RequestID :: u64
  bi_Function :: string
  bi_FrameType :: FrameType

record BackpressureOptions =
  MaxPendingCalls :: int
  MaxActiveStreams :: int
  MaxConcurrentWrites :: int
  OnBackpressure :: bool

definition BackpressureSideClient :: string where "BackpressureSideClient = ''client''"
definition BackpressureSideServer :: string where "BackpressureSideServer = ''server''"
definition BackpressureReasonPendingCalls :: string where
  "BackpressureReasonPendingCalls = ''pending_calls''"
definition BackpressureReasonActiveStreams :: string where
  "BackpressureReasonActiveStreams = ''active_streams''"
definition BackpressureReasonConcurrentWrites :: string where
  "BackpressureReasonConcurrentWrites = ''concurrent_writes''"

record writeLimiter =
  wl_used :: nat
  wl_cap :: nat

definition isControlFrame :: "FrameType \<Rightarrow> bool" where
  "isControlFrame t \<longleftrightarrow>
     (case t of
        FrameCancel \<Rightarrow> True | FrameError \<Rightarrow> True | FramePing \<Rightarrow> True | FramePong \<Rightarrow> True
      | FrameStreamEnd \<Rightarrow> True | FrameStreamWindow \<Rightarrow> True
      | _ \<Rightarrow> False)"

definition newWriteLimiter :: "int \<Rightarrow> writeLimiter option" where
  "newWriteLimiter limit =
     (if limit \<le> 0 then None else Some \<lparr>wl_used = 0, wl_cap = nat limit\<rparr>)"

definition wl_acquire :: "writeLimiter option \<Rightarrow> bool \<times> writeLimiter option" where
  "wl_acquire l =
     (case l of
        None \<Rightarrow> (True, None)
      | Some w \<Rightarrow>
          if wl_used w < wl_cap w then (True, Some (w\<lparr>wl_used := wl_used w + 1\<rparr>))
          else (False, Some w))"

definition wl_release :: "writeLimiter option \<Rightarrow> writeLimiter option" where
  "wl_release l =
     (case l of
        None \<Rightarrow> None
      | Some w \<Rightarrow> if wl_used w > 0 then Some (w\<lparr>wl_used := wl_used w - 1\<rparr>) else Some w)"

definition normalizeBackpressureOptions :: "BackpressureOptions \<Rightarrow> BackpressureOptions" where
  "normalizeBackpressureOptions opts =
     (let opts = (if MaxPendingCalls opts < 0 then opts\<lparr>MaxPendingCalls := 0\<rparr> else opts);
          opts = (if MaxActiveStreams opts < 0 then opts\<lparr>MaxActiveStreams := 0\<rparr> else opts);
          opts = (if MaxConcurrentWrites opts < 0 then opts\<lparr>MaxConcurrentWrites := 0\<rparr> else opts)
      in opts)"

text \<open>A panic of the callback is recovered, so the outcome is the same whether it panics or not:
  the callback has been given the information if there is one.\<close>

definition reportBackpressure :: "BackpressureOptions \<Rightarrow> BackpressureInfo \<Rightarrow> BackpressureInfo list" where
  "reportBackpressure opts info = (if OnBackpressure opts then [info] else [])"

subsection \<open>Facts\<close>

lemma normalizeBackpressureOptions_nonneg:
  "0 \<le> MaxPendingCalls (normalizeBackpressureOptions o1)"
  "0 \<le> MaxActiveStreams (normalizeBackpressureOptions o1)"
  "0 \<le> MaxConcurrentWrites (normalizeBackpressureOptions o1)"
  by (simp_all add: normalizeBackpressureOptions_def Let_def)

lemma wl_acquire_release: "wl_acquire l = (True, l') \<Longrightarrow> wl_release l' = l"
  by (cases l) (auto simp: wl_acquire_def wl_release_def split: if_splits)

end
