(* ===== verification/Endpoint.thy ===== *)
theory Endpoint
  imports Handlers Auth Backpressure
begin

text \<open>
  What the dialing side (\<^verbatim>\<open>Client\<close>, \<^verbatim>\<open>client.go\<close>) and the accepting side (\<^verbatim>\<open>Conn\<close>, \<^verbatim>\<open>server.go\<close>) of a
  connection have in common. The source has the two side by side, with the same bodies up to
  the connection they write to; here the shared bodies are definitions over the record
  \<open>Endpoint\<close>, which \<open>Conn\<close> and \<open>Client\<close> extend, and over a \<open>link\<close>: the
  operations that differ (allocating a request id, writing a frame, handling a failed write,
  tracking an inbound request). The theories \<open>Server_Conn\<close> and \<open>Client_Conn\<close> define
  the two links and instantiate every operation.

  Streams live in a heap, because \<^verbatim>\<open>removeStream\<close> compares pointers and a stream may outlive its
  entry in the table: \<open>streams\<close> maps request ids to references and \<open>heap\<close> maps
  references to the stream and to whether its completion also removes the pending call (the
  \<^verbatim>\<open>onDone\<close> closure of an outbound client stream). Calls to code outside of the connection are
  events, in order: a response handed to a waiting call, a backpressure report, a cancelled
  context, a frame that a stream writes, a handler goroutine started, the socket closed, a
  connection attempt cancelled.
\<close>

subsection \<open>Configuration and state\<close>

record 'v Config = "'v Registry" +
  cf_mc :: msgpcode
  cf_lib :: "'v Codec"
  cf_compressor :: "Compressor option"
  cf_maxFrameSize :: int
  cf_auth :: Auth
  cf_writeTimeout :: int
  cf_backpressure :: BackpressureOptions
  cf_streamOptions :: StreamOptions
  cf_unaryInterceptor :: "UnaryInterceptor option"
  cf_notifyInterceptor :: "NotifyInterceptor option"
  cf_streamInterceptor :: "StreamInterceptor option"

datatype pendingCall = SyncPending nat | AsyncPending string string nat

datatype job =
    JobUnary Frame nat
  | JobNotify Frame nat
  | JobServerStream Frame nat nat
  | JobClientStream Frame nat nat
  | JobBidiStream Frame nat nat

datatype event =
    EvDeliver u64 pendingCall clientResponse
  | EvReport BackpressureInfo
  | EvCancelCtx nat
  | EvStreamWrite nat Frame
  | EvSpawnWrite nat Frame
  | EvSpawn job
  | EvNetClose
  | EvCancelConnect

record 'v Endpoint =
  e_writer :: Writer
  e_compressor :: "Compressor option"
  e_deadlineErr :: "gerror option"
  e_nextID :: u64
  e_limiter :: "writeLimiter option"
  e_pending :: "(u64 \<times> pendingCall) list"
  e_requests :: "(u64 \<times> nat) list"
  e_streams :: "(u64 \<times> nat) list"
  e_heap :: "nat \<Rightarrow> ('v Stream \<times> bool) option"
  e_nextRef :: nat
  e_nextCtx :: nat
  e_closed :: bool
  e_closeErr :: "gerror option"

text \<open>A context as the code uses it: the error once it is done, and the deadline.\<close>

record ctx =
  ctx_err :: "gerror option"
  ctx_deadline :: "int option"

definition backgroundContext :: ctx where
  "backgroundContext = \<lparr>ctx_err = None, ctx_deadline = None\<rparr>"

definition normalizeContext :: "ctx option \<Rightarrow> ctx" where
  "normalizeContext c = (case c of None \<Rightarrow> backgroundContext | Some c \<Rightarrow> c)"

definition with_deadline :: "ctx \<Rightarrow> Frame \<Rightarrow> Frame" where
  "with_deadline c frame = (case ctx_deadline c of None \<Rightarrow> frame | Some d \<Rightarrow> frame\<lparr>DeadlineUnixNano := d\<rparr>)"

definition closedError :: "('v, 'm) Endpoint_scheme \<Rightarrow> gerror" where
  "closedError e = (case e_closeErr e of None \<Rightarrow> Sentinel ErrClosed | Some err \<Rightarrow> err)"

subsection \<open>Pending calls\<close>

definition deliverPending :: "u64 \<Rightarrow> pendingCall \<Rightarrow> clientResponse \<Rightarrow> event list" where
  "deliverPending requestID p response = [EvDeliver requestID p response]"

definition addPending ::
  "string \<Rightarrow> BackpressureOptions \<Rightarrow> u64 \<Rightarrow> pendingCall \<Rightarrow> ('v, 'm) Endpoint_scheme \<Rightarrow>
   gerror option \<times> ('v, 'm) Endpoint_scheme \<times> event list" where
  "addPending side bp requestID p e =
     (if e_closed e then (Some (closedError e), e, [])
      else if MaxPendingCalls bp > 0 \<and> int (length (e_pending e)) \<ge> MaxPendingCalls bp
      then (Some (Sentinel ErrBackpressure), e,
            map EvReport (reportBackpressure bp \<lparr>bi_Side = side, bi_Reason = BackpressureReasonPendingCalls,
              bi_Limit = MaxPendingCalls bp, bi_RequestID = requestID, bi_Function = '''', bi_FrameType = FrameOther 0\<rparr>))
      else (None, e\<lparr>e_pending := tbl_put requestID p (e_pending e)\<rparr>, []))"

definition removePending :: "u64 \<Rightarrow> ('v, 'm) Endpoint_scheme \<Rightarrow> ('v, 'm) Endpoint_scheme" where
  "removePending requestID e = e\<lparr>e_pending := tbl_del requestID (e_pending e)\<rparr>"

definition complete ::
  "u64 \<Rightarrow> clientResponse \<Rightarrow> ('v, 'm) Endpoint_scheme \<Rightarrow> bool \<times> ('v, 'm) Endpoint_scheme \<times> event list" where
  "complete requestID response e =
     (case map_of (e_pending e) requestID of
        None \<Rightarrow> (False, e, [])
      | Some p \<Rightarrow> (True, e\<lparr>e_pending := tbl_del requestID (e_pending e)\<rparr>, deliverPending requestID p response))"

definition failPending ::
  "gerror option \<Rightarrow> ('v, 'm) Endpoint_scheme \<Rightarrow> ('v, 'm) Endpoint_scheme \<times> event list" where
  "failPending err e =
     (let err = (case err of None \<Rightarrow> Sentinel ErrUnavailable | Some x \<Rightarrow> x) in
      (e\<lparr>e_pending := []\<rparr>,
       concat (map (\<lambda>(requestID, p). deliverPending requestID p \<lparr>cr_frame = zeroFrame, cr_err = Some err\<rparr>)
         (e_pending e))))"

text \<open>An asynchronous handler, as reflection sees it.\<close>

record asyncHandler =
  ah_isFunc :: bool
  ah_isNil :: bool
  ah_numIn :: nat
  ah_numOut :: nat
  ah_in0_ClientContext :: bool
  ah_in1_pointer :: bool
  ah_id :: nat

definition newAsyncPendingCall :: "string \<Rightarrow> string \<Rightarrow> asyncHandler option \<Rightarrow> pendingCall res" where
  "newAsyncPendingCall function correlationID h =
     (case h of
        None \<Rightarrow> Inl (Errorf_suffix ErrInvalidHandler ''handler is nil'')
      | Some h \<Rightarrow>
          if \<not> ah_isFunc h \<or> ah_isNil h
          then Inl (Errorf_suffix ErrInvalidHandler ''handler must be func(gorpc.ClientContext, *Response)'')
          else if ah_numIn h \<noteq> 2 \<or> ah_numOut h \<noteq> 0
          then Inl (Errorf_suffix ErrInvalidHandler ''handler must be func(gorpc.ClientContext, *Response)'')
          else if \<not> ah_in0_ClientContext h
          then Inl (Errorf_suffix ErrInvalidHandler ''first handler argument must be gorpc.ClientContext'')
          else if \<not> ah_in1_pointer h
          then Inl (Errorf_suffix ErrInvalidHandler ''second handler argument must be *Response'')
          else Inr (AsyncPending function correlationID (ah_id h)))"

record clientContext =
  cc_correlationID :: string
  cc_requestID :: u64
  cc_function :: string
  cc_err :: "gerror option"

text \<open>\<^verbatim>\<open>invokeAsyncHandler\<close>: the context and the response the handler is called with.\<close>

definition invokeAsyncHandler ::
  "'v Codec \<Rightarrow> u64 \<Rightarrow> string \<Rightarrow> string \<Rightarrow> clientResponse \<Rightarrow> clientContext \<times> 'v option" where
  "invokeAsyncHandler codec requestID function correlationID response =
     (let (err, resp) = (case cr_err response of
            Some e \<Rightarrow> (Some e, None)
          | None \<Rightarrow> (case decodeResponse codec (cr_frame response) of
                       Inl e \<Rightarrow> (Some e, None)
                     | Inr v \<Rightarrow> (None, Some v)))
      in (\<lparr>cc_correlationID = correlationID, cc_requestID = requestID, cc_function = function, cc_err = err\<rparr>, resp))"

subsection \<open>Streams of a connection\<close>

definition the_stream :: "nat \<Rightarrow> ('v, 'm) Endpoint_scheme \<Rightarrow> 'v Stream option" where
  "the_stream ref e = map_option fst (e_heap e ref)"

definition alloc_stream ::
  "'v Stream \<Rightarrow> bool \<Rightarrow> ('v, 'm) Endpoint_scheme \<Rightarrow> nat \<times> ('v, 'm) Endpoint_scheme" where
  "alloc_stream s dropPending e =
     (e_nextRef e, e\<lparr>e_heap := (e_heap e)(e_nextRef e \<mapsto> (s, dropPending)), e_nextRef := Suc (e_nextRef e)\<rparr>)"

definition put_stream :: "nat \<Rightarrow> 'v Stream \<Rightarrow> ('v, 'm) Endpoint_scheme \<Rightarrow> ('v, 'm) Endpoint_scheme" where
  "put_stream ref s e =
     (case e_heap e ref of
        None \<Rightarrow> e
      | Some (_, d) \<Rightarrow> e\<lparr>e_heap := (e_heap e)(ref \<mapsto> (s, d))\<rparr>)"

definition addStream ::
  "string \<Rightarrow> BackpressureOptions \<Rightarrow> nat \<Rightarrow> ('v, 'm) Endpoint_scheme \<Rightarrow>
   gerror option \<times> ('v, 'm) Endpoint_scheme \<times> event list" where
  "addStream side bp ref e =
     (case the_stream ref e of
        None \<Rightarrow> (Some (Sentinel ErrClosed), e, [])
      | Some s \<Rightarrow>
          if e_closed e then (Some (closedError e), e, [])
          else if MaxActiveStreams bp > 0 \<and> int (length (e_streams e)) \<ge> MaxActiveStreams bp
          then (Some (Sentinel ErrBackpressure), e,
                map EvReport (reportBackpressure bp \<lparr>bi_Side = side, bi_Reason = BackpressureReasonActiveStreams,
                  bi_Limit = MaxActiveStreams bp, bi_RequestID = s_requestID s, bi_Function = s_function s,
                  bi_FrameType = FrameOther 0\<rparr>))
          else if map_of (e_streams e) (s_requestID s) \<noteq> None
          then (Some (Errorf_suffix ErrProtocol ''duplicate stream request ID''), e, [])
          else (None, e\<lparr>e_streams := tbl_put (s_requestID s) ref (e_streams e)\<rparr>, []))"

definition removeStream :: "nat \<Rightarrow> ('v, 'm) Endpoint_scheme \<Rightarrow> ('v, 'm) Endpoint_scheme" where
  "removeStream ref e =
     (case the_stream ref e of
        None \<Rightarrow> e
      | Some s \<Rightarrow>
          if map_of (e_streams e) (s_requestID s) = Some ref
          then e\<lparr>e_streams := tbl_del (s_requestID s) (e_streams e)\<rparr>
          else e)"

definition findStream :: "u64 \<Rightarrow> ('v, 'm) Endpoint_scheme \<Rightarrow> nat option" where
  "findStream requestID e = map_of (e_streams e) requestID"

text \<open>The \<^verbatim>\<open>onDone\<close> closure of a stream, and an operation on a stream of the heap with its effects.\<close>

definition on_done :: "nat \<Rightarrow> ('v, 'm) Endpoint_scheme \<Rightarrow> ('v, 'm) Endpoint_scheme" where
  "on_done ref e =
     (case e_heap e ref of
        None \<Rightarrow> e
      | Some (s, dropPending) \<Rightarrow>
          removeStream ref (if dropPending then removePending (s_requestID s) e else e))"

fun run_effects :: "nat \<Rightarrow> effect list \<Rightarrow> ('v, 'm) Endpoint_scheme \<Rightarrow> ('v, 'm) Endpoint_scheme \<times> event list" where
  "run_effects ref [] e = (e, [])"
| "run_effects ref (OnDone r # es) e = run_effects ref es (on_done ref e)"
| "run_effects ref (SpawnWrite f # es) e =
     (case run_effects ref es e of (e, evs) \<Rightarrow> (e, EvSpawnWrite ref f # evs))"
| "run_effects ref (Write f # es) e =
     (case run_effects ref es e of (e, evs) \<Rightarrow> (e, EvStreamWrite ref f # evs))"

definition on_stream ::
  "nat \<Rightarrow> ('v Stream \<Rightarrow> 'v Stream \<times> effect list) \<Rightarrow> ('v, 'm) Endpoint_scheme \<Rightarrow>
   ('v, 'm) Endpoint_scheme \<times> event list" where
  "on_stream ref g e =
     (case the_stream ref e of
        None \<Rightarrow> (e, [])
      | Some s \<Rightarrow> (case g s of (s, es) \<Rightarrow> run_effects ref es (put_stream ref s e)))"

definition finish_stream ::
  "nat \<Rightarrow> gerror \<Rightarrow> ('v, 'm) Endpoint_scheme \<Rightarrow> ('v, 'm) Endpoint_scheme \<times> event list" where
  "finish_stream ref err e = on_stream ref (\<lambda>s. case finish err s of (_, s, es) \<Rightarrow> (s, es)) e"

definition deliverStreamFrame ::
  "'v Codec \<Rightarrow> Frame \<Rightarrow> ('v, 'm) Endpoint_scheme \<Rightarrow> bool \<times> ('v, 'm) Endpoint_scheme \<times> event list" where
  "deliverStreamFrame codec frame e =
     (case findStream (RequestID frame) e of
        None \<Rightarrow> (False, e, [])
      | Some ref \<Rightarrow>
          (case the_stream ref e of
             None \<Rightarrow> (False, e, [])
           | Some s \<Rightarrow>
               (case Type frame of
                  FrameStreamItem \<Rightarrow>
                    if \<not> receivesItems s then (False, e, []) else (True, on_stream ref (deliverItem frame) e)
                | FrameStreamEnd \<Rightarrow>
                    if \<not> receivesItems s then (False, e, []) else (True, on_stream ref deliverEnd e)
                | FrameStreamWindow \<Rightarrow>
                    (True, on_stream ref (\<lambda>s. case acceptCredit frame s of
                         (None, s) \<Rightarrow> (s, []) | (Some err, s) \<Rightarrow> abort err s) e)
                | FrameError \<Rightarrow>
                    (True, on_stream ref (deliverError (Some (remoteErrorFromFrame codec frame))) e)
                | _ \<Rightarrow> (False, e, []))))"

fun deliver_errors ::
  "gerror \<Rightarrow> (u64 \<times> nat) list \<Rightarrow> ('v, 'm) Endpoint_scheme \<Rightarrow> ('v, 'm) Endpoint_scheme \<times> event list" where
  "deliver_errors err [] e = (e, [])"
| "deliver_errors err ((_, ref) # xs) e =
     (case on_stream ref (deliverError (Some err)) e of
        (e, evs) \<Rightarrow> (case deliver_errors err xs e of (e, evs') \<Rightarrow> (e, evs @ evs')))"

definition failStreams ::
  "gerror option \<Rightarrow> ('v, 'm) Endpoint_scheme \<Rightarrow> ('v, 'm) Endpoint_scheme \<times> event list" where
  "failStreams err e =
     deliver_errors (case err of None \<Rightarrow> Sentinel ErrUnavailable | Some x \<Rightarrow> x) (e_streams e) (e\<lparr>e_streams := []\<rparr>)"

subsection \<open>Inbound requests\<close>

definition cancel_request ::
  "u64 \<Rightarrow> ('v, 'm) Endpoint_scheme \<Rightarrow> ('v, 'm) Endpoint_scheme \<times> event list" where
  "cancel_request requestID e =
     (let (e, evs) = (case findStream requestID e of
            None \<Rightarrow> (e, [])
          | Some ref \<Rightarrow> on_stream ref (deliverError (Some (Sentinel ContextCanceled))) e)
      in (e, evs @ (case map_of (e_requests e) requestID of None \<Rightarrow> [] | Some k \<Rightarrow> [EvCancelCtx k])))"

definition cancelRequests :: "('v, 'm) Endpoint_scheme \<Rightarrow> ('v, 'm) Endpoint_scheme \<times> event list" where
  "cancelRequests e = (e\<lparr>e_requests := []\<rparr>, map (\<lambda>(_, k). EvCancelCtx k) (e_requests e))"

subsection \<open>A sample configuration\<close>

text \<open>Used by the witnesses: the sample codec, an echo function, small limits.\<close>

definition sampleConfig :: "bytes Config" where
  "sampleConfig =
     \<lparr>reg_codec = sampleCodec, handlers = [''echo'' \<mapsto> wrapHandler sampleCodec (\<lambda>_ v. HVal v)],
      notifyHandlers = (\<lambda>_. None), serverStreamHandlers = (\<lambda>_. None), clientStreamHandlers = (\<lambda>_. None),
      bidiStreamHandlers = (\<lambda>_. None), cf_mc = msgpcode_spec, cf_lib = sampleCodec, cf_compressor = None,
      cf_maxFrameSize = 0, cf_auth = noAuth, cf_writeTimeout = 0,
      cf_backpressure = \<lparr>MaxPendingCalls = 2, MaxActiveStreams = 1, MaxConcurrentWrites = 1, OnBackpressure = True\<rparr>,
      cf_streamOptions = \<lparr>RecvBuffer = 2, RecvBytes = 64\<rparr>, cf_unaryInterceptor = None,
      cf_notifyInterceptor = None, cf_streamInterceptor = None\<rparr>"

end
