(* ===== verification/Link_Ops.thy ===== *)
theory Link_Ops
  imports Endpoint
begin

text \<open>
  The operations of a connection that write frames, over a \<open>link\<close>: outbound calls,
  notifications and streams; replies to inbound requests and the dispatch of inbound frames.
  A handler goroutine is an \<open>EvSpawn\<close> event when it starts; what it does once the handler
  has returned is a definition of its own (\<open>runRequest\<close>, \<open>runServerStream\<close>, ...).
\<close>

record ('v, 'e) link =
  lk_side :: string
  lk_newID :: "'e \<Rightarrow> u64 \<times> 'e"
  lk_write :: "Frame \<Rightarrow> 'e \<Rightarrow> gerror option \<times> 'e \<times> event list"
  lk_onWriteError :: "gerror \<Rightarrow> 'e \<Rightarrow> 'e \<times> event list"
  lk_track :: "u64 \<Rightarrow> nat \<Rightarrow> 'e \<Rightarrow> bool \<times> 'e"
  lk_untrack :: "u64 \<Rightarrow> 'e \<Rightarrow> 'e"
  lk_flow :: "'e \<Rightarrow> bool"
  lk_context :: "'e \<Rightarrow> Context"

subsection \<open>Writing\<close>

text \<open>The write closure of a stream: write, and on an error let the connection handle it.\<close>

definition write_handled ::
  "('v, 'e) link \<Rightarrow> Frame \<Rightarrow> 'e \<Rightarrow> gerror option \<times> 'e \<times> event list" where
  "write_handled lk frame e =
     (case lk_write lk frame e of
        (None, e, evs) \<Rightarrow> (None, e, evs)
      | (Some err, e, evs) \<Rightarrow>
          (case lk_onWriteError lk err e of (e, evs') \<Rightarrow> (Some err, e, evs @ evs')))"

definition writeError ::
  "('v, 'e) link \<Rightarrow> 'v Codec \<Rightarrow> Frame \<Rightarrow> RemoteError \<Rightarrow> 'e \<Rightarrow> gerror option \<times> 'e \<times> event list" where
  "writeError lk codec request remoteErr e =
     (case MarshalRemoteError codec remoteErr of
        Inl err \<Rightarrow> (Some err, e, [])
      | Inr payload \<Rightarrow>
          write_handled lk (zeroFrame\<lparr>Type := FrameError, RequestID := RequestID request,
            Function := Function request, Payload := payload\<rparr>) e)"

definition rejectWith ::
  "('v, 'e) link \<Rightarrow> 'v Codec \<Rightarrow> Frame \<Rightarrow> string \<Rightarrow> string \<Rightarrow> 'e \<Rightarrow> 'e \<times> event list" where
  "rejectWith lk codec request code message e =
     (case writeError lk codec request (NewRemoteError code message []) e of (_, e, evs) \<Rightarrow> (e, evs))"

definition failWith ::
  "('v, 'e) link \<Rightarrow> 'v Codec \<Rightarrow> Frame \<Rightarrow> gerror \<Rightarrow> 'e \<Rightarrow> 'e \<times> event list" where
  "failWith lk codec request err e =
     (case writeError lk codec request (remoteErrorFromError (Some err)) e of (_, e, evs) \<Rightarrow> (e, evs))"

subsection \<open>Outbound calls\<close>

definition request_send ::
  "('v, ('v, 'm) Endpoint_scheme) link \<Rightarrow> BackpressureOptions \<Rightarrow> ctx \<Rightarrow> string \<Rightarrow> bytes \<Rightarrow> pendingCall \<Rightarrow>
   ('v, 'm) Endpoint_scheme \<Rightarrow> u64 res \<times> ('v, 'm) Endpoint_scheme \<times> event list" where
  "request_send lk bp ctx function payload p e =
     (let (requestID, e) = lk_newID lk e in
      case addPending (lk_side lk) bp requestID p e of
        (Some err, e, evs) \<Rightarrow> (Inl err, e, evs)
      | (None, e, evs) \<Rightarrow>
          (let frame = with_deadline ctx (zeroFrame\<lparr>Type := FrameRequest, RequestID := requestID,
                 Function := function, Payload := payload\<rparr>) in
           case lk_write lk frame e of
             (None, e, evs1) \<Rightarrow> (Inr requestID, e, evs @ evs1)
           | (Some err, e, evs1) \<Rightarrow>
               (case lk_onWriteError lk err (removePending requestID e) of
                  (e, evs2) \<Rightarrow> (Inl err, e, evs @ evs1 @ evs2))))"

definition notify_send ::
  "('v, 'e) link \<Rightarrow> ctx \<Rightarrow> string \<Rightarrow> bytes \<Rightarrow> 'e \<Rightarrow> u64 res \<times> 'e \<times> event list" where
  "notify_send lk ctx function payload e =
     (let (requestID, e) = lk_newID lk e;
          frame = with_deadline ctx (zeroFrame\<lparr>Type := FrameNotify, RequestID := requestID,
            Function := function, Payload := payload\<rparr>) in
      case write_handled lk frame e of
        (None, e, evs) \<Rightarrow> (Inr requestID, e, evs)
      | (Some err, e, evs) \<Rightarrow> (Inl err, e, evs))"

text \<open>What ends the wait of a call: a response, its context, or the connection's end.\<close>

datatype wake = WakeResponse clientResponse | WakeCtx gerror | WakeClosed

definition call_wait ::
  "('v, ('v, 'm) Endpoint_scheme) link option \<Rightarrow> u64 \<Rightarrow> wake \<Rightarrow> ('v, 'm) Endpoint_scheme \<Rightarrow>
   Frame res \<times> ('v, 'm) Endpoint_scheme \<times> event list" where
  "call_wait lk requestID w e =
     (case w of
        WakeResponse r \<Rightarrow> (case cr_err r of Some err \<Rightarrow> (Inl err, e, []) | None \<Rightarrow> (Inr (cr_frame r), e, []))
      | WakeCtx err \<Rightarrow>
          (let e = removePending requestID e in
           case lk of
             None \<Rightarrow> (Inl err, e, [])
           | Some lk \<Rightarrow>
               (case write_handled lk (zeroFrame\<lparr>Type := FrameCancel, RequestID := requestID\<rparr>) e of
                  (_, e, evs) \<Rightarrow> (Inl err, e, evs)))
      | WakeClosed \<Rightarrow> (let e = removePending requestID e in (Inl (closedError e), e, [])))"

subsection \<open>Outbound streams\<close>

definition start_outbound ::
  "('v, ('v, 'm) Endpoint_scheme) link \<Rightarrow> ('v, 'c) Config_scheme \<Rightarrow> ctx \<Rightarrow> StreamKind \<Rightarrow> u64 \<Rightarrow> string \<Rightarrow> bytes \<Rightarrow>
   StreamOptions \<Rightarrow> bool \<Rightarrow> ('v, 'm) Endpoint_scheme \<Rightarrow> nat res \<times> ('v, 'm) Endpoint_scheme \<times> event list" where
  "start_outbound lk cfg ctx kind requestID function payload opts dropPending e =
     (let s = configure kind True (lk_flow lk e)
            (newStreamWithOptions (cf_mc cfg) (cf_lib cfg) (ctx_err ctx) requestID function (Some (reg_codec cfg))
               (mergeStreamOptions (cf_streamOptions cfg) opts));
          (ref, e) = alloc_stream s dropPending e in
      case addStream (lk_side lk) (cf_backpressure cfg) ref e of
        (Some err, e, evs) \<Rightarrow> (Inl err, put_stream ref (cancel_ctx err s) e, evs)
      | (None, e, evs) \<Rightarrow>
          (let frame = with_deadline ctx (receiveWindow s (zeroFrame\<lparr>Type := FrameStreamStart, fStreamKind := kind,
                 RequestID := requestID, Function := function, Payload := payload\<rparr>)) in
           case lk_write lk frame e of
             (None, e, evs1) \<Rightarrow> (Inr ref, e, evs @ evs1)
           | (Some err, e, evs1) \<Rightarrow>
               (let e = (if dropPending then removePending requestID e else e);
                    (e, evs2) = finish_stream ref (Errorf_suffix ErrUnavailable (error_text err)) e;
                    (e, evs3) = lk_onWriteError lk err e
                in (Inl err, e, evs @ evs1 @ evs2 @ evs3))))"

definition open_server_stream where
  "open_server_stream lk cfg ctx function payload opts e =
     (let (requestID, e) = lk_newID lk e
      in start_outbound lk cfg ctx StreamKindServer requestID function payload opts False e)"

definition open_bidi_stream where
  "open_bidi_stream lk cfg ctx function opts e =
     (let (requestID, e) = lk_newID lk e
      in start_outbound lk cfg ctx StreamKindBidi requestID function [] opts False e)"

definition open_client_stream ::
  "('v, ('v, 'm) Endpoint_scheme) link \<Rightarrow> ('v, 'c) Config_scheme \<Rightarrow> ctx \<Rightarrow> string \<Rightarrow> StreamOptions \<Rightarrow> nat \<Rightarrow>
   ('v, 'm) Endpoint_scheme \<Rightarrow> nat res \<times> ('v, 'm) Endpoint_scheme \<times> event list" where
  "open_client_stream lk cfg ctx function opts ch e =
     (let (requestID, e) = lk_newID lk e in
      case addPending (lk_side lk) (cf_backpressure cfg) requestID (SyncPending ch) e of
        (Some err, e, evs) \<Rightarrow> (Inl err, e, evs)
      | (None, e, evs) \<Rightarrow>
          (case start_outbound lk cfg ctx StreamKindClient requestID function [] opts True e of
             (Inr ref, e, evs1) \<Rightarrow> (Inr ref, e, evs @ evs1)
           | (Inl err, e, evs1) \<Rightarrow> (Inl err, removePending requestID e, evs @ evs1)))"

subsection \<open>Inbound requests and notifications\<close>

definition rpcContext ::
  "('v, 'e) link \<Rightarrow> Frame \<Rightarrow> bool \<Rightarrow> bool \<Rightarrow> StreamKind \<Rightarrow> 'e \<Rightarrow> Context" where
  "rpcContext lk frame notify stream kind e =
     (lk_context lk e)\<lparr>rc_deadline := contextFromFrame frame, rc_requestID := RequestID frame,
        rc_function := Function frame, rc_notify := notify, rc_stream := stream, rc_streamKind := kind\<rparr>"

definition new_ctx :: "('v, 'm) Endpoint_scheme \<Rightarrow> nat \<times> ('v, 'm) Endpoint_scheme" where
  "new_ctx e = (e_nextCtx e, e\<lparr>e_nextCtx := Suc (e_nextCtx e)\<rparr>)"

definition startRequest ::
  "('v, ('v, 'm) Endpoint_scheme) link \<Rightarrow> ('v, 'c) Config_scheme \<Rightarrow> Frame \<Rightarrow> ('v, 'm) Endpoint_scheme \<Rightarrow>
   ('v, 'm) Endpoint_scheme \<times> event list" where
  "startRequest lk cfg frame e =
     (if RequestID frame = 0
      then rejectWith lk (reg_codec cfg) frame ErrorCodeInvalidRequest ''request_id is required'' e
      else if Function frame = ''''
      then rejectWith lk (reg_codec cfg) frame ErrorCodeInvalidRequest ''function is required'' e
      else
        (case handlers cfg (Function frame) of
           None \<Rightarrow> rejectWith lk (reg_codec cfg) frame ErrorCodeNotFound
                    (''function '' @ go_quote (Function frame) @ '' is not registered'') e
         | Some h \<Rightarrow>
             (let (k, e) = new_ctx e; (ok, e) = lk_track lk (RequestID frame) k e in
              if \<not> ok then (e, [EvCancelCtx k]) else (e, [EvSpawn (JobUnary frame k)]))))"

text \<open>The deferred tail of a handler goroutine: cancel the context, untrack the request.\<close>

definition end_handler :: "('v, 'e) link \<Rightarrow> Frame \<Rightarrow> nat \<Rightarrow> 'e \<times> event list \<Rightarrow> 'e \<times> event list" where
  "end_handler lk frame k r = (case r of (e, evs) \<Rightarrow> (lk_untrack lk (RequestID frame) e, evs @ [EvCancelCtx k]))"

definition reply ::
  "('v, 'e) link \<Rightarrow> 'v Codec \<Rightarrow> Frame \<Rightarrow> bytes \<Rightarrow> 'e \<Rightarrow> 'e \<times> event list" where
  "reply lk codec frame payload e =
     (case write_handled lk (zeroFrame\<lparr>Type := FrameResponse, RequestID := RequestID frame,
             Function := Function frame, Payload := payload\<rparr>) e of
        (None, e, evs) \<Rightarrow> (e, evs)
      | (Some err, e, evs) \<Rightarrow>
          if errors_Is err ErrBackpressure \<or> errors_Is err ErrFrameTooLarge
          then (case failWith lk codec frame err e of (e, evs') \<Rightarrow> (e, evs @ evs'))
          else (e, evs))"

definition runRequest ::
  "('v, 'e) link \<Rightarrow> ('v, 'c) Config_scheme \<Rightarrow> Frame \<Rightarrow> nat \<Rightarrow> handler \<Rightarrow> 'e \<Rightarrow> 'e \<times> event list" where
  "runRequest lk cfg frame k h e =
     end_handler lk frame k
       (case invokeUnary (rpcContext lk frame False False (StreamKindOther 0) e) (Payload frame) h
               (cf_unaryInterceptor cfg) of
          HPanic t \<Rightarrow> rejectWith lk (reg_codec cfg) frame ErrorCodeInternal (''handler panic: '' @ t) e
        | HErr err \<Rightarrow> failWith lk (reg_codec cfg) frame err e
        | HVal payload \<Rightarrow> reply lk (reg_codec cfg) frame payload e)"

definition startNotify ::
  "('v, ('v, 'm) Endpoint_scheme) link \<Rightarrow> ('v, 'c) Config_scheme \<Rightarrow> Frame \<Rightarrow> ('v, 'm) Endpoint_scheme \<Rightarrow>
   ('v, 'm) Endpoint_scheme \<times> event list" where
  "startNotify lk cfg frame e =
     (if RequestID frame = 0 \<or> Function frame = '''' then (e, [])
      else
        (case notifyHandlers cfg (Function frame) of
           None \<Rightarrow> (e, [])
         | Some h \<Rightarrow>
             (let (k, e) = new_ctx e; (ok, e) = lk_track lk (RequestID frame) k e in
              if \<not> ok then (e, [EvCancelCtx k]) else (e, [EvSpawn (JobNotify frame k)]))))"

text \<open>The outcome of a notification handler is only logged.\<close>

definition runNotify ::
  "('v, 'e) link \<Rightarrow> Frame \<Rightarrow> nat \<Rightarrow> 'e \<Rightarrow> 'e \<times> event list" where
  "runNotify lk frame k e = end_handler lk frame k (e, [])"

subsection \<open>Inbound streams\<close>

definition inbound_stream ::
  "('v, 'e) link \<Rightarrow> ('v, 'c) Config_scheme \<Rightarrow> StreamKind \<Rightarrow> Frame \<Rightarrow> 'e \<Rightarrow> 'v Stream" where
  "inbound_stream lk cfg kind frame e =
     configure kind False (lk_flow lk e)
       (newStreamWithOptions (cf_mc cfg) (cf_lib cfg) None (RequestID frame) (Function frame)
          (Some (reg_codec cfg)) (cf_streamOptions cfg))"

definition accept_start :: "Frame \<Rightarrow> 'v Stream \<Rightarrow> gerror option \<times> 'v Stream" where
  "accept_start frame s =
     (if flow s \<noteq> None \<and> sendsItems s then acceptCredit frame s else (None, s))"

text \<open>What the three start functions have in common after the handler was found: the stream, the
  credit of the start frame, the table, the request table, the goroutine.\<close>

definition start_inbound ::
  "('v, ('v, 'm) Endpoint_scheme) link \<Rightarrow> ('v, 'c) Config_scheme \<Rightarrow> (Frame \<Rightarrow> nat \<Rightarrow> nat \<Rightarrow> job) \<Rightarrow>
   gerror option \<times> 'v Stream \<Rightarrow> Frame \<Rightarrow> ('v, 'm) Endpoint_scheme \<Rightarrow> ('v, 'm) Endpoint_scheme \<times> event list" where
  "start_inbound lk cfg job accepted frame e =
     (let (k, e) = new_ctx e in
      case accepted of
        (Some err, s) \<Rightarrow>
          (case failWith lk (reg_codec cfg) frame err e of (e, evs) \<Rightarrow> (e, evs @ [EvCancelCtx k]))
      | (None, s) \<Rightarrow>
          (let (ref, e) = alloc_stream s False e in
           case addStream (lk_side lk) (cf_backpressure cfg) ref e of
             (Some err, e, evs) \<Rightarrow>
               (case failWith lk (reg_codec cfg) frame err e of (e, evs') \<Rightarrow> (e, evs @ evs' @ [EvCancelCtx k]))
           | (None, e, evs) \<Rightarrow>
               (let (ok, e) = lk_track lk (RequestID frame) k e in
                if \<not> ok then
                  (case finish_stream ref (Sentinel ErrUnavailable) e of (e, evs') \<Rightarrow> (e, evs @ EvCancelCtx k # evs'))
                else (e, evs @ [EvSpawn (job frame k ref)]))))"

definition streamNotFound ::
  "('v, 'e) link \<Rightarrow> 'v Codec \<Rightarrow> Frame \<Rightarrow> 'e \<Rightarrow> 'e \<times> event list" where
  "streamNotFound lk codec frame e =
     rejectWith lk codec frame ErrorCodeNotFound
       (''stream function '' @ go_quote (Function frame) @ '' is not registered'') e"

definition startServerStream where
  "startServerStream lk cfg frame e =
     (case serverStreamHandlers cfg (Function frame) of
        None \<Rightarrow> streamNotFound lk (reg_codec cfg) frame e
      | Some h \<Rightarrow>
          start_inbound lk cfg JobServerStream (accept_start frame (inbound_stream lk cfg StreamKindServer frame e)) frame e)"

definition startClientStream where
  "startClientStream lk cfg frame e =
     (case clientStreamHandlers cfg (Function frame) of
        None \<Rightarrow> streamNotFound lk (reg_codec cfg) frame e
      | Some h \<Rightarrow>
          start_inbound lk cfg JobClientStream (None, inbound_stream lk cfg StreamKindClient frame e) frame e)"

definition startBidiStream where
  "startBidiStream lk cfg frame e =
     (case bidiStreamHandlers cfg (Function frame) of
        None \<Rightarrow> streamNotFound lk (reg_codec cfg) frame e
      | Some h \<Rightarrow>
          start_inbound lk cfg JobBidiStream (accept_start frame (inbound_stream lk cfg StreamKindBidi frame e)) frame e)"

definition startStream where
  "startStream lk cfg frame e =
     (if RequestID frame = 0
      then rejectWith lk (reg_codec cfg) frame ErrorCodeInvalidRequest ''request_id is required'' e
      else if Function frame = ''''
      then rejectWith lk (reg_codec cfg) frame ErrorCodeInvalidRequest ''function is required'' e
      else
        (case fStreamKind frame of
           StreamKindServer \<Rightarrow> startServerStream lk cfg frame e
         | StreamKindClient \<Rightarrow> startClientStream lk cfg frame e
         | StreamKindBidi \<Rightarrow> startBidiStream lk cfg frame e
         | _ \<Rightarrow> rejectWith lk (reg_codec cfg) frame ErrorCodeInvalidRequest
                  (''unsupported stream kind '' @ go_quote (StreamKind_String (fStreamKind frame))) e))"

text \<open>\<^verbatim>\<open>CloseSend\<close> and \<^verbatim>\<open>grantInitialCredit\<close> on a stream of the heap, writing on the link: a failed write
  may end the stream through the connection before \<^verbatim>\<open>CloseSend\<close> records it.\<close>

definition close_send ::
  "('v, ('v, 'm) Endpoint_scheme) link \<Rightarrow> nat \<Rightarrow> ('v, 'm) Endpoint_scheme \<Rightarrow> ('v, 'm) Endpoint_scheme \<times> event list" where
  "close_send lk ref e =
     (case the_stream ref e of
        None \<Rightarrow> (e, [])
      | Some s \<Rightarrow>
          if \<not> sendsItems s \<or> closeSendOnce s then (e, [])
          else
            (let s = CloseSend_begin s; e = put_stream ref s e;
                 (err, e, evs) = (case s_ctx s of
                    Some err \<Rightarrow> (Some err, e, [])
                  | None \<Rightarrow> write_handled lk (streamFrame FrameStreamEnd s []) e);
                 (e, evs') = on_stream ref (CloseSend_finish err) e
             in (e, evs @ evs')))"

definition grant_initial ::
  "('v, ('v, 'm) Endpoint_scheme) link \<Rightarrow> nat \<Rightarrow> ('v, 'm) Endpoint_scheme \<Rightarrow>
   gerror option \<times> ('v, 'm) Endpoint_scheme \<times> event list" where
  "grant_initial lk ref e =
     (case the_stream ref e of
        None \<Rightarrow> (None, e, [])
      | Some s \<Rightarrow>
          if flow s = None \<or> \<not> receivesItems s then (None, e, [])
          else write_handled lk (receiveWindow s (zeroFrame\<lparr>Type := FrameStreamWindow, RequestID := s_requestID s\<rparr>)) e)"

definition end_stream_handler ::
  "('v, ('v, 'm) Endpoint_scheme) link \<Rightarrow> Frame \<Rightarrow> nat \<Rightarrow> nat \<Rightarrow> ('v, 'm) Endpoint_scheme \<times> event list \<Rightarrow>
   ('v, 'm) Endpoint_scheme \<times> event list" where
  "end_stream_handler lk frame k ref r =
     (case r of (e, evs) \<Rightarrow>
        (case finish_stream ref (Sentinel ErrClosed) e of (e, evs') \<Rightarrow> end_handler lk frame k (e, evs @ evs')))"

text \<open>The goroutines of the three stream kinds, given the outcome of the handler.\<close>

definition runServerStream where
  "runServerStream lk cfg frame k ref outcome e =
     end_stream_handler lk frame k ref
       (case outcome of
          HPanic t \<Rightarrow> rejectWith lk (reg_codec cfg) frame ErrorCodeInternal (''stream handler panic: '' @ t) e
        | HErr err \<Rightarrow>
            (case failWith lk (reg_codec cfg) frame err e of (e, evs) \<Rightarrow>
               (case finish_stream ref err e of (e, evs') \<Rightarrow> (e, evs @ evs')))
        | HVal _ \<Rightarrow> close_send lk ref e)"

definition runClientStream where
  "runClientStream lk cfg frame k ref outcome e =
     end_stream_handler lk frame k ref
       (case grant_initial lk ref e of
          (Some err, e, evs) \<Rightarrow> (case finish_stream ref err e of (e, evs') \<Rightarrow> (e, evs @ evs'))
        | (None, e, evs) \<Rightarrow>
            (case (case outcome of
                     HPanic t \<Rightarrow> rejectWith lk (reg_codec cfg) frame ErrorCodeInternal (''stream handler panic: '' @ t) e
                   | HErr err \<Rightarrow> failWith lk (reg_codec cfg) frame err e
                   | HVal payload \<Rightarrow> reply lk (reg_codec cfg) frame payload e) of
               (e, evs') \<Rightarrow> (e, evs @ evs')))"

definition runBidiStream where
  "runBidiStream lk cfg frame k ref outcome e =
     end_stream_handler lk frame k ref
       (case grant_initial lk ref e of
          (Some err, e, evs) \<Rightarrow> (case finish_stream ref err e of (e, evs') \<Rightarrow> (e, evs @ evs'))
        | (None, e, evs) \<Rightarrow>
            (case (case outcome of
                     HPanic t \<Rightarrow> rejectWith lk (reg_codec cfg) frame ErrorCodeInternal (''stream handler panic: '' @ t) e
                   | HErr err \<Rightarrow> failWith lk (reg_codec cfg) frame err e
                   | HVal _ \<Rightarrow> close_send lk ref e) of
               (e, evs') \<Rightarrow> (e, evs @ evs')))"

subsection \<open>Dispatch\<close>

text \<open>The switch of the read loops: the new state, the events and whether the loop goes on.\<close>

definition dispatch ::
  "('v, ('v, 'm) Endpoint_scheme) link \<Rightarrow> ('v, 'c) Config_scheme \<Rightarrow> Frame \<Rightarrow> ('v, 'm) Endpoint_scheme \<Rightarrow>
   bool \<times> ('v, 'm) Endpoint_scheme \<times> event list" where
  "dispatch lk cfg frame e =
     (case Type frame of
        FrameRequest \<Rightarrow> (True, startRequest lk cfg frame e)
      | FrameNotify \<Rightarrow> (True, startNotify lk cfg frame e)
      | FrameStreamStart \<Rightarrow> (True, startStream lk cfg frame e)
      | FrameStreamItem \<Rightarrow> (True, snd (deliverStreamFrame (reg_codec cfg) frame e))
      | FrameStreamEnd \<Rightarrow> (True, snd (deliverStreamFrame (reg_codec cfg) frame e))
      | FrameStreamWindow \<Rightarrow> (True, snd (deliverStreamFrame (reg_codec cfg) frame e))
      | FrameResponse \<Rightarrow>
          (case findStream (RequestID frame) e of
             Some ref \<Rightarrow>
               if (case the_stream ref e of Some s \<Rightarrow> \<not> receivesItems s | None \<Rightarrow> False)
               then (case complete (RequestID frame) \<lparr>cr_frame = frame, cr_err = None\<rparr> e of (_, e, evs) \<Rightarrow>
                       (case finish_stream ref (Sentinel ErrClosed) e of (e, evs') \<Rightarrow> (True, e, evs @ evs')))
               else (True, snd (complete (RequestID frame) \<lparr>cr_frame = frame, cr_err = None\<rparr> e))
           | None \<Rightarrow> (True, snd (complete (RequestID frame) \<lparr>cr_frame = frame, cr_err = None\<rparr> e)))
      | FrameError \<Rightarrow>
          (case complete (RequestID frame) \<lparr>cr_frame = frame, cr_err = None\<rparr> e of (_, e, evs) \<Rightarrow>
             (case deliverStreamFrame (reg_codec cfg) frame e of (_, e, evs') \<Rightarrow> (True, e, evs @ evs')))
      | FrameCancel \<Rightarrow> (True, cancel_request (RequestID frame) e)
      | FramePing \<Rightarrow>
          (case write_handled lk (zeroFrame\<lparr>Type := FramePong, RequestID := RequestID frame\<rparr>) e of
             (None, e, evs) \<Rightarrow> (True, e, evs)
           | (Some err, e, evs) \<Rightarrow> (errors_Is err ErrBackpressure, e, evs))
      | _ \<Rightarrow> (True, e, []))"

end
