(* ===== verification/Link_Steps.thy ===== *)
theory Link_Steps
  imports Link_Ops Stream_Machine
begin

text \<open>
  The operations of a connection as sequences of atomic steps. An atomic step (\<open>astep\<close>) is
  one section under one of the locks of \<^verbatim>\<open>Client\<close> and \<^verbatim>\<open>Conn\<close>: one access to the table of pending calls,
  to the table of streams or of requests, one operation of a stream with its completion
  callback, one write, the handling of one failed write. A run (\<open>asteps\<close>) records the request
  ids that were registered for a response and the events, in order. Every operation of
  \<open>Link_Ops\<close> is shown to be a run, so what holds of all runs holds of the operations in every
  interleaving of the goroutines of a connection.

  The locale \<open>endpoint_link\<close> is what a link owes its connection: writing, allocating ids and
  tracking requests leave the tables alone, and handling a failed write keeps the invariant
  \<open>endpoint_ok\<close> and the account of answers \<open>answered\<close>. In it the invariant and the account
  are proved for all runs.
\<close>

subsection \<open>Atomic steps\<close>

text \<open>An operation of a stream that fires the completion callback exactly when it ends the
  stream.\<close>

definition ends_once :: "'v Stream \<Rightarrow> effect list \<Rightarrow> 'v Stream \<Rightarrow> bool" where
  "ends_once s es s' \<longleftrightarrow>
     s_requestID s' = s_requestID s \<and> dones es + of_bool (s_done s) = of_bool (s_done s')"

definition stream_op :: "('v Stream \<Rightarrow> 'v Stream \<times> effect list) \<Rightarrow> bool" where
  "stream_op g \<longleftrightarrow> (\<forall>s. ends_once s (snd (g s)) (fst (g s)))"

inductive astep ::
  "('v, ('v, 'm) Endpoint_scheme) link \<Rightarrow> BackpressureOptions \<Rightarrow> ('v, 'm) Endpoint_scheme \<Rightarrow> u64 list \<Rightarrow>
   event list \<Rightarrow> ('v, 'm) Endpoint_scheme \<Rightarrow> bool"
  for lk bp where
  a_newID: "lk_newID lk e = (i, e') \<Longrightarrow> astep lk bp e [] [] e'"
| a_write: "lk_write lk f e = (r, e', evs) \<Longrightarrow> astep lk bp e [] evs e'"
| a_failed: "lk_onWriteError lk err e = (e', evs) \<Longrightarrow> astep lk bp e [] evs e'"
| a_track: "lk_track lk i k e = (r, e') \<Longrightarrow> astep lk bp e [] [] e'"
| a_untrack: "lk_untrack lk i e = e' \<Longrightarrow> astep lk bp e [] [] e'"
| a_register: "addPending (lk_side lk) bp i p e = (None, e', evs) \<Longrightarrow> astep lk bp e [i] evs e'"
| a_refuse: "addPending (lk_side lk) bp i p e = (Some err, e', evs) \<Longrightarrow> astep lk bp e [] evs e'"
| a_unregister: "removePending i e = e' \<Longrightarrow> astep lk bp e [] [] e'"
| a_complete: "complete i resp e = (r, e', evs) \<Longrightarrow> astep lk bp e [] evs e'"
| a_newStream:
    "\<not> s_done s \<Longrightarrow> alloc_stream s d e = (ref, e1) \<Longrightarrow> addStream (lk_side lk) bp ref e1 = (r, e', evs) \<Longrightarrow>
     astep lk bp e [] evs e'"
| a_stream: "stream_op g \<Longrightarrow> on_stream ref g e = (e', evs) \<Longrightarrow> astep lk bp e [] evs e'"
| a_newCtx: "new_ctx e = (k, e') \<Longrightarrow> astep lk bp e [] [] e'"
| a_cancelCtx: "astep lk bp e [] [EvCancelCtx k] e"
| a_spawn: "astep lk bp e [] [EvSpawn j] e"

inductive asteps ::
  "('v, ('v, 'm) Endpoint_scheme) link \<Rightarrow> BackpressureOptions \<Rightarrow> ('v, 'm) Endpoint_scheme \<Rightarrow> u64 list \<Rightarrow>
   event list \<Rightarrow> ('v, 'm) Endpoint_scheme \<Rightarrow> bool"
  for lk bp where
  asteps_refl: "asteps lk bp e [] [] e"
| asteps_step: "astep lk bp e is evs e' \<Longrightarrow> asteps lk bp e' is' evs' e'' \<Longrightarrow> asteps lk bp e (is @ is') (evs @ evs') e''"

lemma asteps_one: "astep lk bp e is evs e' \<Longrightarrow> asteps lk bp e is evs e'"
  using asteps_step [OF _ asteps_refl] by fastforce

lemma asteps_trans:
  "asteps lk bp e is evs e' \<Longrightarrow> asteps lk bp e' is' evs' e'' \<Longrightarrow> asteps lk bp e (is @ is') (evs @ evs') e''"
proof (induction rule: asteps.induct)
  case (asteps_step e "is" evs e' is1 evs1 e1)
  then show ?case using asteps.asteps_step [OF asteps_step.hyps(1)] by simp
qed simp

text \<open>Sequencing of runs that register nothing.\<close>

abbreviation quiet where "quiet lk bp e evs e' \<equiv> asteps lk bp e [] evs e'"

lemma quiet_trans: "quiet lk bp e evs e' \<Longrightarrow> quiet lk bp e' evs' e'' \<Longrightarrow> quiet lk bp e (evs @ evs') e''"
  using asteps_trans [of lk bp e "[]" evs e' "[]" evs' e''] by simp

lemma quiet_silent_left: "quiet lk bp e [] e' \<Longrightarrow> asteps lk bp e' is evs e'' \<Longrightarrow> asteps lk bp e is evs e''"
  using asteps_trans [of lk bp e "[]" "[]" e' "is" evs e''] by simp

lemmas quiet_intros = astep.intros [THEN asteps_one]

subsection \<open>Stream operations\<close>

lemma stream_opI: "(\<And>s s' es. g s = (s', es) \<Longrightarrow> ends_once s es s') \<Longrightarrow> stream_op g"
  by (simp add: stream_op_def)

lemma stream_step_ends_once: "stream_step_ok s es s' \<Longrightarrow> ends_once s es s'"
  by (simp add: stream_step_ok_def ends_once_def end_effects_def same_send_def)

lemma ends_ends_once: "ends s es s' \<Longrightarrow> ends_once s es s'"
  using ends_step_ok stream_step_ends_once by blast

lemma finish_stream_op: "stream_op (\<lambda>s. case finish err s of (_, s, es) \<Rightarrow> (s, es))"
  by (rule stream_opI) (auto intro: ends_ends_once finish_ends split: prod.splits)

lemma abort_stream_op: "stream_op (abort err)"
  by (rule stream_opI) (auto intro: ends_ends_once abort_ends)

lemma deliverError_stream_op: "stream_op (deliverError err)"
  by (rule stream_opI) (auto intro: ends_ends_once deliverError_ends)

lemma deliverItem_stream_op: "stream_op (deliverItem f)"
  by (rule stream_opI) (use deliverItem_step_ok in \<open>blast intro: stream_step_ends_once\<close>)

lemma deliverEnd_stream_op: "stream_op deliverEnd"
  by (rule stream_opI) (use deliverEnd_step_ok in \<open>blast intro: stream_step_ends_once\<close>)

lemma cancel_ctx_stream_op: "stream_op (\<lambda>s. (cancel_ctx err s, []))"
  by (rule stream_opI) (auto simp: ends_once_def cancel_ctx_def dones_def split: option.splits)

lemma watchContext_stream_op: "stream_op watchContext"
  by (rule stream_opI) (use watchContext_step_ok in \<open>blast intro: stream_step_ends_once\<close>)

lemma credit_stream_op:
  "stream_op (\<lambda>s. case acceptCredit frame s of (None, s) \<Rightarrow> (s, []) | (Some err, s) \<Rightarrow> abort err s)"
proof (rule stream_opI)
  fix s :: "'a Stream" and s' es
  assume r: "(case acceptCredit frame s of (None, s) \<Rightarrow> (s, []) | (Some err, s) \<Rightarrow> abort err s) = (s', es)"
  obtain a s1 where a: "acceptCredit frame s = (a, s1)" by fastforce
  from acceptCredit_same [OF a] have e: "s_done s1 = s_done s" "s_requestID s1 = s_requestID s"
    by (simp_all add: same_end_def same_send_def)
  show "ends_once s es s'"
  proof (cases a)
    case None
    with r a e show ?thesis by (simp add: ends_once_def dones_def)
  next
    case (Some err)
    with r a have "abort err s1 = (s', es)" by simp
    from ends_ends_once [OF abort_ends [OF this]] e show ?thesis by (simp add: ends_once_def)
  qed
qed

lemma CloseSend_finish_stream_op: "stream_op (CloseSend_finish err)"
proof (rule stream_opI)
  fix s :: "'a Stream" and s' es
  assume r: "CloseSend_finish err s = (s', es)"
  let ?s = "s\<lparr>closeSendErr := err, sendEnded := (err = None)\<rparr>"
  have "ends_once ?s es s'"
  proof (cases err)
    case None
    show ?thesis
    proof (cases "recvClosed s")
      case True
      with r None obtain b where "finish (Sentinel ErrClosed) ?s = (b, s', es)"
        by (auto simp: CloseSend_finish_def Let_def split: prod.splits)
      then show ?thesis by (rule ends_ends_once [OF finish_ends])
    next
      case False
      with r None show ?thesis by (auto simp: CloseSend_finish_def Let_def ends_once_def dones_def)
    qed
  next
    case (Some e)
    with r show ?thesis by (simp add: CloseSend_finish_def ends_ends_once abort_ends)
  qed
  then show "ends_once s es s'" by (simp add: ends_once_def)
qed

lemma CloseSend_begin_stream_op: "stream_op (\<lambda>s. (CloseSend_begin s, []))"
  by (rule stream_opI) (auto simp: ends_once_def CloseSend_begin_def close_sendDone_def dones_def)

lemmas stream_ops =
  finish_stream_op abort_stream_op deliverError_stream_op deliverItem_stream_op deliverEnd_stream_op
  cancel_ctx_stream_op watchContext_stream_op credit_stream_op CloseSend_finish_stream_op
  CloseSend_begin_stream_op

lemmas quiet_stream = stream_ops [THEN quiet_intros(11)]

subsection \<open>Writing and replying\<close>

lemma write_handled_steps: "write_handled lk f e = (r, e', evs) \<Longrightarrow> quiet lk bp e evs e'"
  by (auto simp: write_handled_def split: prod.splits option.splits
      intro: quiet_intros quiet_trans [OF quiet_intros(2) quiet_intros(3)])

lemma writeError_steps: "writeError lk codec q re e = (r, e', evs) \<Longrightarrow> quiet lk bp e evs e'"
  by (auto simp: writeError_def split: sum.splits intro: asteps_refl write_handled_steps)

lemma rejectWith_steps: "rejectWith lk codec q c m e = (e', evs) \<Longrightarrow> quiet lk bp e evs e'"
  by (auto simp: rejectWith_def split: prod.splits intro: writeError_steps)

lemma failWith_steps: "failWith lk codec q err e = (e', evs) \<Longrightarrow> quiet lk bp e evs e'"
  by (auto simp: failWith_def split: prod.splits intro: writeError_steps)

lemma reply_steps: "reply lk codec f p e = (e', evs) \<Longrightarrow> quiet lk bp e evs e'"
  by (auto simp: reply_def split: prod.splits option.splits if_splits
      intro: write_handled_steps quiet_trans [OF write_handled_steps failWith_steps])

lemma streamNotFound_steps: "streamNotFound lk codec f e = (e', evs) \<Longrightarrow> quiet lk bp e evs e'"
  by (simp add: streamNotFound_def rejectWith_steps)

lemma finish_stream_steps: "finish_stream ref err e = (e', evs) \<Longrightarrow> quiet lk bp e evs e'"
  unfolding finish_stream_def by (rule quiet_stream(1))

subsection \<open>Calls and notifications\<close>

lemma request_send_steps:
  assumes "request_send lk bp c f pl p e = (r, e', evs)"
  shows "\<exists>is. asteps lk bp e is evs e' \<and> (is = [] \<or> is = [fst (lk_newID lk e)])"
proof -
  obtain i e1 where i: "lk_newID lk e = (i, e1)" by fastforce
  obtain a e2 ev2 where a: "addPending (lk_side lk) bp i p e1 = (a, e2, ev2)" by (metis prod_cases3)
  note newID = quiet_intros(1) [OF i, of bp]
  show ?thesis
  proof (cases a)
    case (Some err)
    with assms i a have "e' = e2" "evs = ev2" by (simp_all add: request_send_def)
    with quiet_silent_left [OF newID quiet_intros(7)] a Some show ?thesis by blast
  next
    case None
    note reg = quiet_silent_left [OF newID quiet_intros(6) [OF a [unfolded None]]]
    let ?f = "with_deadline c (zeroFrame\<lparr>Type := FrameRequest, RequestID := i, Function := f, Payload := pl\<rparr>)"
    obtain w e3 ev3 where w: "lk_write lk ?f e2 = (w, e3, ev3)" by (metis prod_cases3)
    note wr = asteps_trans [OF reg quiet_intros(2) [OF w]]
    show ?thesis
    proof (cases w)
      case None
      with assms i a w \<open>a = None\<close> have "e' = e3" "evs = ev2 @ ev3" by (simp_all add: request_send_def Let_def)
      with wr i show ?thesis by auto
    next
      case (Some err)
      obtain e4 ev4 where h: "lk_onWriteError lk err (removePending i e3) = (e4, ev4)" by fastforce
      with assms i a w Some \<open>a = None\<close> have "e' = e4" "evs = ev2 @ ev3 @ ev4"
        by (simp_all add: request_send_def Let_def)
      moreover have "quiet lk bp e3 ev4 e4"
        by (rule quiet_silent_left [OF quiet_intros(8) [OF refl] quiet_intros(3) [OF h]])
      ultimately show ?thesis using asteps_trans [OF wr] i by fastforce
    qed
  qed
qed

lemma notify_send_steps: "notify_send lk c f pl e = (r, e', evs) \<Longrightarrow> quiet lk bp e evs e'"
  by (auto simp: notify_send_def Let_def split: prod.splits option.splits
      intro: quiet_silent_left [OF quiet_intros(1) write_handled_steps])

lemma call_wait_steps:
  assumes "call_wait (Some lk) i w e = (r, e', evs)"
  shows "quiet lk bp e evs e'"
proof (cases w)
  case (WakeCtx err)
  with assms have "\<exists>x. write_handled lk (zeroFrame\<lparr>Type := FrameCancel, RequestID := i\<rparr>) (removePending i e) = (x, e', evs)"
    by (auto simp: call_wait_def Let_def split: prod.splits)
  then show ?thesis
    using quiet_silent_left [OF quiet_intros(8) [OF refl] write_handled_steps] by blast
qed (use assms in \<open>auto simp: call_wait_def Let_def split: option.splits intro: quiet_intros asteps_refl\<close>)

lemma call_wait_offline_steps: "call_wait None i w e = (r, e', evs) \<Longrightarrow> quiet lk bp e evs e'"
  by (auto simp: call_wait_def Let_def split: wake.splits option.splits intro: quiet_intros asteps_refl)

subsection \<open>Opening streams\<close>

lemma new_stream_not_done [simp]: "\<not> s_done (configure k c fl (newStreamWithOptions mc lib cx i f cod o1))"
  by (simp add: configure_def newStreamWithOptions_def Let_def close_sendDone_def close_recvDone_def
      split: StreamKind.splits)

lemma addStream_error_same:
  "addStream side bp ref e = (Some err, e', evs) \<Longrightarrow> e' = e"
  by (auto simp: addStream_def split: option.splits if_splits)

lemma alloc_the_stream: "alloc_stream s d e = (ref, e1) \<Longrightarrow> the_stream ref e1 = Some s"
  by (auto simp: alloc_stream_def the_stream_def)

lemma put_cancelled:
  "the_stream ref e = Some s \<Longrightarrow>
   on_stream ref (\<lambda>s. (cancel_ctx err s, [])) e = (put_stream ref (cancel_ctx err s) e, [])"
  by (simp add: on_stream_def)

lemma start_outbound_steps:
  assumes "start_outbound lk cfg c k i f pl o1 d e = (r, e', evs)"
  shows "quiet lk (cf_backpressure cfg) e evs e'"
proof -
  let ?bp = "cf_backpressure cfg"
  let ?s = "configure k True (lk_flow lk e)
    (newStreamWithOptions (cf_mc cfg) (cf_lib cfg) (ctx_err c) i f (Some (reg_codec cfg))
      (mergeStreamOptions (cf_streamOptions cfg) o1))"
  obtain ref e1 where al: "alloc_stream ?s d e = (ref, e1)" by fastforce
  obtain a e2 ev2 where a: "addStream (lk_side lk) ?bp ref e1 = (a, e2, ev2)" by (metis prod_cases3)
  note add = quiet_intros(10) [OF new_stream_not_done al a]
  show ?thesis
  proof (cases a)
    case (Some err)
    with a addStream_error_same have e2: "e2 = e1" by blast
    from assms al a Some have "e' = put_stream ref (cancel_ctx err ?s) e2" "evs = ev2"
      by (simp_all add: start_outbound_def Let_def)
    with put_cancelled [OF alloc_the_stream [OF al], of err] e2
    have "quiet lk ?bp e2 [] e'" by (simp add: quiet_stream(6))
    with quiet_trans [OF add] \<open>evs = ev2\<close> show ?thesis by fastforce
  next
    case None
    let ?f = "with_deadline c (receiveWindow ?s (zeroFrame\<lparr>Type := FrameStreamStart, fStreamKind := k,
      RequestID := i, Function := f, Payload := pl\<rparr>))"
    obtain w e3 ev3 where w: "lk_write lk ?f e2 = (w, e3, ev3)" by (metis prod_cases3)
    note wr = quiet_trans [OF add quiet_intros(2) [OF w]]
    show ?thesis
    proof (cases w)
      case None
      with assms al a w \<open>a = None\<close> have "e' = e3" "evs = ev2 @ ev3" by (simp_all add: start_outbound_def Let_def)
      with wr show ?thesis by simp
    next
      case (Some err)
      let ?e = "if d then removePending i e3 else e3"
      let ?err = "Errorf_suffix ErrUnavailable (error_text err)"
      obtain e4 ev4 where fs: "finish_stream ref ?err ?e = (e4, ev4)" by fastforce
      obtain e5 ev5 where h: "lk_onWriteError lk err e4 = (e5, ev5)" by fastforce
      from assms al a w Some \<open>a = None\<close> fs h have "e' = e5" "evs = ev2 @ ev3 @ ev4 @ ev5"
        by (simp_all add: start_outbound_def Let_def)
      moreover have "quiet lk ?bp e3 [] ?e" by (simp add: asteps_refl quiet_intros(8))
      then have "quiet lk ?bp e3 ev4 e4" by (rule quiet_silent_left [OF _ finish_stream_steps [OF fs]])
      from quiet_trans [OF wr quiet_trans [OF this quiet_intros(3) [OF h]]]
      have "quiet lk ?bp e (ev2 @ ev3 @ ev4 @ ev5) e5" by simp
      ultimately show ?thesis by simp
    qed
  qed
qed

lemma open_server_stream_steps:
  "open_server_stream lk cfg c f pl o1 e = (r, e', evs) \<Longrightarrow> quiet lk (cf_backpressure cfg) e evs e'"
  by (auto simp: open_server_stream_def split: prod.splits
      intro: quiet_silent_left [OF quiet_intros(1) start_outbound_steps])

lemma open_bidi_stream_steps:
  "open_bidi_stream lk cfg c f o1 e = (r, e', evs) \<Longrightarrow> quiet lk (cf_backpressure cfg) e evs e'"
  by (auto simp: open_bidi_stream_def split: prod.splits
      intro: quiet_silent_left [OF quiet_intros(1) start_outbound_steps])

lemma open_client_stream_steps:
  assumes "open_client_stream lk cfg c f o1 ch e = (r, e', evs)"
  shows "\<exists>is. asteps lk (cf_backpressure cfg) e is evs e' \<and> (is = [] \<or> is = [fst (lk_newID lk e)])"
proof -
  let ?bp = "cf_backpressure cfg"
  obtain i e1 where i: "lk_newID lk e = (i, e1)" by fastforce
  obtain a e2 ev2 where a: "addPending (lk_side lk) ?bp i (SyncPending ch) e1 = (a, e2, ev2)" by (metis prod_cases3)
  note newID = quiet_intros(1) [OF i, of ?bp]
  show ?thesis
  proof (cases a)
    case (Some err)
    with assms i a have "e' = e2" "evs = ev2" by (simp_all add: open_client_stream_def)
    with quiet_silent_left [OF newID quiet_intros(7)] a Some show ?thesis by blast
  next
    case None
    note reg = quiet_silent_left [OF newID quiet_intros(6) [OF a [unfolded None]]]
    obtain w e3 ev3 where w: "start_outbound lk cfg c StreamKindClient i f [] o1 True e2 = (w, e3, ev3)"
      by (metis prod_cases3)
    note st = asteps_trans [OF reg start_outbound_steps [OF w]]
    from assms i a w None have evs: "evs = ev2 @ ev3" and e': "e' = e3 \<or> e' = removePending i e3"
      by (auto simp: open_client_stream_def split: sum.splits)
    from e' have "quiet lk ?bp e3 [] e'" by (auto intro: asteps_refl quiet_intros(8))
    with asteps_trans [OF st] evs i show ?thesis by fastforce
  qed
qed

subsection \<open>Inbound requests, notifications and streams\<close>

lemma track_steps:
  "new_ctx e = (k, e1) \<Longrightarrow> lk_track lk i k e1 = (ok, e2) \<Longrightarrow> asteps lk bp e2 is evs e' \<Longrightarrow> asteps lk bp e is evs e'"
  by (blast intro: quiet_silent_left quiet_intros)

lemma startRequest_steps: "startRequest lk cfg f e = (e', evs) \<Longrightarrow> quiet lk bp e evs e'"
  by (auto simp: startRequest_def Let_def split: if_splits option.splits prod.splits
      intro: rejectWith_steps track_steps quiet_intros)

lemma startNotify_steps: "startNotify lk cfg f e = (e', evs) \<Longrightarrow> quiet lk bp e evs e'"
  by (auto simp: startNotify_def Let_def split: if_splits option.splits prod.splits
      intro: asteps_refl track_steps quiet_intros)

lemma end_handler_steps:
  "quiet lk bp e0 evs0 (fst r) \<Longrightarrow> snd r = evs0 \<Longrightarrow> end_handler lk f k r = (e', evs) \<Longrightarrow> quiet lk bp e0 evs e'"
  by (cases r) (auto simp: end_handler_def
      intro!: quiet_trans quiet_silent_left [OF quiet_intros(5) [OF refl] quiet_intros(13)])

lemma runRequest_steps:
  assumes "runRequest lk cfg f k h e = (e', evs)"
  shows "quiet lk bp e evs e'"
  by (rule end_handler_steps [OF _ refl assms [unfolded runRequest_def]])
    (auto split: hres.splits intro: rejectWith_steps failWith_steps reply_steps simp: prod_eq_iff)

lemma runNotify_steps: "runNotify lk f k e = (e', evs) \<Longrightarrow> quiet lk bp e evs e'"
  unfolding runNotify_def by (erule end_handler_steps [OF _ refl, rotated]) (simp add: asteps_refl)

lemma accept_start_not_done:
  "accept_start f s = (r, s') \<Longrightarrow> s_done s' = s_done s"
  using acceptCredit_same [of f s r s'] by (auto simp: accept_start_def same_end_def split: if_splits)

lemma start_inbound_steps:
  assumes "start_inbound lk cfg j (r, s) f e = (e', evs)" and nd: "\<not> s_done s"
  shows "quiet lk (cf_backpressure cfg) e evs e'"
proof -
  let ?bp = "cf_backpressure cfg"
  obtain k e0 where k: "new_ctx e = (k, e0)" by fastforce
  note ctx = quiet_silent_left [OF quiet_intros(12) [OF k]]
  show ?thesis
  proof (cases r)
    case (Some err)
    obtain e1 ev1 where fw: "failWith lk (reg_codec cfg) f err e0 = (e1, ev1)" by fastforce
    with assms Some k have "e' = e1" "evs = ev1 @ [EvCancelCtx k]" by (simp_all add: start_inbound_def)
    with ctx [OF quiet_trans [OF failWith_steps [OF fw] quiet_intros(13)]] show ?thesis by simp
  next
    case None
    obtain ref e1 where al: "alloc_stream s False e0 = (ref, e1)" by fastforce
    obtain a e2 ev2 where a: "addStream (lk_side lk) ?bp ref e1 = (a, e2, ev2)" by (metis prod_cases3)
    note add = ctx [OF quiet_intros(10) [OF nd al a]]
    show ?thesis
    proof (cases a)
      case (Some err)
      obtain e3 ev3 where fw: "failWith lk (reg_codec cfg) f err e2 = (e3, ev3)" by fastforce
      with assms None Some k al a have "e' = e3" "evs = ev2 @ ev3 @ [EvCancelCtx k]"
        by (simp_all add: start_inbound_def Let_def)
      with quiet_trans [OF add quiet_trans [OF failWith_steps [OF fw] quiet_intros(13)]] show ?thesis by simp
    next
      case a0: None
      obtain ok e3 where t: "lk_track lk (RequestID f) k e2 = (ok, e3)" by fastforce
      note tr = quiet_trans [OF add quiet_silent_left [OF quiet_intros(4) [OF t]]]
      show ?thesis
      proof (cases ok)
        case True
        with assms None a0 k al a t have "e' = e3" "evs = ev2 @ [EvSpawn (j f k ref)]"
          by (simp_all add: start_inbound_def Let_def)
        with tr [OF quiet_intros(14)] show ?thesis by simp
      next
        case False
        obtain e4 ev4 where fs: "finish_stream ref (Sentinel ErrUnavailable) e3 = (e4, ev4)" by fastforce
        with assms None a0 k al a t False have "e' = e4" "evs = ev2 @ [EvCancelCtx k] @ ev4"
          by (simp_all add: start_inbound_def Let_def)
        with tr [OF quiet_trans [OF quiet_intros(13) finish_stream_steps [OF fs]]] show ?thesis by simp
      qed
    qed
  qed
qed

lemma inbound_not_done [simp]: "\<not> s_done (inbound_stream lk cfg kind f e)"
  by (simp add: inbound_stream_def)

lemma startServerStream_steps:
  assumes "startServerStream lk cfg f e = (e', evs)"
  shows "quiet lk (cf_backpressure cfg) e evs e'"
proof (cases "serverStreamHandlers cfg (Function f)")
  case (Some h)
  obtain r s where a: "accept_start f (inbound_stream lk cfg StreamKindServer f e) = (r, s)" by fastforce
  with assms Some start_inbound_steps [of lk cfg JobServerStream r s f e e' evs] accept_start_not_done [OF a]
  show ?thesis by (simp add: startServerStream_def)
qed (use assms in \<open>simp add: startServerStream_def streamNotFound_steps\<close>)

lemma startBidiStream_steps:
  assumes "startBidiStream lk cfg f e = (e', evs)"
  shows "quiet lk (cf_backpressure cfg) e evs e'"
proof (cases "bidiStreamHandlers cfg (Function f)")
  case (Some h)
  obtain r s where a: "accept_start f (inbound_stream lk cfg StreamKindBidi f e) = (r, s)" by fastforce
  with assms Some start_inbound_steps [of lk cfg JobBidiStream r s f e e' evs] accept_start_not_done [OF a]
  show ?thesis by (simp add: startBidiStream_def)
qed (use assms in \<open>simp add: startBidiStream_def streamNotFound_steps\<close>)

lemma startClientStream_steps:
  "startClientStream lk cfg f e = (e', evs) \<Longrightarrow> quiet lk (cf_backpressure cfg) e evs e'"
  by (auto simp: startClientStream_def split: option.splits intro: streamNotFound_steps start_inbound_steps)

lemma startStream_steps:
  "startStream lk cfg f e = (e', evs) \<Longrightarrow> quiet lk (cf_backpressure cfg) e evs e'"
  by (auto simp: startStream_def split: if_splits StreamKind.splits
      intro: rejectWith_steps startServerStream_steps startClientStream_steps startBidiStream_steps)

subsection \<open>The goroutines of streams\<close>

lemma close_send_steps:
  assumes "close_send lk ref e = (e', evs)"
  shows "quiet lk bp e evs e'"
proof (cases "the_stream ref e")
  case (Some s)
  show ?thesis
  proof (cases "\<not> sendsItems s \<or> closeSendOnce s")
    case False
    let ?s = "CloseSend_begin s"
    let ?e = "put_stream ref ?s e"
    from Some have b: "on_stream ref (\<lambda>s. (CloseSend_begin s, [])) e = (?e, [])" by (simp add: on_stream_def)
    obtain err e1 ev1 where w: "(case s_ctx ?s of Some err \<Rightarrow> (Some err, ?e, [])
        | None \<Rightarrow> write_handled lk (streamFrame FrameStreamEnd ?s []) ?e) = (err, e1, ev1)" by (metis prod_cases3)
    obtain e2 ev2 where f: "on_stream ref (CloseSend_finish err) e1 = (e2, ev2)" by fastforce
    from assms Some False w f have e': "e' = e2" "evs = ev1 @ ev2"
      by (simp_all add: close_send_def Let_def split: prod.splits)
    from w have "quiet lk bp ?e ev1 e1" by (auto intro: asteps_refl write_handled_steps split: option.splits)
    from quiet_trans [OF quiet_silent_left [OF quiet_stream(10) [OF b] this] quiet_stream(9) [OF f]] e'
    show ?thesis by simp
  qed (use assms Some in \<open>auto simp: close_send_def asteps_refl\<close>)
qed (use assms in \<open>simp add: close_send_def asteps_refl\<close>)

lemma grant_initial_steps: "grant_initial lk ref e = (r, e', evs) \<Longrightarrow> quiet lk bp e evs e'"
  by (auto simp: grant_initial_def split: option.splits if_splits intro: asteps_refl write_handled_steps)

lemma end_stream_handler_steps:
  assumes "quiet lk bp e0 (snd r) (fst r)" "end_stream_handler lk f k ref r = (e', evs)"
  shows "quiet lk bp e0 evs e'"
proof -
  obtain e1 ev1 where fs: "finish_stream ref (Sentinel ErrClosed) (fst r) = (e1, ev1)" by fastforce
  with assms(2) have "end_handler lk f k (e1, snd r @ ev1) = (e', evs)"
    by (simp add: end_stream_handler_def split: prod.splits)
  with end_handler_steps [of lk bp e0 "snd r @ ev1" "(e1, snd r @ ev1)"]
    quiet_trans [OF assms(1) finish_stream_steps [OF fs]] show ?thesis by simp
qed

lemma quiet_pair: "(\<And>e' evs. r = (e', evs) \<Longrightarrow> quiet lk bp e evs e') \<Longrightarrow> quiet lk bp e (snd r) (fst r)"
  by (cases r) simp

lemma runServerStream_steps:
  assumes "runServerStream lk cfg f k ref out e = (e', evs)"
  shows "quiet lk bp e evs e'"
  by (rule end_stream_handler_steps [OF quiet_pair assms [unfolded runServerStream_def]])
    (auto split: hres.splits prod.splits
      intro: rejectWith_steps close_send_steps quiet_trans [OF failWith_steps finish_stream_steps])

lemma granted_steps:
  assumes "(case grant_initial lk ref e of
      (Some err, e, evs) \<Rightarrow> (case finish_stream ref err e of (e, evs') \<Rightarrow> (e, evs @ evs'))
    | (None, e, evs) \<Rightarrow> (case F e of (e, evs') \<Rightarrow> (e, evs @ evs'))) = (e', evs)"
    and F: "\<And>e e' evs. F e = (e', evs) \<Longrightarrow> quiet lk bp e evs e'"
  shows "quiet lk bp e evs e'"
  using assms(1)
  by (auto split: prod.splits option.splits
      intro: quiet_trans [OF grant_initial_steps finish_stream_steps] quiet_trans [OF grant_initial_steps F])

lemma runClientStream_steps:
  assumes "runClientStream lk cfg f k ref out e = (e', evs)"
  shows "quiet lk bp e evs e'"
  by (rule end_stream_handler_steps [OF quiet_pair [OF granted_steps] assms [unfolded runClientStream_def]])
    (auto split: hres.splits intro: rejectWith_steps failWith_steps reply_steps)

lemma runBidiStream_steps:
  assumes "runBidiStream lk cfg f k ref out e = (e', evs)"
  shows "quiet lk bp e evs e'"
  by (rule end_stream_handler_steps [OF quiet_pair [OF granted_steps] assms [unfolded runBidiStream_def]])
    (auto split: hres.splits intro: rejectWith_steps failWith_steps close_send_steps)

subsection \<open>Dispatch\<close>

lemma deliverStreamFrame_steps:
  "deliverStreamFrame codec f e = (r, e', evs) \<Longrightarrow> quiet lk bp e evs e'"
  by (auto simp: deliverStreamFrame_def split: option.splits FrameType.splits if_splits
      intro: asteps_refl quiet_stream)

lemma cancel_request_steps:
  assumes "cancel_request i e = (e', evs)"
  shows "quiet lk bp e evs e'"
proof -
  obtain e1 ev1 where d: "(case findStream i e of None \<Rightarrow> (e, [])
      | Some ref \<Rightarrow> on_stream ref (deliverError (Some (Sentinel ContextCanceled))) e) = (e1, ev1)" by fastforce
  then have s: "quiet lk bp e ev1 e1" by (auto split: option.splits intro: asteps_refl quiet_stream)
  from assms d have "e' = e1" "evs = ev1 \<or> (\<exists>k. evs = ev1 @ [EvCancelCtx k])"
    by (auto simp: cancel_request_def split: option.splits)
  with s quiet_trans [OF s quiet_intros(13)] show ?thesis by auto
qed

lemma complete_finish_steps:
  assumes "complete i resp e = (b, e1, ev1)" "finish_stream ref err e1 = (e', ev2)"
  shows "quiet lk bp e (ev1 @ ev2) e'"
  by (rule quiet_trans [OF quiet_intros(9) [OF assms(1)] finish_stream_steps [OF assms(2)]])

lemma complete_deliver_steps:
  assumes "complete i resp e = (b, e1, ev1)" "deliverStreamFrame codec f e1 = (b', e', ev2)"
  shows "quiet lk bp e (ev1 @ ev2) e'"
  by (rule quiet_trans [OF quiet_intros(9) [OF assms(1)] deliverStreamFrame_steps [OF assms(2)]])

lemma dispatch_steps:
  assumes "dispatch lk cfg f e = (r, e', evs)"
  shows "quiet lk (cf_backpressure cfg) e evs e'"
proof (cases "Type f")
  case FrameResponse
  with assms show ?thesis
    by (auto simp: dispatch_def snd_def split: option.splits if_splits prod.splits
        intro: complete_finish_steps quiet_intros(9))
next
  case FrameError
  with assms show ?thesis
    by (auto simp: dispatch_def split: prod.splits intro: complete_deliver_steps)
next
  case FramePing
  with assms show ?thesis
    by (auto simp: dispatch_def split: prod.splits option.splits intro: write_handled_steps)
qed (use assms in \<open>auto simp: dispatch_def snd_def split: prod.splits
      intro: asteps_refl startRequest_steps startNotify_steps startStream_steps deliverStreamFrame_steps
        cancel_request_steps\<close>)

subsection \<open>The invariant of an endpoint\<close>

text \<open>The tables have distinct keys; a stream in the table is in the heap under its own request id
  and has not ended; the admission limits hold; a closed endpoint has no pending call, no stream and
  no request.\<close>

definition streams_ok :: "('v, 'm) Endpoint_scheme \<Rightarrow> bool" where
  "streams_ok e \<longleftrightarrow>
     tbl_ok (e_streams e) \<and>
     (\<forall>i ref. (i, ref) \<in> set (e_streams e) \<longrightarrow>
        (\<exists>s d. e_heap e ref = Some (s, d) \<and> s_requestID s = i \<and> \<not> s_done s)) \<and>
     (\<forall>ref \<ge> e_nextRef e. e_heap e ref = None)"

definition limits_ok :: "BackpressureOptions \<Rightarrow> ('v, 'm) Endpoint_scheme \<Rightarrow> bool" where
  "limits_ok bp e \<longleftrightarrow>
     (MaxPendingCalls bp > 0 \<longrightarrow> int (length (e_pending e)) \<le> MaxPendingCalls bp) \<and>
     (MaxActiveStreams bp > 0 \<longrightarrow> int (length (e_streams e)) \<le> MaxActiveStreams bp)"

definition tables_ok :: "BackpressureOptions \<Rightarrow> ('v, 'm) Endpoint_scheme \<Rightarrow> bool" where
  "tables_ok bp e \<longleftrightarrow> tbl_ok (e_pending e) \<and> tbl_ok (e_requests e) \<and> streams_ok e \<and> limits_ok bp e"

definition closed_ok :: "('v, 'm) Endpoint_scheme \<Rightarrow> bool" where
  "closed_ok e \<longleftrightarrow>
     (e_closed e \<longrightarrow> e_pending e = [] \<and> e_streams e = [] \<and> e_requests e = [] \<and> e_closeErr e \<noteq> None)"

definition endpoint_ok :: "BackpressureOptions \<Rightarrow> ('v, 'm) Endpoint_scheme \<Rightarrow> bool" where
  "endpoint_ok bp e \<longleftrightarrow> tables_ok bp e \<and> closed_ok e"

text \<open>How many answers a list of events gives to the call \<open>i\<close>; the account of a run: an answer
  uses up a registration.\<close>

definition is_delivery :: "u64 \<Rightarrow> event \<Rightarrow> bool" where
  "is_delivery i ev \<longleftrightarrow> (case ev of EvDeliver j _ _ \<Rightarrow> j = i | _ \<Rightarrow> False)"

definition delivered :: "u64 \<Rightarrow> event list \<Rightarrow> nat" where
  "delivered i evs = length (filter (is_delivery i) evs)"

definition pending :: "u64 \<Rightarrow> ('v, 'm) Endpoint_scheme \<Rightarrow> bool" where
  "pending i e \<longleftrightarrow> map_of (e_pending e) i \<noteq> None"

definition answered :: "('v, 'm) Endpoint_scheme \<Rightarrow> u64 list \<Rightarrow> event list \<Rightarrow> ('v, 'm) Endpoint_scheme \<Rightarrow> bool" where
  "answered e is evs e' \<longleftrightarrow>
     (\<forall>i. delivered i evs + of_bool (pending i e') \<le> of_bool (pending i e) + count_list is i)"

lemma delivered_simps [simp]:
  "delivered i [] = 0" "delivered i (evs @ evs') = delivered i evs + delivered i evs'"
  "delivered i (ev # evs) = of_bool (is_delivery i ev) + delivered i evs"
  by (simp_all add: delivered_def)

lemma is_delivery_simps [simp]:
  "is_delivery i (EvDeliver j p r) \<longleftrightarrow> j = i" "\<not> is_delivery i (EvReport b)" "\<not> is_delivery i (EvCancelCtx k)"
  "\<not> is_delivery i (EvStreamWrite ref f)" "\<not> is_delivery i (EvSpawnWrite ref f)" "\<not> is_delivery i (EvSpawn j')"
  "\<not> is_delivery i EvNetClose" "\<not> is_delivery i EvCancelConnect"
  by (simp_all add: is_delivery_def)

lemma answered_trans:
  "answered e is evs e' \<Longrightarrow> answered e' is' evs' e'' \<Longrightarrow> answered e (is @ is') (evs @ evs') e''"
proof -
  assume a: "answered e is evs e'" "answered e' is' evs' e''"
  show ?thesis
    unfolding answered_def
  proof
    fix i
    from a have "delivered i evs + of_bool (pending i e') \<le> of_bool (pending i e) + count_list is i"
      "delivered i evs' + of_bool (pending i e'') \<le> of_bool (pending i e') + count_list is' i"
      by (simp_all add: answered_def)
    then show "delivered i (evs @ evs') + of_bool (pending i e'') \<le> of_bool (pending i e) + count_list (is @ is') i"
      by simp
  qed
qed

text \<open>Steps that leave the tables alone.\<close>

definition same_tables :: "('v, 'm) Endpoint_scheme \<Rightarrow> ('v, 'm) Endpoint_scheme \<Rightarrow> bool" where
  "same_tables e e' \<longleftrightarrow>
     e_pending e' = e_pending e \<and> e_requests e' = e_requests e \<and> e_streams e' = e_streams e \<and>
     e_heap e' = e_heap e \<and> e_nextRef e' = e_nextRef e \<and> e_closed e' = e_closed e \<and> e_closeErr e' = e_closeErr e"

lemma same_tables_ok: "same_tables e e' \<Longrightarrow> endpoint_ok bp e' = endpoint_ok bp e"
  by (simp add: same_tables_def endpoint_ok_def tables_ok_def closed_ok_def streams_ok_def limits_ok_def)

lemma answered_same: "e_pending e' = e_pending e \<Longrightarrow> (\<forall>i. delivered i evs = 0) \<Longrightarrow> answered e is evs e'"
  by (simp add: answered_def pending_def)

subsection \<open>The steps of the tables\<close>

text \<open>What the steps that do not involve the link keep: the invariant, the account, and everything a
  \<open>Conn\<close> or a \<open>Client\<close> adds to the record.\<close>

abbreviation extension :: "('v, 'm) Endpoint_scheme \<Rightarrow> 'm" where
  "extension \<equiv> Endpoint.Endpoint.more"

definition table_step ::
  "BackpressureOptions \<Rightarrow> ('v, 'm) Endpoint_scheme \<Rightarrow> u64 list \<Rightarrow> event list \<Rightarrow> ('v, 'm) Endpoint_scheme \<Rightarrow> bool" where
  "table_step bp e is evs e' \<longleftrightarrow>
     extension e' = extension e \<and> e_closed e' = e_closed e \<and> e_closeErr e' = e_closeErr e \<and>
     (tables_ok bp e \<longrightarrow> tables_ok bp e' \<and> answered e is evs e') \<and> (closed_ok e \<longrightarrow> closed_ok e')"

lemma pending_removed [simp]: "pending i (e\<lparr>e_pending := tbl_del j (e_pending e)\<rparr>) \<longleftrightarrow> i \<noteq> j \<and> pending i e"
  by (simp add: pending_def)

lemma pending_added [simp]: "pending i (e\<lparr>e_pending := tbl_put j p (e_pending e)\<rparr>) \<longleftrightarrow> i = j \<or> pending i e"
  by (simp add: pending_def)

lemma removed_ok:
  "tables_ok bp e \<Longrightarrow> tables_ok bp (e\<lparr>e_pending := tbl_del i (e_pending e)\<rparr>)"
  "closed_ok e \<Longrightarrow> closed_ok (e\<lparr>e_pending := tbl_del i (e_pending e)\<rparr>)"
  using length_tbl_del [of i "e_pending e"]
  by (auto simp: tables_ok_def closed_ok_def streams_ok_def limits_ok_def tbl_del_def [of _ "[]"])

lemma delivered_reports [simp]: "delivered i (map EvReport rs) = 0"
  by (induction rs) simp_all

lemma addPending_step:
  assumes "addPending side bp i p e = (r, e', evs)"
  shows "table_step bp e (if r = None then [i] else []) evs e'"
proof (cases r)
  case (Some err)
  with assms have "e' = e" "\<forall>j. delivered j evs = 0" by (auto simp: addPending_def split: if_splits)
  then show ?thesis by (simp add: table_step_def answered_same)
next
  case None
  with assms have o: "\<not> e_closed e" and e': "e' = e\<lparr>e_pending := tbl_put i p (e_pending e)\<rparr>" "evs = []"
    and lim: "MaxPendingCalls bp > 0 \<longrightarrow> int (length (e_pending e)) < MaxPendingCalls bp"
    by (auto simp: addPending_def split: if_splits)
  from lim length_tbl_put [of i p "e_pending e"]
  have "MaxPendingCalls bp > 0 \<longrightarrow> int (length (tbl_put i p (e_pending e))) \<le> MaxPendingCalls bp" by linarith
  with o e' None show ?thesis
    by (simp add: table_step_def tables_ok_def closed_ok_def streams_ok_def limits_ok_def answered_def)
qed

lemma removePending_step: "table_step bp e [] [] (removePending i e)"
  by (simp add: table_step_def removePending_def removed_ok answered_def)

lemma complete_step:
  assumes "complete i resp e = (r, e', evs)"
  shows "table_step bp e [] evs e'"
proof (cases "map_of (e_pending e) i")
  case None
  with assms show ?thesis by (simp add: complete_def table_step_def answered_same)
next
  case (Some p)
  then have "pending i e" by (simp add: pending_def)
  with Some assms show ?thesis
    by (auto simp: complete_def deliverPending_def table_step_def removed_ok answered_def)
qed

lemma new_ctx_step:
  assumes "new_ctx e = (k, e')"
  shows "table_step bp e [] [] e'"
proof -
  from assms have "e' = e\<lparr>e_nextCtx := Suc (e_nextCtx e)\<rparr>" by (auto simp: new_ctx_def)
  then show ?thesis
    by (simp add: table_step_def answered_same tables_ok_def closed_ok_def streams_ok_def limits_ok_def)
qed

lemma on_done_more [simp]:
  "extension (on_done ref e) = extension e" "e_closed (on_done ref e) = e_closed e"
  "e_closeErr (on_done ref e) = e_closeErr e" "e_heap (on_done ref e) = e_heap e"
  "e_nextRef (on_done ref e) = e_nextRef e" "e_requests (on_done ref e) = e_requests e"
  by (auto simp: on_done_def removeStream_def removePending_def split: option.splits)

lemma put_stream_simps [simp]:
  "extension (put_stream ref s e) = extension e" "e_closed (put_stream ref s e) = e_closed e"
  "e_closeErr (put_stream ref s e) = e_closeErr e" "e_pending (put_stream ref s e) = e_pending e"
  "e_requests (put_stream ref s e) = e_requests e" "e_streams (put_stream ref s e) = e_streams e"
  "e_nextRef (put_stream ref s e) = e_nextRef e"
  by (simp_all add: put_stream_def split: option.splits)

lemma run_effects_on_done:
  "run_effects ref es e = (e', evs) \<Longrightarrow> e' = (on_done ref ^^ dones es) e \<and> (\<forall>i. delivered i evs = 0)"
proof (induction es arbitrary: e evs)
  case (Cons x es)
  then show ?case
    by (cases x) (auto simp: dones_def funpow_swap1 split: prod.splits)
qed (simp add: dones_def)

lemma streams_of_ref:
  assumes "streams_ok e" "(i, ref) \<in> set (e_streams e)" "e_heap e ref = Some (s, d)"
  shows "s_requestID s = i" "\<not> s_done s" "map_of (e_streams e) i = Some ref"
proof -
  from assms obtain s' d' where "e_heap e ref = Some (s', d')" "s_requestID s' = i" "\<not> s_done s'"
    unfolding streams_ok_def by blast
  with assms(3) show "s_requestID s = i" "\<not> s_done s" by simp_all
  from assms(1,2) show "map_of (e_streams e) i = Some ref" by (simp add: streams_ok_def tbl_ok_def)
qed

lemma streams_okI:
  assumes "tbl_ok (e_streams e)"
    "\<And>i ref. (i, ref) \<in> set (e_streams e) \<Longrightarrow> \<exists>s d. e_heap e ref = Some (s, d) \<and> s_requestID s = i \<and> \<not> s_done s"
    "\<And>ref. e_nextRef e \<le> ref \<Longrightarrow> e_heap e ref = None"
  shows "streams_ok e"
  using assms by (simp add: streams_ok_def)

lemma streams_okD:
  assumes "streams_ok e"
  shows "tbl_ok (e_streams e)"
    "(i, ref) \<in> set (e_streams e) \<Longrightarrow> \<exists>s d. e_heap e ref = Some (s, d) \<and> s_requestID s = i \<and> \<not> s_done s"
    "e_nextRef e \<le> ref \<Longrightarrow> e_heap e ref = None"
  using assms by (simp_all add: streams_ok_def)

lemma put_running_streams_ok:
  assumes ok: "streams_ok e" and h: "e_heap e ref = Some (s, d)"
    and s': "s_requestID s' = s_requestID s" "s_done s' = s_done s"
  shows "streams_ok (put_stream ref s' e)"
proof (rule streams_okI)
  have h': "e_heap (put_stream ref s' e) = (e_heap e)(ref \<mapsto> (s', d))" using h by (simp add: put_stream_def)
  show "tbl_ok (e_streams (put_stream ref s' e))" using ok by (simp add: streams_okD)
  show "e_heap (put_stream ref s' e) q = None" if "e_nextRef (put_stream ref s' e) \<le> q" for q
    using that ok h streams_okD(3) [OF ok, of q] by (auto simp: h')
  show "\<exists>s d. e_heap (put_stream ref s' e) q = Some (s, d) \<and> s_requestID s = i \<and> \<not> s_done s"
    if "(i, q) \<in> set (e_streams (put_stream ref s' e))" for i q
    using that streams_okD(2) [OF ok, of i q] streams_of_ref [OF ok _ h, of i] s'
    by (cases "q = ref") (auto simp: h')
qed

lemma done_tables:
  assumes h: "e_heap e ref = Some (s, d)" and r: "s_requestID s' = s_requestID s"
  shows "e_streams (on_done ref (put_stream ref s' e)) =
       (if map_of (e_streams e) (s_requestID s) = Some ref then tbl_del (s_requestID s) (e_streams e) else e_streams e)"
    "e_pending (on_done ref (put_stream ref s' e)) = (if d then tbl_del (s_requestID s) (e_pending e) else e_pending e)"
    "e_heap (on_done ref (put_stream ref s' e)) = (e_heap e)(ref \<mapsto> (s', d))"
  using h r by (simp_all add: put_stream_def on_done_def removeStream_def the_stream_def removePending_def)

lemma done_streams_ok:
  assumes ok: "streams_ok e" and h: "e_heap e ref = Some (s, d)" and r: "s_requestID s' = s_requestID s"
  shows "streams_ok (on_done ref (put_stream ref s' e))" (is "streams_ok ?e")
proof (rule streams_okI)
  note t = done_tables [OF h r]
  show "tbl_ok (e_streams ?e)" using ok by (simp add: t streams_okD)
  show "e_heap ?e q = None" if "e_nextRef ?e \<le> q" for q
    using that h streams_okD(3) [OF ok, of q] unfolding t(3) by auto
  show "\<exists>s d. e_heap ?e q = Some (s, d) \<and> s_requestID s = i \<and> \<not> s_done s" if q: "(i, q) \<in> set (e_streams ?e)" for i q
  proof -
    from q have q': "(i, q) \<in> set (e_streams e)" by (auto simp: t split: if_splits)
    have "q \<noteq> ref"
    proof
      assume "q = ref"
      with streams_of_ref [OF ok _ h] q' have "s_requestID s = i" "map_of (e_streams e) i = Some ref" by auto
      with q show False by (auto simp: t)
    qed
    with q' streams_okD(2) [OF ok] show ?thesis unfolding t(3) by simp
  qed
qed

lemma on_stream_step:
  assumes g: "stream_op g" and r: "on_stream ref g e = (e', evs)"
  shows "table_step bp e [] evs e'"
proof (cases "e_heap e ref")
  case None
  with r show ?thesis by (simp add: on_stream_def the_stream_def table_step_def answered_same)
next
  case (Some sd)
  obtain s d where sd: "sd = (s, d)" by fastforce
  obtain s' es where gs: "g s = (s', es)" by fastforce
  let ?e = "put_stream ref s' e"
  from r Some sd gs have "run_effects ref es ?e = (e', evs)" by (simp add: on_stream_def the_stream_def)
  from run_effects_on_done [OF this] have e': "e' = (on_done ref ^^ dones es) ?e" and ev: "\<forall>i. delivered i evs = 0"
    by simp_all
  from g gs have id: "s_requestID s' = s_requestID s" and dn: "dones es + of_bool (s_done s) = of_bool (s_done s')"
    by (metis stream_op_def ends_once_def fst_conv snd_conv)+
  note h = Some [unfolded sd]
  consider (running) "dones es = 0" "s_done s' = s_done s" | (ended) "dones es = 1"
    using dn by (cases "s_done s"; cases "s_done s'") auto
  then show ?thesis
  proof cases
    case running
    with e' have "e' = ?e" by simp
    with put_running_streams_ok [OF _ h id running(2)] ev show ?thesis
      by (auto simp: table_step_def tables_ok_def closed_ok_def limits_ok_def intro: answered_same)
  next
    case ended
    with e' have e': "e' = on_done ref ?e" by simp
    note d = done_tables [OF h id]
    have "tables_ok bp e' \<and> answered e [] evs e'" if ok: "tables_ok bp e"
    proof -
      from ok have so: "streams_ok e" by (simp add: tables_ok_def)
      have "length (e_streams e') \<le> length (e_streams e)" "length (e_pending e') \<le> length (e_pending e)"
        "tbl_ok (e_pending e')" "\<And>i. pending i e' \<Longrightarrow> pending i e"
        using ok unfolding e' d(1,2) pending_def by (auto simp: length_tbl_del tables_ok_def split: if_splits)
      then show ?thesis using ok done_streams_ok [OF so h id] ev
        by (auto simp: e' tables_ok_def limits_ok_def answered_def of_bool_def)
    qed
    moreover have "closed_ok e \<longrightarrow> closed_ok e'"
      unfolding e' closed_ok_def d(1,2) by (simp add: tbl_del_def)
    ultimately show ?thesis by (simp add: table_step_def e')
  qed
qed

lemma newStream_step:
  assumes nd: "\<not> s_done s" and al: "alloc_stream s d e = (ref, e1)"
    and ad: "addStream side bp ref e1 = (r, e', evs)"
  shows "table_step bp e [] evs e'"
proof -
  from al have ref: "ref = e_nextRef e"
    and e1: "e1 = e\<lparr>e_heap := (e_heap e)(ref \<mapsto> (s, d)), e_nextRef := Suc ref\<rparr>"
    by (auto simp: alloc_stream_def)
  have s1: "streams_ok e1" if "streams_ok e"
    by (rule streams_okI) (use streams_okD [OF that] in \<open>fastforce simp: e1 ref\<close>)+
  have ok1: "table_step bp e [] [] e1"
    using s1 by (simp add: table_step_def answered_same e1 tables_ok_def closed_ok_def limits_ok_def)
  have ts: "the_stream ref e1 = Some s" using al by (rule alloc_the_stream)
  show ?thesis
  proof (cases r)
    case (Some err)
    with ad have "e' = e1" "\<forall>i. delivered i evs = 0"
      using ts by (auto simp: addStream_def split: if_splits)
    with ok1 show ?thesis by (simp add: table_step_def answered_def)
  next
    case None
    with ad ts have o: "\<not> e_closed e1" "map_of (e_streams e1) (s_requestID s) = None"
      and e': "e' = e1\<lparr>e_streams := tbl_put (s_requestID s) ref (e_streams e1)\<rparr>" "evs = []"
      and lim: "MaxActiveStreams bp > 0 \<longrightarrow> int (length (e_streams e1)) < MaxActiveStreams bp"
      by (auto simp: addStream_def split: if_splits)
    from lim length_tbl_put [of "s_requestID s" ref "e_streams e1"]
    have "MaxActiveStreams bp > 0 \<longrightarrow> int (length (e_streams e')) \<le> MaxActiveStreams bp"
      by (auto simp: e')
    moreover have "streams_ok e'" if "streams_ok e"
    proof (rule streams_okI)
      note ok = streams_okD [OF s1 [OF that]]
      show "tbl_ok (e_streams e')" using ok(1) by (simp add: e')
      show "e_heap e' q = None" if "e_nextRef e' \<le> q" for q using ok(3) [of q] that by (simp add: e')
      show "\<exists>s d. e_heap e' q = Some (s, d) \<and> s_requestID s = i \<and> \<not> s_done s" if "(i, q) \<in> set (e_streams e')" for i q
        using that ok(2) [of i q] nd by (auto simp: e' e1)
    qed
    ultimately show ?thesis using o
      by (simp add: table_step_def e' e1 answered_same tables_ok_def closed_ok_def limits_ok_def)
  qed
qed

subsection \<open>Failing everything\<close>

text \<open>The common part of closing an endpoint and of losing its connection: all streams, all requests,
  all pending calls.\<close>

definition fail_all :: "gerror \<Rightarrow> ('v, 'm) Endpoint_scheme \<Rightarrow> ('v, 'm) Endpoint_scheme \<times> event list" where
  "fail_all err e =
     (let (e, evs1) = failStreams (Some err) e; (e, evs2) = cancelRequests e; (e, evs3) = failPending (Some err) e
      in (e, evs1 @ evs2 @ evs3))"

lemma table_step_trans:
  "table_step bp e is evs e' \<Longrightarrow> table_step bp e' is' evs' e'' \<Longrightarrow> table_step bp e (is @ is') (evs @ evs') e''"
  using answered_trans by (auto simp: table_step_def)

lemma on_stream_tables:
  assumes "stream_op g" "on_stream ref g e = (e', evs)"
  shows "e_streams e = [] \<Longrightarrow> e_streams e' = []" "e_requests e' = e_requests e"
    "e_nextRef e' = e_nextRef e"
proof -
  have r: "run_effects ref es x = (x', ev) \<Longrightarrow>
      (e_streams x = [] \<longrightarrow> e_streams x' = []) \<and> e_requests x' = e_requests x \<and> e_nextRef x' = e_nextRef x"
    for es x x' ev
    by (induction ref es x arbitrary: x' ev rule: run_effects.induct)
      (fastforce simp: on_done_def removeStream_def removePending_def tbl_del_def split: prod.splits option.splits if_splits)+
  from assms(2) show "e_streams e = [] \<Longrightarrow> e_streams e' = []" "e_requests e' = e_requests e" "e_nextRef e' = e_nextRef e"
    by (auto simp: on_stream_def split: option.splits prod.splits dest!: r)
qed

text \<open>A stream that was failed: it has ended, with the error unless it had a cause already.\<close>

definition failed_with :: "gerror \<Rightarrow> 'v Stream \<Rightarrow> 'v Stream \<Rightarrow> bool" where
  "failed_with err s s' \<longleftrightarrow>
     (if s_done s then s' = s
      else s_done s' \<and> s_ctx s' = (case s_ctx s of None \<Rightarrow> Some err | Some c \<Rightarrow> Some c) \<and> recvClosed s')"

lemma deliverError_fails: "failed_with err s (fst (deliverError (Some err) s))"
  by (simp add: failed_with_def deliverError_def stream_end_defs split: option.splits)

lemma run_effects_heap: "run_effects ref es e = (e', evs) \<Longrightarrow> e_heap e' = e_heap e"
  by (induction ref es e arbitrary: e' evs rule: run_effects.induct) (auto split: prod.splits)

lemma on_stream_heap:
  assumes "on_stream ref g e = (e', evs)" "e_heap e ref = Some (s, d)"
  shows "e_heap e' = (e_heap e)(ref \<mapsto> (fst (g s), d))"
  using assms
  by (auto simp: on_stream_def the_stream_def put_stream_def split: prod.splits dest!: run_effects_heap)

lemma deliver_errors_step:
  assumes "deliver_errors err xs e = (e', evs)"
  shows "table_step bp e [] evs e' \<and> (e_streams e = [] \<longrightarrow> e_streams e' = []) \<and> e_requests e' = e_requests e \<and>
    (\<forall>ref s d. e_heap e ref = Some (s, d) \<longrightarrow>
       (\<exists>s'. e_heap e' ref = Some (s', d) \<and> (if ref \<in> snd ` set xs then failed_with err s s' else s' = s)))"
  using assms
proof (induction xs arbitrary: e evs)
  case Nil
  then show ?case by (simp add: table_step_def answered_same)
next
  case (Cons x xs)
  obtain i r where x: "x = (i, r)" by fastforce
  obtain e1 ev1 where o: "on_stream r (deliverError (Some err)) e = (e1, ev1)" by fastforce
  obtain e2 ev2 where t: "deliver_errors err xs e1 = (e2, ev2)" by fastforce
  from Cons.prems x o t have r': "e' = e2" "evs = ev1 @ ev2" by simp_all
  note IH = Cons.IH [OF t [folded r'(1)]]
  note st = on_stream_step [OF deliverError_stream_op o, of bp]
  note tb = on_stream_tables [OF deliverError_stream_op o]
  have "\<exists>s'. e_heap e' q = Some (s', d) \<and> (if q \<in> snd ` set (x # xs) then failed_with err s s' else s' = s)"
    if h: "e_heap e q = Some (s, d)" for q s d
  proof -
    let ?s = "if q = r then fst (deliverError (Some err) s) else s"
    have "e_heap e1 q = Some (?s, d)"
    proof (cases "e_heap e r")
      case None
      with o h show ?thesis by (auto simp: on_stream_def the_stream_def)
    next
      case (Some y)
      then show ?thesis using on_stream_heap [OF o, of "fst y" "snd y"] h by (cases "q = r") auto
    qed
    with IH obtain s' where s': "e_heap e' q = Some (s', d)"
      "if q \<in> snd ` set xs then failed_with err ?s s' else s' = ?s" by blast
    have "failed_with err s s'" if "q = r"
      using s'(2) that deliverError_fails [of err s] by (auto simp: failed_with_def split: if_splits)
    with s' show ?thesis by (auto simp: x split: if_splits)
  qed
  with IH tb table_step_trans [OF st, of "[]" ev2 e'] r' show ?case by auto
qed

lemma failPending_delivers:
  assumes "tbl_ok (e_pending e)" "failPending err e = (e', evs)"
  shows "e' = e\<lparr>e_pending := []\<rparr>" "delivered i evs = of_bool (pending i e)"
proof -
  have d: "tbl_ok t \<Longrightarrow> delivered i (concat (map (\<lambda>(i, p). deliverPending i p r) t)) = of_bool (map_of t i \<noteq> None)"
    for t r
  proof (induction t)
    case (Cons x t)
    then have "tbl_ok t" "map_of t (fst x) = None" by (auto simp: tbl_ok_def map_of_eq_None_iff)
    with Cons.IH show ?case by (auto simp: deliverPending_def split: prod.splits)
  qed simp
  from assms d show "e' = e\<lparr>e_pending := []\<rparr>" "delivered i evs = of_bool (pending i e)"
    by (auto simp: failPending_def Let_def pending_def)
qed

lemma failStreams_step:
  assumes "failStreams err e = (e', evs)"
  shows "table_step bp e [] evs e'" "e_streams e' = []" "e_requests e' = e_requests e"
    "\<And>ref s d. e_heap e ref = Some (s, d) \<Longrightarrow>
       \<exists>s'. e_heap e' ref = Some (s', d) \<and>
         (if ref \<in> snd ` set (e_streams e)
          then failed_with (case err of None \<Rightarrow> Sentinel ErrUnavailable | Some x \<Rightarrow> x) s s' else s' = s)"
proof -
  let ?e = "e\<lparr>e_streams := []\<rparr>"
  have s: "table_step bp e [] [] ?e"
    by (simp add: table_step_def answered_same tables_ok_def closed_ok_def limits_ok_def streams_ok_def)
  note d = deliver_errors_step [OF assms [unfolded failStreams_def], of bp]
  from d table_step_trans [OF s, of "[]" evs e'] show "table_step bp e [] evs e'" by simp
  from d show "e_streams e' = []" "e_requests e' = e_requests e" by simp_all
  fix ref s d'
  assume "e_heap e ref = Some (s, d')"
  with d show "\<exists>s'. e_heap e' ref = Some (s', d') \<and>
         (if ref \<in> snd ` set (e_streams e)
          then failed_with (case err of None \<Rightarrow> Sentinel ErrUnavailable | Some x \<Rightarrow> x) s s' else s' = s)"
    by simp
qed

lemma fail_all_step:
  assumes "fail_all err e = (e', evs)" "tables_ok bp e"
  shows "tables_ok bp e'" "answered e [] evs e'" "extension e' = extension e" "e_closed e' = e_closed e"
    "e_closeErr e' = e_closeErr e" "e_pending e' = []" "e_streams e' = []" "e_requests e' = []"
    "\<And>ref s d. e_heap e ref = Some (s, d) \<Longrightarrow>
       \<exists>s'. e_heap e' ref = Some (s', d) \<and> (if ref \<in> snd ` set (e_streams e) then failed_with err s s' else s' = s)"
    "(i, k) \<in> set (e_requests e) \<Longrightarrow> EvCancelCtx k \<in> set evs"
proof -
  obtain e1 ev1 where fs: "failStreams (Some err) e = (e1, ev1)" by fastforce
  obtain e2 ev2 where cr: "cancelRequests e1 = (e2, ev2)" by fastforce
  obtain e3 ev3 where fp: "failPending (Some err) e2 = (e3, ev3)" by fastforce
  from assms(1) fs cr fp have r: "e' = e3" "evs = ev1 @ ev2 @ ev3" by (simp_all add: fail_all_def)
  note s1 = failStreams_step(1) [OF fs, of bp] failStreams_step(2-4) [OF fs]
  from s1(1) assms(2) have t1: "tables_ok bp e1" "answered e [] ev1 e1" by (simp_all add: table_step_def)
  from cr have e2: "e2 = e1\<lparr>e_requests := []\<rparr>" and ev2: "ev2 = map (\<lambda>(_, k). EvCancelCtx k) (e_requests e1)"
    by (auto simp: cancelRequests_def)
  have "delivered i (map (\<lambda>(_, k). EvCancelCtx k) t) = 0" for i and t :: "(u64 \<times> nat) list"
    by (induction t) auto
  then have a2: "answered e1 [] ev2 e2" by (intro answered_same) (simp_all add: e2 ev2)
  have tp: "tbl_ok (e_pending e2)" using t1 by (simp add: e2 tables_ok_def)
  note e3 = failPending_delivers [OF tp fp]
  have a3: "answered e2 [] ev3 e3" using e3 by (simp add: answered_def) (simp add: pending_def)
  from answered_trans [OF answered_trans [OF t1(2) a2] a3] r show "answered e [] evs e'" by simp
  from t1(1) show "tables_ok bp e'" by (simp add: r e3 e2 tables_ok_def limits_ok_def streams_ok_def)
  from s1(1) show "extension e' = extension e" "e_closed e' = e_closed e" "e_closeErr e' = e_closeErr e"
    by (simp_all add: r e3 e2 table_step_def)
  from s1(2) show "e_pending e' = []" "e_streams e' = []" "e_requests e' = []" by (simp_all add: r e3 e2)
  show "\<exists>s'. e_heap e' ref = Some (s', d) \<and> (if ref \<in> snd ` set (e_streams e) then failed_with err s s' else s' = s)"
    if "e_heap e ref = Some (s, d)" for ref s d
    using s1(4) [OF that] unfolding r e3 e2 by (cases "ref \<in> snd ` set (e_streams e)") auto
  show "EvCancelCtx k \<in> set evs" if "(i, k) \<in> set (e_requests e)"
    using that s1(3) by (force simp: r ev2)
qed

text \<open>The pending call of a client stream belongs to its stream, which drops it when it ends; every
  other pending call gets the error as its response.\<close>

definition stream_owned :: "u64 \<Rightarrow> ('v, 'm) Endpoint_scheme \<Rightarrow> bool" where
  "stream_owned i e \<longleftrightarrow> (\<exists>ref s. ref \<in> snd ` set (e_streams e) \<and> e_heap e ref = Some (s, True) \<and> s_requestID s = i)"

lemma run_effects_events: "run_effects ref es e = (e', evs) \<Longrightarrow> EvNetClose \<notin> set evs"
  by (induction ref es e arbitrary: e' evs rule: run_effects.induct) (auto split: prod.splits)

lemma on_stream_events: "on_stream ref g e = (e', evs) \<Longrightarrow> EvNetClose \<notin> set evs"
  by (auto simp: on_stream_def split: option.splits prod.splits dest: run_effects_events)

lemma deliver_errors_events: "deliver_errors err xs e = (e', evs) \<Longrightarrow> EvNetClose \<notin> set evs"
  by (induction err xs e arbitrary: e' evs rule: deliver_errors.induct) (auto split: prod.splits dest: on_stream_events)

lemma on_done_pending:
  assumes "(i, p) \<in> set (e_pending e)" "\<And>s. e_heap e ref = Some (s, True) \<Longrightarrow> s_requestID s \<noteq> i"
  shows "(i, p) \<in> set (e_pending (on_done ref e))"
  using assms by (auto simp: on_done_def removeStream_def removePending_def split: option.splits)

lemma run_effects_pending:
  "run_effects ref es e = (e', evs) \<Longrightarrow> (i, p) \<in> set (e_pending e) \<Longrightarrow>
   (\<And>s. e_heap e ref = Some (s, True) \<Longrightarrow> s_requestID s \<noteq> i) \<Longrightarrow> (i, p) \<in> set (e_pending e')"
proof (induction ref es e arbitrary: e' evs rule: run_effects.induct)
  case (2 ref r es e)
  then show ?case using on_done_pending [of i p e ref] by simp
qed (auto split: prod.splits)

lemma on_stream_pending:
  assumes g: "stream_op g" and r: "on_stream ref g e = (e', evs)" and p: "(i, p) \<in> set (e_pending e)"
    and n: "\<And>s. e_heap e ref = Some (s, True) \<Longrightarrow> s_requestID s \<noteq> i"
  shows "(i, p) \<in> set (e_pending e')"
proof (cases "e_heap e ref")
  case (Some x)
  obtain s d where x: "x = (s, d)" by fastforce
  obtain s' es where gs: "g s = (s', es)" by fastforce
  from g gs have id: "s_requestID s' = s_requestID s" by (metis stream_op_def ends_once_def fst_conv snd_conv)
  from r Some x gs have e: "run_effects ref es (put_stream ref s' e) = (e', evs)"
    by (simp add: on_stream_def the_stream_def)
  have "e_heap (put_stream ref s' e) ref = Some (s', d)" using Some x by (simp add: put_stream_def)
  with run_effects_pending [OF e, of i p] p n Some x id show ?thesis by auto
qed (use r p in \<open>simp add: on_stream_def the_stream_def\<close>)

lemma on_stream_ids:
  assumes g: "stream_op g" and r: "on_stream ref g e = (e', evs)" and h: "e_heap e' q = Some (s', d)"
  shows "\<exists>s. e_heap e q = Some (s, d) \<and> s_requestID s = s_requestID s'"
proof (cases "e_heap e ref")
  case (Some x)
  obtain s d' where x: "x = (s, d')" by fastforce
  have "s_requestID (fst (g s)) = s_requestID s" using g by (simp add: stream_op_def ends_once_def)
  with on_stream_heap [OF r, of s d'] Some x h show ?thesis by (cases "q = ref") auto
qed (use r h in \<open>simp add: on_stream_def the_stream_def\<close>)

lemma deliver_errors_pending:
  "deliver_errors err xs e = (e', evs) \<Longrightarrow> (i, p) \<in> set (e_pending e) \<Longrightarrow>
   (\<And>ref s. ref \<in> snd ` set xs \<Longrightarrow> e_heap e ref = Some (s, True) \<Longrightarrow> s_requestID s \<noteq> i) \<Longrightarrow>
   (i, p) \<in> set (e_pending e')"
proof (induction err xs e arbitrary: e' evs rule: deliver_errors.induct)
  case (2 err j ref xs e)
  obtain e1 ev1 where o: "on_stream ref (deliverError (Some err)) e = (e1, ev1)" by fastforce
  obtain e2 ev2 where t: "deliver_errors err xs e1 = (e2, ev2)" by fastforce
  from 2(2) o t have e': "e' = e2" by simp
  have "(i, p) \<in> set (e_pending e1)"
    by (rule on_stream_pending [OF deliverError_stream_op o 2(3)]) (use 2(4) in auto)
  moreover have "s_requestID s \<noteq> i" if "q \<in> snd ` set xs" "e_heap e1 q = Some (s, True)" for q s
    using on_stream_ids [OF deliverError_stream_op o that(2)] 2(4) [of q] that(1) by auto
  ultimately show ?case using "2.IH" [OF o [symmetric] t] e' by blast
qed simp

lemma fail_all_answers:
  assumes "fail_all err e = (e', evs)" "(i, p) \<in> set (e_pending e)" "\<not> stream_owned i e"
  shows "EvDeliver i p \<lparr>cr_frame = zeroFrame, cr_err = Some err\<rparr> \<in> set evs"
proof -
  obtain e1 ev1 where fs: "failStreams (Some err) e = (e1, ev1)" by fastforce
  have "(i, p) \<in> set (e_pending e1)"
    by (rule deliver_errors_pending [OF fs [unfolded failStreams_def]])
      (use assms(2,3) in \<open>auto simp: stream_owned_def\<close>)
  with assms(1) fs show ?thesis
    by (force simp: fail_all_def cancelRequests_def failPending_def deliverPending_def Let_def split: prod.splits)
qed

lemma fail_all_events:
  assumes "fail_all err e = (e', evs)"
  shows "EvNetClose \<notin> set evs"
  using assms
  by (auto simp: fail_all_def failStreams_def cancelRequests_def failPending_def deliverPending_def Let_def
      split: prod.splits dest: deliver_errors_events)

lemma fail_all_keeps:
  assumes "fail_all err e = (e', evs)"
  shows "e_closed e' = e_closed e" "e_closeErr e' = e_closeErr e" "extension e' = extension e"
proof -
  obtain e1 ev1 where fs: "failStreams (Some err) e = (e1, ev1)" by fastforce
  from failStreams_step(1) [OF fs] assms fs show "e_closed e' = e_closed e" "e_closeErr e' = e_closeErr e"
      "extension e' = extension e"
    by (auto simp: table_step_def fail_all_def cancelRequests_def failPending_def Let_def)
qed

lemma requests_ok:
  "endpoint_ok bp e \<Longrightarrow> endpoint_ok bp (e\<lparr>e_requests := tbl_del i (e_requests e)\<rparr>)"
  "endpoint_ok bp e \<Longrightarrow> \<not> e_closed e \<Longrightarrow> endpoint_ok bp (e\<lparr>e_requests := tbl_put i k (e_requests e)\<rparr>)"
  by (simp_all add: endpoint_ok_def tables_ok_def closed_ok_def streams_ok_def limits_ok_def tbl_del_def [of _ "[]"])

subsection \<open>The contract of a link\<close>

text \<open>What a run keeps: the invariant, what the connection adds to it, the account of answers; and an
  endpoint stays closed.\<close>

definition kept ::
  "BackpressureOptions \<Rightarrow> (('v, 'm) Endpoint_scheme \<Rightarrow> bool) \<Rightarrow> ('v, 'm) Endpoint_scheme \<Rightarrow> u64 list \<Rightarrow>
   event list \<Rightarrow> ('v, 'm) Endpoint_scheme \<Rightarrow> bool" where
  "kept bp extra e is evs e' \<longleftrightarrow>
     endpoint_ok bp e' \<and> extra e' \<and> answered e is evs e' \<and> (e_closed e \<longrightarrow> e_closed e')"

lemma kept_same: "endpoint_ok bp e \<Longrightarrow> extra e \<Longrightarrow> kept bp extra e is [] e"
  by (simp add: kept_def answered_same)

lemma kept_trans:
  "kept bp extra e is evs e' \<Longrightarrow> kept bp extra e' is' evs' e'' \<Longrightarrow> kept bp extra e (is @ is') (evs @ evs') e''"
  using answered_trans by (auto simp: kept_def)

lemma kept_mono:
  assumes "kept bp extra e is evs e'" "\<And>i. count_list is i \<le> count_list is' i"
  shows "kept bp extra e is' evs e'"
proof -
  have "answered e is' evs e'"
    unfolding answered_def
  proof
    fix i
    from assms(1) have "delivered i evs + of_bool (pending i e') \<le> of_bool (pending i e) + count_list is i"
      by (simp add: kept_def answered_def)
    with assms(2) [of i] show "delivered i evs + of_bool (pending i e') \<le> of_bool (pending i e) + count_list is' i"
      by simp
  qed
  with assms(1) show ?thesis by (simp add: kept_def)
qed

locale endpoint_link =
  fixes lk :: "('v, ('v, 'm) Endpoint_scheme) link" and bp :: BackpressureOptions
    and extra :: "('v, 'm) Endpoint_scheme \<Rightarrow> bool"
  assumes extra_cong: "extension e' = extension e \<Longrightarrow> e_closed e' = e_closed e \<Longrightarrow> extra e' = extra e"
    and newID: "lk_newID lk e = (i, e') \<Longrightarrow> same_tables e e' \<and> (extra e \<longrightarrow> extra e')"
    and writing: "lk_write lk f e = (r, e', evs) \<Longrightarrow>
      same_tables e e' \<and> (extra e \<longrightarrow> extra e') \<and> (\<forall>i. delivered i evs = 0)"
    and failed: "lk_onWriteError lk err e = (e', evs) \<Longrightarrow> endpoint_ok bp e \<Longrightarrow> extra e \<Longrightarrow>
      endpoint_ok bp e' \<and> extra e' \<and> answered e [] evs e' \<and> (e_closed e \<longrightarrow> e_closed e')"
    and track: "lk_track lk i k e = (ok, e') \<Longrightarrow> endpoint_ok bp e \<Longrightarrow> extra e \<Longrightarrow>
      endpoint_ok bp e' \<and> extra e' \<and> e_pending e' = e_pending e \<and> e_closed e' = e_closed e"
    and untrack: "lk_untrack lk i e = e' \<Longrightarrow> endpoint_ok bp e \<Longrightarrow> extra e \<Longrightarrow>
      endpoint_ok bp e' \<and> extra e' \<and> e_pending e' = e_pending e \<and> e_closed e' = e_closed e"
begin

lemma table_kept: "table_step bp e is evs e' \<Longrightarrow> endpoint_ok bp e \<Longrightarrow> extra e \<Longrightarrow> kept bp extra e is evs e'"
  using extra_cong [of e' e] by (auto simp: table_step_def endpoint_ok_def kept_def)

lemma same_kept:
  "same_tables e e' \<Longrightarrow> extra e' \<Longrightarrow> \<forall>i. delivered i evs = 0 \<Longrightarrow> endpoint_ok bp e \<Longrightarrow> kept bp extra e [] evs e'"
  using same_tables_ok [of e e' bp] by (simp add: kept_def same_tables_def answered_same)

lemma astep_kept: "astep lk bp e is evs e' \<Longrightarrow> endpoint_ok bp e \<Longrightarrow> extra e \<Longrightarrow> kept bp extra e is evs e'"
proof (induction rule: astep.induct)
  case (a_newID e i e')
  then show ?case using newID [OF a_newID.hyps] by (simp add: same_kept)
next
  case (a_register i p e e' evs)
  then show ?case using addPending_step [OF a_register.hyps] by (simp add: table_kept)
next
  case (a_refuse i p e err e' evs)
  then show ?case using addPending_step [OF a_refuse.hyps] by (simp add: table_kept)
next
  case (a_unregister i e e')
  then show ?case using removePending_step table_kept by blast
next
  case (a_write f e r e' evs)
  then show ?case using writing [OF a_write.hyps] by (simp add: same_kept)
next
  case (a_failed err e e' evs)
  then show ?case using failed [OF a_failed.hyps] by (simp add: kept_def)
next
  case (a_track i k e r e')
  then show ?case using track [OF a_track.hyps] by (simp add: kept_def answered_same)
next
  case (a_untrack i e e')
  then show ?case using untrack [OF a_untrack.hyps] by (simp add: kept_def answered_same)
next
  case (a_newStream s d e ref e1 r e' evs)
  then show ?case using newStream_step table_kept by blast
next
  case (a_stream g ref e e' evs)
  then show ?case using on_stream_step table_kept by blast
next
  case (a_complete i resp e r e' evs)
  then show ?case using complete_step table_kept by blast
next
  case (a_newCtx e k e')
  then show ?case using new_ctx_step table_kept by blast
qed (simp_all add: kept_def answered_same)

lemma asteps_kept:
  "asteps lk bp e is evs e' \<Longrightarrow> endpoint_ok bp e \<Longrightarrow> extra e \<Longrightarrow> kept bp extra e is evs e'"
proof (induction rule: asteps.induct)
  case (asteps_refl e)
  then show ?case by (simp add: kept_same)
next
  case (asteps_step e "is" evs e' is' evs' e'')
  from astep_kept [OF asteps_step.hyps(1) asteps_step.prems] have k: "kept bp extra e is evs e'" .
  then have "endpoint_ok bp e'" "extra e'" by (simp_all add: kept_def)
  with kept_trans [OF k asteps_step.IH] show ?case by blast
qed

lemma quiet_kept:
  "quiet lk bp e evs e' \<Longrightarrow> endpoint_ok bp e \<Longrightarrow> extra e \<Longrightarrow> kept bp extra e is evs e'"
  using kept_mono [OF asteps_kept, of e "[]"] by simp

lemma registered_kept:
  assumes "\<exists>is. asteps lk bp e is evs e' \<and> (is = [] \<or> is = [fst (lk_newID lk e)])"
    and "endpoint_ok bp e" "extra e"
  shows "kept bp extra e [fst (lk_newID lk e)] evs e'"
proof -
  from assms(1) obtain "is" where i: "asteps lk bp e is evs e'" "is = [] \<or> is = [fst (lk_newID lk e)]" by auto
  show ?thesis by (rule kept_mono [OF asteps_kept [OF i(1) assms(2,3)]]) (use i(2) in auto)
qed

end

end
