(* ===== verification/Server_Conn.thy ===== *)
theory Server_Conn
  imports Link_Steps
begin

text \<open>
  The accepting side (\<^verbatim>\<open>server.go\<close>, \<^verbatim>\<open>broadcast.go\<close>, \<^verbatim>\<open>connection_generation.go\<close>): the connection
  \<open>Conn\<close>, its link, and the server that holds the connections.
\<close>

subsection \<open>Connections\<close>

record 'v Conn = "'v Endpoint" +
  c_clientName :: string
  c_flowControl :: bool
  c_ready :: bool
  c_generation :: u64
  c_remoteAddr :: string
  c_localAddr :: string

function nextConnectionGeneration :: "u64 \<Rightarrow> u64" where
  "nextConnectionGeneration counter =
     (let generation = counter + 1 in
      if generation \<noteq> 0 then generation else nextConnectionGeneration generation)"
  by pat_completeness auto
termination
  by (relation "measure (\<lambda>n. if n = 0 then 0 else 1)") (auto split: if_splits)

declare nextConnectionGeneration.simps [simp del]

definition newConn :: "('v, 'c) Config_scheme \<Rightarrow> Writer \<Rightarrow> u64 \<Rightarrow> 'v Conn" where
  "newConn server w counter =
     \<lparr>e_writer = w, e_compressor = None, e_deadlineErr = None, e_nextID = 0,
      e_limiter = newWriteLimiter (MaxConcurrentWrites (cf_backpressure server)),
      e_pending = [], e_requests = [], e_streams = [], e_heap = (\<lambda>_. None), e_nextRef = 0, e_nextCtx = 0,
      e_closed = False, e_closeErr = None,
      c_clientName = '''', c_flowControl = False, c_ready = False,
      c_generation = nextConnectionGeneration counter, c_remoteAddr = '''', c_localAddr = ''''\<rparr>"

definition Conn_SupportsStreamFlowControl :: "'v Conn option \<Rightarrow> bool" where
  "Conn_SupportsStreamFlowControl c =
     (case c of None \<Rightarrow> False | Some c \<Rightarrow> if e_closed c then False else c_flowControl c)"

definition Conn_nextRequestID :: "'v Conn \<Rightarrow> u64 \<times> 'v Conn" where
  "Conn_nextRequestID c = (e_nextID c + 2, c\<lparr>e_nextID := e_nextID c + 2\<rparr>)"

definition Conn_closeWithError :: "gerror option \<Rightarrow> 'v Conn \<Rightarrow> 'v Conn \<times> event list" where
  "Conn_closeWithError err c =
     (let err = (case err of None \<Rightarrow> Sentinel ErrClosed | Some x \<Rightarrow> x) in
      if e_closed c then (c, [])
      else
        (let c = c\<lparr>e_closeErr := Some err, e_closed := True\<rparr>;
             (c, evs1) = failStreams (Some err) c;
             (c, evs2) = cancelRequests c;
             (c, evs3) = failPending (Some err) c
         in (c, EvNetClose # evs1 @ evs2 @ evs3)))"

definition Conn_close :: "'v Conn \<Rightarrow> 'v Conn \<times> event list" where
  "Conn_close c = Conn_closeWithError (Some (Sentinel ErrClosed)) c"

definition Conn_write :: "('v, 'c) Config_scheme \<Rightarrow> Frame \<Rightarrow> 'v Conn \<Rightarrow> gerror option \<times> 'v Conn \<times> event list" where
  "Conn_write server frame c =
     (if e_closed c then (Some (closedError c), c, [])
      else if \<not> isControlFrame (Type frame) \<and> \<not> fst (wl_acquire (e_limiter c))
      then (Some (Sentinel ErrBackpressure), c,
            map EvReport (reportBackpressure (cf_backpressure server)
              \<lparr>bi_Side = BackpressureSideServer, bi_Reason = BackpressureReasonConcurrentWrites,
               bi_Limit = MaxConcurrentWrites (cf_backpressure server), bi_RequestID = RequestID frame,
               bi_Function = Function frame, bi_FrameType = Type frame\<rparr>))
      else
        (let c = (if isControlFrame (Type frame) then c else c\<lparr>e_limiter := snd (wl_acquire (e_limiter c))\<rparr>);
             (err, c) =
               (if cf_writeTimeout server > 0 \<and> e_deadlineErr c \<noteq> None
                then (Some (Errorf_prefix ''set write deadline'' (the (e_deadlineErr c))), c)
                else (case writeFrameWithCompression (cf_mc server) (cf_lib server) (e_writer c)
                             (cf_maxFrameSize server) (Some (reg_codec server)) (e_compressor c) frame of
                        (err, w) \<Rightarrow> (err, c\<lparr>e_writer := w\<rparr>)));
             c = (if isControlFrame (Type frame) then c else c\<lparr>e_limiter := wl_release (e_limiter c)\<rparr>)
         in (err, c, [])))"

definition Conn_handleWriteError :: "gerror \<Rightarrow> 'v Conn \<Rightarrow> 'v Conn \<times> event list" where
  "Conn_handleWriteError err c =
     (if errors_Is err ErrBackpressure \<or> errors_Is err ErrFrameTooLarge then (c, [])
      else Conn_closeWithError (Some err) c)"

definition Conn_trackRequest :: "u64 \<Rightarrow> nat \<Rightarrow> 'v Conn \<Rightarrow> bool \<times> 'v Conn" where
  "Conn_trackRequest requestID k c =
     (if e_closed c then (False, c) else (True, c\<lparr>e_requests := tbl_put requestID k (e_requests c)\<rparr>))"

definition Conn_untrackRequest :: "u64 \<Rightarrow> 'v Conn \<Rightarrow> 'v Conn" where
  "Conn_untrackRequest requestID c = c\<lparr>e_requests := tbl_del requestID (e_requests c)\<rparr>"

definition Conn_context :: "'v Conn \<Rightarrow> Context" where
  "Conn_context c =
     \<lparr>rc_deadline = None, rc_clientName = c_clientName c, rc_requestID = 0, rc_function = '''',
      rc_remoteAddr = c_remoteAddr c, rc_localAddr = c_localAddr c, rc_conn = True,
      rc_generation = c_generation c, rc_notify = False, rc_stream = False, rc_streamKind = StreamKindOther 0\<rparr>"

definition conn_link :: "('v, 'c) Config_scheme \<Rightarrow> ('v, 'v Conn) link" where
  "conn_link server =
     \<lparr>lk_side = BackpressureSideServer, lk_newID = Conn_nextRequestID, lk_write = Conn_write server,
      lk_onWriteError = Conn_handleWriteError, lk_track = Conn_trackRequest, lk_untrack = Conn_untrackRequest,
      lk_flow = c_flowControl, lk_context = Conn_context\<rparr>"

subsection \<open>The operations of a connection\<close>

definition Conn_addPending :: "('v, 'c) Config_scheme \<Rightarrow> u64 \<Rightarrow> pendingCall \<Rightarrow> 'v Conn \<Rightarrow> gerror option \<times> 'v Conn \<times> event list" where
  "Conn_addPending server = addPending BackpressureSideServer (cf_backpressure server)"

definition Conn_removePending :: "u64 \<Rightarrow> 'v Conn \<Rightarrow> 'v Conn" where
  "Conn_removePending = removePending"

definition Conn_complete :: "u64 \<Rightarrow> clientResponse \<Rightarrow> 'v Conn \<Rightarrow> bool \<times> 'v Conn \<times> event list" where
  "Conn_complete = complete"

definition Conn_failPending :: "gerror option \<Rightarrow> 'v Conn \<Rightarrow> 'v Conn \<times> event list" where
  "Conn_failPending = failPending"

definition Conn_addStream :: "('v, 'c) Config_scheme \<Rightarrow> nat \<Rightarrow> 'v Conn \<Rightarrow> gerror option \<times> 'v Conn \<times> event list" where
  "Conn_addStream server = addStream BackpressureSideServer (cf_backpressure server)"

definition Conn_removeStream :: "nat \<Rightarrow> 'v Conn \<Rightarrow> 'v Conn" where
  "Conn_removeStream = removeStream"

definition Conn_findStream :: "u64 \<Rightarrow> 'v Conn \<Rightarrow> nat option" where
  "Conn_findStream = findStream"

definition Conn_deliverStreamFrame :: "('v, 'c) Config_scheme \<Rightarrow> Frame \<Rightarrow> 'v Conn \<Rightarrow> bool \<times> 'v Conn \<times> event list" where
  "Conn_deliverStreamFrame server = deliverStreamFrame (reg_codec server)"

definition Conn_failStreams :: "gerror option \<Rightarrow> 'v Conn \<Rightarrow> 'v Conn \<times> event list" where
  "Conn_failStreams = failStreams"

definition Conn_cancel :: "u64 \<Rightarrow> 'v Conn \<Rightarrow> 'v Conn \<times> event list" where
  "Conn_cancel = cancel_request"

definition Conn_writeError :: "('v, 'c) Config_scheme \<Rightarrow> Frame \<Rightarrow> RemoteError \<Rightarrow> 'v Conn \<Rightarrow> gerror option \<times> 'v Conn \<times> event list" where
  "Conn_writeError server = writeError (conn_link server) (reg_codec server)"

definition Conn_sendRequest ::
  "('v, 'c) Config_scheme \<Rightarrow> ctx option \<Rightarrow> string \<Rightarrow> 'v \<Rightarrow> pendingCall \<Rightarrow> 'v Conn \<Rightarrow> u64 res \<times> 'v Conn \<times> event list" where
  "Conn_sendRequest server ctx function req p c =
     (if function = '''' then (Inl (Sentinel ErrInvalidFunction), c, [])
      else
        (case MarshalValue (reg_codec server) req of
           Inl e \<Rightarrow> (Inl (Errorf_prefix ''encode request'' e), c, [])
         | Inr payload \<Rightarrow>
             request_send (conn_link server) (cf_backpressure server) (normalizeContext ctx) function payload p c))"

definition Conn_sendNotify ::
  "('v, 'c) Config_scheme \<Rightarrow> ctx option \<Rightarrow> string \<Rightarrow> 'v \<Rightarrow> 'v Conn \<Rightarrow> u64 res \<times> 'v Conn \<times> event list" where
  "Conn_sendNotify server ctx function req c =
     (if function = '''' then (Inl (Sentinel ErrInvalidFunction), c, [])
      else
        (case MarshalValue (reg_codec server) req of
           Inl e \<Rightarrow> (Inl (Errorf_prefix ''encode notification'' e), c, [])
         | Inr payload \<Rightarrow> notify_send (conn_link server) (normalizeContext ctx) function payload c))"

definition Conn_NotifyContext ::
  "('v, 'c) Config_scheme \<Rightarrow> ctx option \<Rightarrow> string \<Rightarrow> 'v \<Rightarrow> 'v Conn \<Rightarrow> gerror option \<times> 'v Conn \<times> event list" where
  "Conn_NotifyContext server ctx function req c =
     (case Conn_sendNotify server ctx function req c of
        (Inl e, c, evs) \<Rightarrow> (Some e, c, evs)
      | (Inr _, c, evs) \<Rightarrow> (None, c, evs))"

text \<open>A unary call: up to the wait (\<open>ch\<close> is the response channel), and from the event that
  ends it.\<close>

definition Conn_callFrame_begin where
  "Conn_callFrame_begin server ctx function req ch c =
     Conn_sendRequest server (Some (normalizeContext ctx)) function req (SyncPending ch) c"

definition Conn_callFrame_end :: "('v, 'c) Config_scheme \<Rightarrow> u64 \<Rightarrow> wake \<Rightarrow> 'v Conn \<Rightarrow> Frame res \<times> 'v Conn \<times> event list" where
  "Conn_callFrame_end server requestID w c = call_wait (Some (conn_link server)) requestID w c"

definition Conn_CallContext_begin where
  "Conn_CallContext_begin server ctx function req resp ch c =
     (case validateResponseTarget resp of
        Some e \<Rightarrow> (Inl e, c, [])
      | None \<Rightarrow> Conn_callFrame_begin server ctx function req ch c)"

definition Conn_CallContext_end :: "('v, 'c) Config_scheme \<Rightarrow> u64 \<Rightarrow> wake \<Rightarrow> 'v Conn \<Rightarrow> 'v res \<times> 'v Conn \<times> event list" where
  "Conn_CallContext_end server requestID w c =
     (case Conn_callFrame_end server requestID w c of
        (Inl e, c, evs) \<Rightarrow> (Inl e, c, evs)
      | (Inr frame, c, evs) \<Rightarrow> (decodeResponse (reg_codec server) frame, c, evs))"

definition Conn_AsyncCallContext where
  "Conn_AsyncCallContext server ctx function req handler correlationID c =
     (case newAsyncPendingCall function correlationID handler of
        Inl e \<Rightarrow> (Some e, c, [])
      | Inr p \<Rightarrow>
          (case Conn_sendRequest server (Some (normalizeContext ctx)) function req p c of
             (Inl e, c, evs) \<Rightarrow> (Some e, c, evs)
           | (Inr _, c, evs) \<Rightarrow> (None, c, evs)))"

definition Conn_openServerStream where
  "Conn_openServerStream server ctx function req opts c =
     (if function = '''' then (Inl (Sentinel ErrInvalidFunction), c, [])
      else
        (case MarshalValue (reg_codec server) req of
           Inl e \<Rightarrow> (Inl (Errorf_prefix ''encode stream request'' e), c, [])
         | Inr payload \<Rightarrow>
             open_server_stream (conn_link server) server (normalizeContext ctx) function payload opts c))"

definition Conn_openClientStream where
  "Conn_openClientStream server ctx function opts ch c =
     (if function = '''' then (Inl (Sentinel ErrInvalidFunction), c, [])
      else open_client_stream (conn_link server) server (normalizeContext ctx) function opts ch c)"

definition Conn_openBidiStream where
  "Conn_openBidiStream server ctx function opts c =
     (if function = '''' then (Inl (Sentinel ErrInvalidFunction), c, [])
      else open_bidi_stream (conn_link server) server (normalizeContext ctx) function opts c)"

definition Conn_startRequest where
  "Conn_startRequest server = startRequest (conn_link server) server"

definition Conn_runRequest where
  "Conn_runRequest server = runRequest (conn_link server) server"

definition Conn_startNotify where
  "Conn_startNotify server = startNotify (conn_link server) server"

definition Conn_runNotify where
  "Conn_runNotify server = runNotify (conn_link server)"

definition Conn_startStream where
  "Conn_startStream server = startStream (conn_link server) server"

definition Conn_startServerStream where
  "Conn_startServerStream server = startServerStream (conn_link server) server"

definition Conn_runServerStream where
  "Conn_runServerStream server = runServerStream (conn_link server) server"

definition Conn_startClientStream where
  "Conn_startClientStream server = startClientStream (conn_link server) server"

definition Conn_runClientStream where
  "Conn_runClientStream server = runClientStream (conn_link server) server"

definition Conn_startBidiStream where
  "Conn_startBidiStream server = startBidiStream (conn_link server) server"

definition Conn_runBidiStream where
  "Conn_runBidiStream server = runBidiStream (conn_link server) server"

definition Conn_dispatch :: "('v, 'c) Config_scheme \<Rightarrow> Frame \<Rightarrow> 'v Conn \<Rightarrow> bool \<times> 'v Conn \<times> event list" where
  "Conn_dispatch server = dispatch (conn_link server) server"

text \<open>The read loop of \<^verbatim>\<open>serveConn\<close>, on the bytes the peer sends.\<close>

function Conn_readLoop :: "('v, 'c) Config_scheme \<Rightarrow> Reader \<Rightarrow> 'v Conn \<Rightarrow> 'v Conn \<times> event list" where
  "Conn_readLoop server r c =
     (case readFrameWithCompression (cf_mc server) (cf_lib server) r (cf_maxFrameSize server)
             (Some (reg_codec server)) (e_compressor c) of
        (Inl err, r) \<Rightarrow> Conn_closeWithError (Some (Errorf_suffix ErrUnavailable (error_text err))) c
      | (Inr frame, r) \<Rightarrow>
          (case Conn_dispatch server frame c of
             (False, c, evs) \<Rightarrow> (c, evs)
           | (True, c, evs) \<Rightarrow> (case Conn_readLoop server r c of (c, evs') \<Rightarrow> (c, evs @ evs'))))"
  by pat_completeness auto

termination
  by (relation "measure (\<lambda>(server, r, c). length (r_data r))") (auto dest: readFrame_shrinks [OF sym])

declare Conn_readLoop.simps [simp del]

subsection \<open>The server\<close>

record 'v Server = "'v Config" +
  sv_listeners :: "nat list"
  sv_conns :: "(nat \<times> 'v Conn) list"
  sv_shuttingDown :: bool
  sv_wg :: nat

definition setListener :: "nat \<Rightarrow> 'v Server \<Rightarrow> bool \<times> 'v Server" where
  "setListener ln s =
     (if sv_shuttingDown s then (False, s)
      else (True, s\<lparr>sv_listeners := List.insert ln (sv_listeners s), sv_wg := sv_wg s + 1\<rparr>))"

definition clearListener :: "nat \<Rightarrow> 'v Server \<Rightarrow> 'v Server" where
  "clearListener ln s = s\<lparr>sv_listeners := removeAll ln (sv_listeners s)\<rparr>"

definition addConn :: "nat \<Rightarrow> 'v Conn \<Rightarrow> 'v Server \<Rightarrow> bool \<times> 'v Server" where
  "addConn i c s =
     (if sv_shuttingDown s then (False, s)
      else (True, s\<lparr>sv_conns := tbl_put i c (sv_conns s)\<rparr>))"

definition removeConn :: "nat \<Rightarrow> 'v Server \<Rightarrow> 'v Server" where
  "removeConn i s = s\<lparr>sv_conns := tbl_del i (sv_conns s)\<rparr>"

definition Connections :: "'v Server option \<Rightarrow> nat list" where
  "Connections so =
     (case so of
        None \<Rightarrow> []
      | Some s \<Rightarrow> map fst (filter (\<lambda>(i, c). c_ready c) (sv_conns s)))"

text \<open>\<^verbatim>\<open>Shutdown\<close> up to its wait, in three steps: the flag, the listeners of the table, the connections of the table with the
  events of their ends. Each of the last two holds the lock of its table.\<close>

definition Shutdown_store :: "'v Server \<Rightarrow> 'v Server" where
  "Shutdown_store s = s\<lparr>sv_shuttingDown := True\<rparr>"

definition Shutdown_listeners :: "'v Server \<Rightarrow> nat list" where
  "Shutdown_listeners s = sv_listeners s"

definition Shutdown_conns :: "'v Server \<Rightarrow> 'v Server \<times> (nat \<times> event list) list" where
  "Shutdown_conns s =
     (s\<lparr>sv_conns := map (\<lambda>(i, c). (i, fst (Conn_close c))) (sv_conns s)\<rparr>,
      map (\<lambda>(i, c). (i, snd (Conn_close c))) (sv_conns s))"

subsection \<open>Broadcast\<close>

record BroadcastResult =
  br_Total :: nat
  br_Sent :: nat
  br_Failed :: nat
  br_Errors :: "(nat option \<times> gerror) list"

definition BroadcastResult_OK :: "BroadcastResult \<Rightarrow> bool" where
  "BroadcastResult_OK r \<longleftrightarrow> br_Failed r = 0"

fun notify_each ::
  "ctx option \<Rightarrow> string \<Rightarrow> 'v \<Rightarrow> nat list \<Rightarrow> 'v Server \<Rightarrow> BroadcastResult \<Rightarrow> BroadcastResult \<times> 'v Server" where
  "notify_each ctx function req [] s result = (result, s)"
| "notify_each ctx function req (i # is) s result =
     (case map_of (sv_conns s) i of
        None \<Rightarrow> notify_each ctx function req is s result
      | Some c \<Rightarrow>
          (case Conn_NotifyContext s ctx function req c of
             (Some err, c, evs) \<Rightarrow>
               notify_each ctx function req is (s\<lparr>sv_conns := tbl_put i c (sv_conns s)\<rparr>)
                 (result\<lparr>br_Errors := br_Errors result @ [(Some i, err)], br_Failed := br_Failed result + 1\<rparr>)
           | (None, c, evs) \<Rightarrow>
               notify_each ctx function req is (s\<lparr>sv_conns := tbl_put i c (sv_conns s)\<rparr>)
                 (result\<lparr>br_Sent := br_Sent result + 1\<rparr>)))"

definition NotifyAllContext ::
  "ctx option \<Rightarrow> string \<Rightarrow> 'v \<Rightarrow> 'v Server option \<Rightarrow> BroadcastResult \<times> 'v Server option" where
  "NotifyAllContext ctx function req so =
     (case so of
        None \<Rightarrow> (\<lparr>br_Total = 0, br_Sent = 0, br_Failed = 1, br_Errors = [(None, Sentinel ErrClosed)]\<rparr>, None)
      | Some s \<Rightarrow>
          (case notify_each (Some (normalizeContext ctx)) function req (Connections so) s
                  \<lparr>br_Total = length (Connections so), br_Sent = 0, br_Failed = 0, br_Errors = []\<rparr> of
             (result, s) \<Rightarrow> (result, Some s)))"

subsection \<open>Facts: the link of a connection\<close>

lemma Conn_write_frame:
  assumes "Conn_write server f c = (r, c', evs)"
  shows "same_tables c c'" "delivered i evs = 0"
proof -
  show "same_tables c c'"
    using assms
    by (auto simp: Conn_write_def Let_def same_tables_def split: if_splits prod.splits)
  show "delivered i evs = 0"
    using assms by (auto simp: Conn_write_def Let_def split: if_splits prod.splits)
qed

lemma Conn_closeWithError_fail_all:
  "Conn_closeWithError err c =
     (if e_closed c then (c, [])
      else (case fail_all (case err of None \<Rightarrow> Sentinel ErrClosed | Some x \<Rightarrow> x)
                (c\<lparr>e_closeErr := Some (case err of None \<Rightarrow> Sentinel ErrClosed | Some x \<Rightarrow> x), e_closed := True\<rparr>) of
              (c, evs) \<Rightarrow> (c, EvNetClose # evs)))"
  by (simp add: Conn_closeWithError_def fail_all_def Let_def split: prod.splits)

lemma closing_tables_ok:
  "tables_ok bp e \<Longrightarrow> tables_ok bp (e\<lparr>e_closeErr := x, e_closed := y\<rparr>)"
  by (simp add: tables_ok_def streams_ok_def limits_ok_def)

lemma pending_closing [simp]: "pending i (e\<lparr>e_closeErr := x, e_closed := y\<rparr>) = pending i e"
  by (simp add: pending_def)

lemma Conn_closeWithError_kept:
  assumes "Conn_closeWithError err c = (c', evs)" "endpoint_ok bp c"
  shows "kept bp (\<lambda>_. True) c [] evs c' \<and> e_closed c'"
proof (cases "e_closed c")
  case True
  with assms show ?thesis by (simp add: Conn_closeWithError_fail_all kept_same)
next
  case False
  let ?err = "case err of None \<Rightarrow> Sentinel ErrClosed | Some x \<Rightarrow> x"
  let ?c = "c\<lparr>e_closeErr := Some ?err, e_closed := True\<rparr>"
  obtain ev where f: "fail_all ?err ?c = (c', ev)" "evs = EvNetClose # ev"
    using assms(1) False by (auto simp: Conn_closeWithError_fail_all split: prod.splits)
  have "tables_ok bp ?c" using assms(2) by (simp add: endpoint_ok_def closing_tables_ok)
  note fa = fail_all_step [OF f(1) this]
  from fa(1,4-8) have "endpoint_ok bp c'" "e_closed c'" by (simp_all add: endpoint_ok_def closed_ok_def)
  with fa(2) f(2) show ?thesis by (simp add: kept_def answered_def)
qed

lemma Conn_handleWriteError_kept:
  "Conn_handleWriteError err c = (c', evs) \<Longrightarrow> endpoint_ok bp c \<Longrightarrow>
   kept bp (\<lambda>_. True) c [] evs c'"
  using Conn_closeWithError_kept [of "Some err" c c' evs bp]
  by (auto simp: Conn_handleWriteError_def kept_same split: if_splits)

interpretation conn: endpoint_link "conn_link server" "cf_backpressure server" "\<lambda>_. True"
proof unfold_locales
  show "same_tables e e' \<and> (True \<longrightarrow> True)" if "lk_newID (conn_link server) e = (i, e')" for e i e'
    using that by (auto simp: conn_link_def Conn_nextRequestID_def same_tables_def)
  show "same_tables e e' \<and> (True \<longrightarrow> True) \<and> (\<forall>i. delivered i evs = 0)"
    if "lk_write (conn_link server) f e = (r, e', evs)" for f e r e' evs
    using that Conn_write_frame [of server f e r e' evs] by (simp add: conn_link_def)
  show "endpoint_ok (cf_backpressure server) e' \<and> True \<and> answered e [] evs e' \<and> (e_closed e \<longrightarrow> e_closed e')"
    if "lk_onWriteError (conn_link server) err e = (e', evs)" "endpoint_ok (cf_backpressure server) e" for err e e' evs
    using that Conn_handleWriteError_kept [of err e e' evs "cf_backpressure server"]
    by (simp add: conn_link_def kept_def)
  show "endpoint_ok (cf_backpressure server) e' \<and> True \<and> e_pending e' = e_pending e \<and> e_closed e' = e_closed e"
    if "lk_track (conn_link server) i k e = (ok, e')" "endpoint_ok (cf_backpressure server) e" for i k e ok e'
    using that by (auto simp: conn_link_def Conn_trackRequest_def requests_ok split: if_splits)
  show "endpoint_ok (cf_backpressure server) e' \<and> True \<and> e_pending e' = e_pending e \<and> e_closed e' = e_closed e"
    if "lk_untrack (conn_link server) i e = e'" "endpoint_ok (cf_backpressure server) e" for i e e'
    using that by (auto simp: conn_link_def Conn_untrackRequest_def requests_ok)
qed simp

subsection \<open>The life of a connection\<close>

text \<open>Everything that can happen to a connection, in any order: the operations of its callers, the
  dispatch of a frame, the end of a handler goroutine, a step of one of its streams, a write of a
  stream, closing. \<open>is\<close> are the ids under which the operation may register for a response.\<close>

inductive conn_op :: "('v, 'c) Config_scheme \<Rightarrow> 'v Conn \<Rightarrow> u64 list \<Rightarrow> event list \<Rightarrow> 'v Conn \<Rightarrow> bool"
  for server where
  op_sendRequest: "Conn_sendRequest server cx f q p c = (r, c', evs) \<Longrightarrow> conn_op server c [fst (Conn_nextRequestID c)] evs c'"
| op_callFrame_end: "Conn_callFrame_end server i w c = (r', c', evs) \<Longrightarrow> conn_op server c [] evs c'"
| op_sendNotify: "Conn_sendNotify server cx f q c = (r, c', evs) \<Longrightarrow> conn_op server c [] evs c'"
| op_openServerStream: "Conn_openServerStream server cx f q opts c = (r'', c', evs) \<Longrightarrow> conn_op server c [] evs c'"
| op_openClientStream:
    "Conn_openClientStream server cx f opts ch c = (r'', c', evs) \<Longrightarrow> conn_op server c [fst (Conn_nextRequestID c)] evs c'"
| op_openBidiStream: "Conn_openBidiStream server cx f opts c = (r'', c', evs) \<Longrightarrow> conn_op server c [] evs c'"
| op_dispatch: "Conn_dispatch server fr c = (b, c', evs) \<Longrightarrow> conn_op server c [] evs c'"
| op_runRequest: "Conn_runRequest server fr k h c = (c', evs) \<Longrightarrow> conn_op server c [] evs c'"
| op_runNotify: "Conn_runNotify server fr k c = (c', evs) \<Longrightarrow> conn_op server c [] evs c'"
| op_runServerStream: "Conn_runServerStream server fr k ref (out :: unit hres) c = (c', evs) \<Longrightarrow> conn_op server c [] evs c'"
| op_runClientStream: "Conn_runClientStream server fr k ref out' c = (c', evs) \<Longrightarrow> conn_op server c [] evs c'"
| op_runBidiStream: "Conn_runBidiStream server fr k ref (out :: unit hres) c = (c', evs) \<Longrightarrow> conn_op server c [] evs c'"
| op_stream: "stream_op g \<Longrightarrow> on_stream ref g c = (c', evs) \<Longrightarrow> conn_op server c [] evs c'"
| op_streamWrite: "write_handled (conn_link server) fr c = (w', c', evs) \<Longrightarrow> conn_op server c [] evs c'"
| op_close: "Conn_closeWithError err c = (c', evs) \<Longrightarrow> conn_op server c [] evs c'"

inductive conn_run :: "('v, 'c) Config_scheme \<Rightarrow> 'v Conn \<Rightarrow> u64 list \<Rightarrow> event list \<Rightarrow> 'v Conn \<Rightarrow> bool"
  for server where
  conn_run_refl: "conn_run server c [] [] c"
| conn_run_step: "conn_run server c is evs c' \<Longrightarrow> conn_op server c' is' evs' c'' \<Longrightarrow>
    conn_run server c (is @ is') (evs @ evs') c''"

lemma newID_conn [simp]: "lk_newID (conn_link server) = Conn_nextRequestID"
  by (simp add: conn_link_def)

abbreviation conn_kept where "conn_kept server \<equiv> kept (cf_backpressure server) (\<lambda>_. True)"

lemmas conn_quiet = conn.quiet_kept [OF _ _ TrueI]

lemmas conn_registered = conn.registered_kept [OF _ _ TrueI]

lemma Conn_sendRequest_kept:
  "Conn_sendRequest server cx f q p c = (r, c', evs) \<Longrightarrow> endpoint_ok (cf_backpressure server) c \<Longrightarrow>
   conn_kept server c [fst (Conn_nextRequestID c)] evs c'"
  by (auto simp: Conn_sendRequest_def intro: kept_same conn_registered [OF request_send_steps, simplified]
      split: if_splits sum.splits)

lemma Conn_sendNotify_kept:
  "Conn_sendNotify server cx f q c = (r, c', evs) \<Longrightarrow> endpoint_ok (cf_backpressure server) c \<Longrightarrow>
   conn_kept server c [] evs c'"
  by (auto simp: Conn_sendNotify_def intro: kept_same conn_quiet [OF notify_send_steps] split: if_splits sum.splits)

lemma Conn_openServerStream_kept:
  "Conn_openServerStream server cx f q opts c = (r, c', evs) \<Longrightarrow> endpoint_ok (cf_backpressure server) c \<Longrightarrow>
   conn_kept server c [] evs c'"
  by (auto simp: Conn_openServerStream_def intro: kept_same conn_quiet [OF open_server_stream_steps]
      split: if_splits sum.splits)

lemma Conn_openClientStream_kept:
  "Conn_openClientStream server cx f opts ch c = (r, c', evs) \<Longrightarrow> endpoint_ok (cf_backpressure server) c \<Longrightarrow>
   conn_kept server c [fst (Conn_nextRequestID c)] evs c'"
  by (auto simp: Conn_openClientStream_def intro: kept_same conn_registered [OF open_client_stream_steps, simplified]
      split: if_splits)

lemma Conn_openBidiStream_kept:
  "Conn_openBidiStream server cx f opts c = (r, c', evs) \<Longrightarrow> endpoint_ok (cf_backpressure server) c \<Longrightarrow>
   conn_kept server c [] evs c'"
  by (auto simp: Conn_openBidiStream_def intro: kept_same conn_quiet [OF open_bidi_stream_steps] split: if_splits)

lemma conn_op_kept:
  assumes "conn_op server c is evs c'" "endpoint_ok (cf_backpressure server) c"
  shows "conn_kept server c is evs c'"
  using assms
  by (induction rule: conn_op.induct)
    (auto simp: Conn_callFrame_end_def Conn_dispatch_def Conn_runRequest_def Conn_runNotify_def
      Conn_runServerStream_def Conn_runClientStream_def Conn_runBidiStream_def
      intro: Conn_sendRequest_kept Conn_sendNotify_kept Conn_openServerStream_kept Conn_openClientStream_kept
        Conn_openBidiStream_kept conjunct1 [OF Conn_closeWithError_kept]
        conn_quiet [OF call_wait_steps] conn_quiet [OF dispatch_steps] conn_quiet [OF runRequest_steps]
        conn_quiet [OF runNotify_steps] conn_quiet [OF runServerStream_steps] conn_quiet [OF runClientStream_steps]
        conn_quiet [OF runBidiStream_steps] conn_quiet [OF quiet_intros(11)] conn_quiet [OF write_handled_steps])

lemma conn_run_kept:
  "conn_run server c is evs c' \<Longrightarrow> endpoint_ok (cf_backpressure server) c \<Longrightarrow> conn_kept server c is evs c'"
proof (induction rule: conn_run.induct)
  case (conn_run_refl c)
  then show ?case by (simp add: kept_same)
next
  case (conn_run_step c "is" evs c' is' evs' c'')
  from conn_run_step.IH [OF conn_run_step.prems] have k: "conn_kept server c is evs c'" .
  then have "endpoint_ok (cf_backpressure server) c'" by (simp add: kept_def)
  with kept_trans [OF k] conn_op_kept [OF conn_run_step.hyps(2)] show ?case by blast
qed

lemma newConn_ok: "endpoint_ok bp (newConn server w n)"
  by (simp add: newConn_def endpoint_ok_def tables_ok_def closed_ok_def streams_ok_def limits_ok_def)

lemma refused_untouched:
  assumes "writeFrameWithCompression mc lib w m codec cz f = (Some err, w')"
    and "errors_Is err t" "t = ErrFrameTooLarge \<or> t = ErrBackpressure"
    and "\<forall>n x. (n, Some x) \<in> set (w_script w) \<longrightarrow> \<not> errors_Is x t"
  shows "w' = w"
proof (cases "encodeFrame mc lib m codec cz f")
  case (Inr data)
  then have "writeParts w data = (Some err, w')" using assms(1) by (simp add: writeFrameWithCompression_def)
  from writeParts_error [OF this assms(2)] assms(3,4) show ?thesis by auto
qed (use assms(1) in \<open>simp add: writeFrameWithCompression_def\<close>)

lemma Connections_keys:
  assumes "tbl_ok (sv_conns s)"
  shows "Connections (Some s) = filter (\<lambda>i. \<exists>c. map_of (sv_conns s) i = Some c \<and> c_ready c) (map fst (sv_conns s))"
proof -
  have "map fst (filter (\<lambda>(i, c). P c) t) = filter (\<lambda>i. \<exists>c. map_of t i = Some c \<and> P c) (map fst t)"
    if "tbl_ok t" for t :: "(nat \<times> 'a Conn) list" and P
    using that
  proof (induction t)
    case (Cons x t)
    obtain i c where x: "x = (i, c)" by fastforce
    with Cons.prems have t: "tbl_ok t" and i: "i \<notin> fst ` set t" by (auto simp: tbl_ok_def)
    have "filter (\<lambda>j. \<exists>c'. map_of (x # t) j = Some c' \<and> P c') (map fst t) =
        filter (\<lambda>j. \<exists>c'. map_of t j = Some c' \<and> P c') (map fst t)"
      using i by (intro filter_cong) (auto simp: x)
    with Cons.IH [OF t] show ?case by (auto simp: x)
  qed simp
  with assms show ?thesis by (simp add: Connections_def)
qed

lemma server_conns:
  fixes s :: "'v Server"
  shows "cf_backpressure (s\<lparr>sv_conns := x\<rparr>) = cf_backpressure s" "cf_mc (s\<lparr>sv_conns := x\<rparr>) = cf_mc s"
    "cf_lib (s\<lparr>sv_conns := x\<rparr>) = cf_lib s" "cf_maxFrameSize (s\<lparr>sv_conns := x\<rparr>) = cf_maxFrameSize s"
    "reg_codec (s\<lparr>sv_conns := x\<rparr>) = reg_codec s" "cf_writeTimeout (s\<lparr>sv_conns := x\<rparr>) = cf_writeTimeout s"
  by simp_all

lemma conn_link_conns: "conn_link (s\<lparr>sv_conns := x\<rparr> :: 'v Server) = conn_link s"
  unfolding conn_link_def Conn_write_def [abs_def] server_conns by (rule refl)

lemma notify_each_conns [simp]:
  "Conn_NotifyContext (s\<lparr>sv_conns := x\<rparr> :: 'v Server) ctx f req c = Conn_NotifyContext s ctx f req c"
  unfolding Conn_NotifyContext_def Conn_sendNotify_def conn_link_conns server_conns by (rule refl)

text \<open>What one notification to connection \<open>i\<close> of the server returns, and the errors of several in their order.\<close>

definition notify_result :: "ctx option \<Rightarrow> string \<Rightarrow> 'v \<Rightarrow> 'v Server \<Rightarrow> nat \<Rightarrow> gerror option" where
  "notify_result ctx f req s i =
     (case map_of (sv_conns s) i of None \<Rightarrow> None | Some c \<Rightarrow> fst (Conn_NotifyContext s ctx f req c))"

definition notify_errors :: "ctx option \<Rightarrow> string \<Rightarrow> 'v \<Rightarrow> 'v Server \<Rightarrow> nat list \<Rightarrow> (nat option \<times> gerror) list" where
  "notify_errors ctx f req s is =
     concat (map (\<lambda>i. case notify_result ctx f req s i of None \<Rightarrow> [] | Some err \<Rightarrow> [(Some i, err)]) is)"

lemma notify_result_other:
  "i \<noteq> j \<Longrightarrow> notify_result ctx f req (s\<lparr>sv_conns := tbl_put j c (sv_conns s)\<rparr>) i = notify_result ctx f req s i"
  by (simp add: notify_result_def split: option.split)

lemma notify_errors_other:
  "j \<notin> set is \<Longrightarrow> notify_errors ctx f req (s\<lparr>sv_conns := tbl_put j c (sv_conns s)\<rparr>) is = notify_errors ctx f req s is"
  unfolding notify_errors_def by (intro arg_cong [of _ _ concat] map_cong refl) (metis notify_result_other)

lemma notify_each_accounts:
  "notify_each ctx f req is s res = (res', s') \<Longrightarrow> distinct is \<Longrightarrow> \<forall>i \<in> set is. map_of (sv_conns s) i \<noteq> None \<Longrightarrow>
   br_Total res' = br_Total res \<and>
   br_Errors res' = br_Errors res @ notify_errors ctx f req s is \<and>
   br_Failed res' = br_Failed res + length (notify_errors ctx f req s is) \<and>
   br_Sent res' = br_Sent res + length (filter (\<lambda>i. notify_result ctx f req s i = None) is) \<and>
   map_of (sv_conns s') i =
     (if i \<in> set is then map_option (\<lambda>c. fst (snd (Conn_NotifyContext s ctx f req c))) (map_of (sv_conns s) i)
      else map_of (sv_conns s) i)"
proof (induction "is" arbitrary: s res)
  case (Cons j js)
  from Cons.prems obtain c where c: "map_of (sv_conns s) j = Some c" by auto
  obtain r c' evs where n: "Conn_NotifyContext s ctx f req c = (r, c', evs)" by (metis prod_cases3)
  let ?s = "s\<lparr>sv_conns := tbl_put j c' (sv_conns s)\<rparr>"
  define res1 where "res1 = (case r of None \<Rightarrow> res\<lparr>br_Sent := br_Sent res + 1\<rparr>
    | Some err \<Rightarrow> res\<lparr>br_Errors := br_Errors res @ [(Some j, err)], br_Failed := br_Failed res + 1\<rparr>)"
  from Cons.prems(1) c n have rec: "notify_each ctx f req js ?s res1 = (res', s')"
    by (cases r) (simp_all add: res1_def)
  have pre: "distinct js" "\<forall>i \<in> set js. map_of (sv_conns ?s) i \<noteq> None" using Cons.prems by auto
  have j: "notify_result ctx f req s j = r" "j \<notin> set js" using c n Cons.prems(2) by (simp_all add: notify_result_def)
  have "filter (\<lambda>i. notify_result ctx f req ?s i = None) js = filter (\<lambda>i. notify_result ctx f req s i = None) js"
    using j(2) by (intro filter_cong refl) (metis notify_result_other)
  moreover have "notify_errors ctx f req s (j # js) = (case r of None \<Rightarrow> [] | Some err \<Rightarrow> [(Some j, err)]) @ notify_errors ctx f req s js"
    by (simp add: notify_errors_def j(1))
  ultimately show ?case using Cons.IH [OF rec pre] j c n
    by (cases r) (auto simp: res1_def notify_errors_other)
qed (simp add: notify_errors_def)

subsection \<open>Properties of a connection\<close>

text \<open>C12. Whatever its callers, its peer, its handlers and its streams do, and in whatever order, an
  accepted connection keeps its tables consistent: one entry for a request id, only running streams
  in the stream table, each under its own id; the limits on pending calls and active streams are
  never exceeded; once closed it holds no call, stream or request; and every call that was
  registered is answered at most once: the answers to an id and its entry, if it is still waiting,
  do not exceed the number of times it was registered.\<close>

theorem conn_life:
  assumes "conn_run server (newConn server w n) is evs c"
  shows "tbl_ok (e_pending c) \<and> tbl_ok (e_streams c) \<and> tbl_ok (e_requests c) \<and>
    (\<forall>i ref. (i, ref) \<in> set (e_streams c) \<longrightarrow>
       (\<exists>s d. e_heap c ref = Some (s, d) \<and> s_requestID s = i \<and> \<not> s_done s)) \<and>
    (MaxPendingCalls (cf_backpressure server) > 0 \<longrightarrow>
       int (length (e_pending c)) \<le> MaxPendingCalls (cf_backpressure server)) \<and>
    (MaxActiveStreams (cf_backpressure server) > 0 \<longrightarrow>
       int (length (e_streams c)) \<le> MaxActiveStreams (cf_backpressure server)) \<and>
    (e_closed c \<longrightarrow> e_pending c = [] \<and> e_streams c = [] \<and> e_requests c = []) \<and>
    (\<forall>i. delivered i evs + of_bool (pending i c) \<le> count_list is i)"
proof -
  have "conn_kept server (newConn server w n) is evs c" using assms newConn_ok by (rule conn_run_kept)
  moreover have "\<not> pending i (newConn server w n)" for i by (simp add: pending_def newConn_def)
  ultimately show ?thesis
    by (auto simp: kept_def answered_def endpoint_ok_def tables_ok_def closed_ok_def streams_ok_def limits_ok_def)
qed

text \<open>C17. Closing a connection: the socket is closed once, every request context is cancelled, every
  stream in the table has ended with the error (a stream whose context had a cause keeps it), every
  pending call gets the error as its response (the one of a client stream is dropped with its
  stream), and nothing is left; closing again, with whatever error, does nothing.\<close>

theorem Conn_close_fails_everything:
  assumes "conn_run server (newConn server w n) is evs0 c" "\<not> e_closed c"
    and "Conn_closeWithError (Some err) c = (c', evs)"
  shows "e_closed c' \<and> closedError c' = err \<and> e_pending c' = [] \<and> e_streams c' = [] \<and> e_requests c' = [] \<and>
    hd evs = EvNetClose \<and> EvNetClose \<notin> set (tl evs) \<and>
    (\<forall>i k. (i, k) \<in> set (e_requests c) \<longrightarrow> EvCancelCtx k \<in> set evs) \<and>
    (\<forall>i ref. (i, ref) \<in> set (e_streams c) \<longrightarrow>
       (\<exists>s d s'. e_heap c ref = Some (s, d) \<and> e_heap c' ref = Some (s', d) \<and> failed_with err s s')) \<and>
    (\<forall>i p. (i, p) \<in> set (e_pending c) \<and> \<not> stream_owned i c \<longrightarrow>
       EvDeliver i p \<lparr>cr_frame = zeroFrame, cr_err = Some err\<rparr> \<in> set evs) \<and>
    (\<forall>err'. Conn_closeWithError err' c' = (c', []))"
proof -
  let ?c = "c\<lparr>e_closeErr := Some err, e_closed := True\<rparr>"
  from conn_run_kept [OF assms(1) newConn_ok] have ok: "tables_ok (cf_backpressure server) c"
    by (simp add: kept_def endpoint_ok_def)
  obtain ev where f: "fail_all err ?c = (c', ev)" and evs: "evs = EvNetClose # ev"
    using assms(2,3) by (auto simp: Conn_closeWithError_fail_all split: prod.splits)
  note fa = fail_all_step [OF f closing_tables_ok [OF ok]]
  have streams: "\<exists>s d s'. e_heap c ref = Some (s, d) \<and> e_heap c' ref = Some (s', d) \<and> failed_with err s s'"
    if r: "(i, ref) \<in> set (e_streams c)" for i ref
  proof -
    from ok r obtain s d where h: "e_heap c ref = Some (s, d)" unfolding tables_ok_def streams_ok_def by blast
    from r have "ref \<in> snd ` set (e_streams c)" by force
    with fa(9) [of ref s d] h show ?thesis by auto
  qed
  have "stream_owned i ?c = stream_owned i c" for i by (simp add: stream_owned_def)
  with fail_all_answers [OF f] have answers: "EvDeliver i p \<lparr>cr_frame = zeroFrame, cr_err = Some err\<rparr> \<in> set evs"
    if "(i, p) \<in> set (e_pending c)" "\<not> stream_owned i c" for i p using that evs by simp
  from fa(4,5) have closed: "e_closed c'" "e_closeErr c' = Some err" by simp_all
  then have again: "Conn_closeWithError err' c' = (c', [])" for err' by (simp add: Conn_closeWithError_def Let_def)
  have ctxs: "EvCancelCtx k \<in> set evs" if "(i, k) \<in> set (e_requests c)" for i k
    using fa(10) [of i k] that evs by simp
  show ?thesis
    using closed again ctxs streams answers fa(6-8) fail_all_events [OF f]
    by (simp add: evs closedError_def)
qed

text \<open>C18. A write on an open connection. Without an error the whole frame is on the wire; an error
  that says the frame was refused (too many concurrent writes, or too large) leaves the wire and the
  connection as they were; any other error closes the connection with it. A control frame is
  written, or fails, independently of the write limiter. The transport is not expected to report the
  two sentinels itself.\<close>

theorem Conn_write_outcomes:
  assumes "write_handled (conn_link server) f c = (r, c', evs)" "\<not> e_closed c"
    and tr: "\<forall>n x. (n, Some x) \<in> set (w_script (e_writer c)) \<longrightarrow> \<not> errors_Is x ErrFrameTooLarge \<and> \<not> errors_Is x ErrBackpressure"
  shows "(case r of
      None \<Rightarrow> same_tables c c' \<and> (\<exists>data. encodeFrame (cf_mc server) (cf_lib server) (cf_maxFrameSize server)
          (Some (reg_codec server)) (e_compressor c) f = Inr data \<and>
          w_out (e_writer c') = w_out (e_writer c) @ framed data)
    | Some err \<Rightarrow>
        if errors_Is err ErrBackpressure \<or> errors_Is err ErrFrameTooLarge
        then same_tables c c' \<and> e_writer c' = e_writer c
        else e_closed c' \<and> closedError c' = err) \<and>
    (isControlFrame (Type f) \<longrightarrow> (\<forall>l. fst (Conn_write server f (c\<lparr>e_limiter := l\<rparr>)) = fst (Conn_write server f c)))"
proof -
  obtain x c1 ev1 where w: "Conn_write server f c = (x, c1, ev1)" by (metis prod_cases3)
  note fr = Conn_write_frame(1) [OF w]
  have ctl: "isControlFrame (Type f) \<longrightarrow>
      (\<forall>l. fst (Conn_write server f (c\<lparr>e_limiter := l\<rparr>)) = fst (Conn_write server f c))"
    by (auto simp: Conn_write_def Let_def closedError_def split: prod.splits)
  show ?thesis
  proof (cases x)
    case None
    with assms(1) w have r: "r = None" "c' = c1" by (simp_all add: write_handled_def conn_link_def)
    from None w assms(2) obtain w' where "writeFrameWithCompression (cf_mc server) (cf_lib server) (e_writer c)
        (cf_maxFrameSize server) (Some (reg_codec server)) (e_compressor c) f = (None, w')" "e_writer c1 = w'"
      by (auto simp: Conn_write_def Let_def split: if_splits prod.splits)
    with writeFrame_ok r fr ctl show ?thesis by fastforce
  next
    case (Some err)
    obtain c2 ev2 where h: "Conn_handleWriteError err c1 = (c2, ev2)" by fastforce
    with assms(1) w Some have r: "r = Some err" "c' = c2" by (simp_all add: write_handled_def conn_link_def)
    show ?thesis
    proof (cases "errors_Is err ErrBackpressure \<or> errors_Is err ErrFrameTooLarge")
      case True
      with h have c2: "c2 = c1" by (simp add: Conn_handleWriteError_def)
      have "e_writer c1 = e_writer c"
        using w Some True assms(2) tr refused_untouched [of _ _ "e_writer c"]
        by (fastforce simp: Conn_write_def Let_def split: if_splits prod.splits)
      with True r c2 fr ctl show ?thesis by simp
    next
      case False
      with h have "Conn_closeWithError (Some err) c1 = (c2, ev2)" by (simp add: Conn_handleWriteError_def)
      moreover have "\<not> e_closed c1" using fr assms(2) by (simp add: same_tables_def)
      ultimately have "e_closed c2" "closedError c2 = err"
        using fail_all_keeps [of err "c1\<lparr>e_closeErr := Some err, e_closed := True\<rparr>" c2]
        by (auto simp: Conn_closeWithError_fail_all closedError_def split: prod.splits)
      with False r ctl show ?thesis by simp
    qed
  qed
qed

text \<open>C19. A broadcast attempts every ready connection exactly once: the total is the number of ready
  connections, those whose notification succeeds are counted as sent and those whose notification fails as
  failed, the errors are exactly the errors of the failed notifications, each with its connection, in the order of the
  connections; the broadcast is OK exactly when none failed; each ready connection is in the state one
  notification leaves it in, and all other connections are untouched.\<close>

theorem NotifyAll_accounts:
  assumes "tbl_ok (sv_conns s)" "NotifyAllContext ctx f req (Some s) = (res, so)"
  shows "\<exists>s'. so = Some s' \<and> br_Total res = length (Connections (Some s)) \<and>
    br_Sent res = length (filter (\<lambda>i. notify_result (Some (normalizeContext ctx)) f req s i = None) (Connections (Some s))) \<and>
    br_Errors res = notify_errors (Some (normalizeContext ctx)) f req s (Connections (Some s)) \<and>
    br_Sent res + br_Failed res = br_Total res \<and> length (br_Errors res) = br_Failed res \<and>
    (BroadcastResult_OK res \<longleftrightarrow> br_Errors res = []) \<and>
    (\<forall>i. map_of (sv_conns s') i =
       map_option (\<lambda>c. if c_ready c then fst (snd (Conn_NotifyContext s (Some (normalizeContext ctx)) f req c)) else c)
         (map_of (sv_conns s) i))"
proof -
  let ?r0 = "\<lparr>br_Total = length (Connections (Some s)), br_Sent = 0, br_Failed = 0, br_Errors = []\<rparr>"
  let ?ctx = "Some (normalizeContext ctx)"
  obtain s' where s': "notify_each ?ctx f req (Connections (Some s)) s ?r0 = (res, s')" "so = Some s'"
    using assms(2) by (auto simp: NotifyAllContext_def split: prod.splits)
  have keys: "Connections (Some s) = filter (\<lambda>i. \<exists>c. map_of (sv_conns s) i = Some c \<and> c_ready c) (map fst (sv_conns s))"
    using assms(1) by (simp add: Connections_keys)
  have d: "distinct (Connections (Some s))" using assms(1) by (simp add: keys tbl_ok_def)
  have "\<forall>i \<in> set (Connections (Some s)). map_of (sv_conns s) i \<noteq> None" by (auto simp: keys)
  note n = notify_each_accounts [OF s'(1) d this]
  have "map_of (sv_conns s') i =
       map_option (\<lambda>c. if c_ready c then fst (snd (Conn_NotifyContext s ?ctx f req c)) else c) (map_of (sv_conns s) i)"
    for i
  proof (cases "map_of (sv_conns s) i")
    case None
    with n [of i] show ?thesis by (simp add: keys)
  next
    case (Some c)
    then have "i \<in> fst ` set (sv_conns s)" by (force dest: map_of_SomeD)
    with Some n [of i] show ?thesis by (simp add: keys)
  qed
  moreover have "length (filter (\<lambda>i. notify_result ?ctx f req s i = None) is) + length (notify_errors ?ctx f req s is) = length is" for "is"
    by (induction "is") (auto simp: notify_errors_def split: option.splits)
  ultimately show ?thesis using n s'(2) by (auto simp: BroadcastResult_OK_def)
qed

subsection \<open>Witnesses\<close>

definition sampleConn :: "bytes Conn" where
  "sampleConn = newConn sampleConfig emptyWriter 0"

definition sampleCall :: "u64 res \<times> bytes Conn \<times> event list" where
  "sampleCall = Conn_sendRequest sampleConfig None ''echo'' [7] (SyncPending 3) sampleConn"

definition sampleAnswer :: "bool \<times> bytes Conn \<times> event list" where
  "sampleAnswer = Conn_dispatch sampleConfig (zeroFrame\<lparr>Type := FrameResponse, RequestID := 2, Payload := [9]\<rparr>)
     (fst (snd sampleCall))"

definition sampleServer :: "bytes Server" where
  "sampleServer = Config.extend sampleConfig
     (Server.fields [] [(4, sampleConn), (5, sampleConn\<lparr>c_ready := True\<rparr>)] False 0)"

lemma sample_evaluated:
  "snd (snd sampleCall) = [] \<and> e_pending (fst (snd sampleCall)) = [(2, SyncPending 3)] \<and>
   e_streams (fst (snd sampleCall)) = [] \<and> \<not> e_closed (fst (snd sampleCall)) \<and>
   delivered 2 (snd (snd sampleAnswer)) = 1 \<and>
   br_Sent (fst (NotifyAllContext None ''tick'' [1] (Some sampleServer))) = 1"
  by code_simp

lemma sampleCall_run: "conn_run sampleConfig sampleConn [2] (snd (snd sampleCall)) (fst (snd sampleCall))"
proof -
  have "conn_op sampleConfig sampleConn [fst (Conn_nextRequestID sampleConn)] (snd (snd sampleCall)) (fst (snd sampleCall))"
    by (rule op_sendRequest [of _ None "''echo''" "[7]" "SyncPending 3" _ "fst sampleCall"]) (simp add: sampleCall_def)
  from conn_run_step [OF conn_run_refl this] show ?thesis
    by (simp add: Conn_nextRequestID_def sampleConn_def newConn_def)
qed

theorem conn_life_witness:
  "delivered 2 (snd (snd sampleCall) @ snd (snd sampleAnswer)) = 1 \<and>
   (\<forall>i. delivered i (snd (snd sampleCall) @ snd (snd sampleAnswer)) + of_bool (pending i (fst (snd sampleAnswer))) \<le>
      count_list [2] i)"
proof -
  have "conn_op sampleConfig (fst (snd sampleCall)) [] (snd (snd sampleAnswer)) (fst (snd sampleAnswer))"
    by (rule op_dispatch [of _ "zeroFrame\<lparr>Type := FrameResponse, RequestID := 2, Payload := [9]\<rparr>" _ "fst sampleAnswer"])
      (simp add: sampleAnswer_def)
  from conn_run_step [OF sampleCall_run this] have
    "conn_run sampleConfig (newConn sampleConfig emptyWriter 0) [2] (snd (snd sampleCall) @ snd (snd sampleAnswer))
      (fst (snd sampleAnswer))" by (simp add: sampleConn_def)
  from conn_life [OF this] sample_evaluated show ?thesis by simp
qed

theorem Conn_close_fails_everything_witness:
  "EvDeliver 2 (SyncPending 3) \<lparr>cr_frame = zeroFrame, cr_err = Some (Sentinel ErrClosed)\<rparr>
     \<in> set (snd (Conn_close (fst (snd sampleCall)))) \<and> e_closed (fst (Conn_close (fst (snd sampleCall))))"
proof -
  let ?c = "fst (snd sampleCall)"
  have "Conn_closeWithError (Some (Sentinel ErrClosed)) ?c = (fst (Conn_close ?c), snd (Conn_close ?c))"
    by (simp add: Conn_close_def)
  from Conn_close_fails_everything [OF sampleCall_run [unfolded sampleConn_def] _ this] sample_evaluated
  show ?thesis by (simp add: stream_owned_def)
qed

theorem Conn_write_outcomes_witness:
  "\<exists>data. w_out (e_writer (fst (snd (write_handled (conn_link sampleConfig) (zeroFrame\<lparr>Type := FramePing\<rparr>) sampleConn)))) =
     framed data"
proof -
  let ?w = "write_handled (conn_link sampleConfig) (zeroFrame\<lparr>Type := FramePing\<rparr>) sampleConn"
  have r: "fst ?w = None" by code_simp
  then have w: "?w = (None, fst (snd ?w), snd (snd ?w))" by (metis prod.collapse)
  have "e_closed sampleConn = False" "w_script (e_writer sampleConn) = []" "w_out (e_writer sampleConn) = []"
    by (simp_all add: sampleConn_def newConn_def emptyWriter_def)
  with Conn_write_outcomes [OF w] show ?thesis by auto
qed

theorem NotifyAll_accounts_witness:
  "br_Total (fst (NotifyAllContext None ''tick'' [1] (Some sampleServer))) = 1 \<and>
   br_Failed (fst (NotifyAllContext None ''tick'' [1] (Some sampleServer))) = 0"
proof -
  let ?r = "NotifyAllContext None ''tick'' [1] (Some sampleServer)"
  have "sv_conns sampleServer = [(4, sampleConn), (5, sampleConn\<lparr>c_ready := True\<rparr>)]"
    by (simp add: sampleServer_def Config.defs Server.defs)
  then have t: "tbl_ok (sv_conns sampleServer)" "length (Connections (Some sampleServer)) = 1"
    by (simp_all add: tbl_ok_def Connections_def sampleConn_def newConn_def)
  from NotifyAll_accounts [OF t(1), of None "''tick''" "[1]" "fst ?r" "snd ?r"] t(2) sample_evaluated
  show ?thesis by auto
qed

end
