(* ===== verification/Client_Conn.thy ===== *)
theory Client_Conn
  imports Link_Steps
begin

text \<open>
  The dialing side (\<^verbatim>\<open>client.go\<close>): the client's connection state, its link and its operations. A
  physical connection is a \<open>nat\<close>; \<open>cl_conn\<close> is the current one. The channel \<^verbatim>\<open>ready\<close> is
  whether it is closed (a lost connection replaces it by an open one); closing it twice,
  which panics in Go, sets \<open>cl_panicked\<close>. \<^verbatim>\<open>reconnectCh\<close>, with one slot, is whether it holds its
  token. \<open>cl_addrs\<close> gives the remote and local address of a connection. A link of a client is bound to the connection (and generation) an operation was given,
  as the closures of the source are.
\<close>

record 'v Client = "'v Endpoint" +
  cl_conn :: "nat option"
  cl_generation :: u64
  cl_flowControl :: bool
  cl_readyClosed :: bool
  cl_reconnectCh :: bool
  cl_connecting :: bool
  cl_lastFrame :: int
  cl_panicked :: bool
  cl_addrs :: "nat \<Rightarrow> string \<times> string"

definition newClientState :: "('v, 'c) Config_scheme \<Rightarrow> (nat \<Rightarrow> string \<times> string) \<Rightarrow> 'v Client" where
  "newClientState cfg addrs =
     \<lparr>e_writer = \<lparr>w_out = [], w_tcp = False, w_script = []\<rparr>, e_compressor = cf_compressor cfg,
      e_deadlineErr = None, e_nextID = 0,
      e_limiter = newWriteLimiter (MaxConcurrentWrites (cf_backpressure cfg)),
      e_pending = [], e_requests = [], e_streams = [], e_heap = (\<lambda>_. None), e_nextRef = 0, e_nextCtx = 0,
      e_closed = False, e_closeErr = None,
      cl_conn = None, cl_generation = 0, cl_flowControl = False, cl_readyClosed = False,
      cl_reconnectCh = False, cl_connecting = False, cl_lastFrame = 0, cl_panicked = False,
      cl_addrs = addrs\<rparr>"

subsection \<open>The current connection\<close>

definition currentConnWithGeneration :: "'v Client \<Rightarrow> (nat \<times> u64) option" where
  "currentConnWithGeneration c = (case cl_conn c of None \<Rightarrow> None | Some conn \<Rightarrow> Some (conn, cl_generation c))"

definition isCurrentConnGeneration :: "nat \<Rightarrow> u64 \<Rightarrow> 'v Client \<Rightarrow> bool" where
  "isCurrentConnGeneration conn generation c \<longleftrightarrow>
     cl_conn c = Some conn \<and> (generation = 0 \<or> cl_generation c = generation)"

definition Client_SupportsStreamFlowControl :: "'v Client option \<Rightarrow> bool" where
  "Client_SupportsStreamFlowControl c =
     (case c of None \<Rightarrow> False | Some c \<Rightarrow> cl_conn c \<noteq> None \<and> cl_flowControl c)"

definition streamFlowControlFor :: "nat \<Rightarrow> 'v Client \<Rightarrow> bool" where
  "streamFlowControlFor conn c \<longleftrightarrow> cl_conn c = Some conn \<and> cl_flowControl c"

definition Client_nextRequestID :: "'v Client \<Rightarrow> u64 \<times> 'v Client" where
  "Client_nextRequestID c = (e_nextID c + 2 - 1, c\<lparr>e_nextID := e_nextID c + 2\<rparr>)"

text \<open>One pass of \<^verbatim>\<open>waitConn\<close>: it returns, or waits for \<^verbatim>\<open>ready\<close>, the context or the client's end.\<close>

definition waitConn :: "ctx \<Rightarrow> 'v Client \<Rightarrow> nat res outcome" where
  "waitConn ctx c =
     (if e_closed c then Return (Inl (closedError c))
      else
        (case ctx_err ctx of
           Some err \<Rightarrow> Return (Inl err)
         | None \<Rightarrow> (case cl_conn c of Some conn \<Rightarrow> Return (Inr conn) | None \<Rightarrow> Blocked)))"

definition setConn :: "nat \<Rightarrow> u64 \<Rightarrow> bool \<Rightarrow> int \<Rightarrow> Writer \<Rightarrow> 'v Client \<Rightarrow> gerror option \<times> 'v Client" where
  "setConn conn generation flowControl now w c =
     (if e_closed c then (Some (closedError c), c)
      else
        (let c = c\<lparr>cl_conn := Some conn, cl_generation := generation, cl_flowControl := flowControl,
                   cl_lastFrame := now, e_writer := w\<rparr> in
         (None, if cl_readyClosed c then c\<lparr>cl_panicked := True\<rparr> else c\<lparr>cl_readyClosed := True\<rparr>)))"

definition signalReconnect :: "'v Client \<Rightarrow> 'v Client" where
  "signalReconnect c = c\<lparr>cl_reconnectCh := True\<rparr>"

definition connectionLostGeneration ::
  "nat \<Rightarrow> u64 \<Rightarrow> gerror option \<Rightarrow> 'v Client \<Rightarrow> 'v Client \<times> event list" where
  "connectionLostGeneration conn generation err c =
     (let err = (case err of None \<Rightarrow> Sentinel ErrUnavailable | Some x \<Rightarrow> x);
          err = (if errors_Is err ErrClosed then Sentinel ErrUnavailable else err) in
      if cl_conn c \<noteq> Some conn \<or> (generation \<noteq> 0 \<and> cl_generation c \<noteq> generation) then (c, [])
      else
        (let c = c\<lparr>cl_conn := None, cl_generation := 0, cl_readyClosed := False, cl_flowControl := False\<rparr>;
             unavailableErr = Errorf_suffix ErrUnavailable (error_text err);
             (c, evs1) = failStreams (Some unavailableErr) c;
             (c, evs2) = cancelRequests c;
             (c, evs3) = failPending (Some unavailableErr) c
         in (signalReconnect c, EvNetClose # evs1 @ evs2 @ evs3)))"

definition connectionLost :: "nat \<Rightarrow> gerror option \<Rightarrow> 'v Client \<Rightarrow> 'v Client \<times> event list" where
  "connectionLost conn err c = connectionLostGeneration conn 0 err c"

definition Client_closeWithError :: "gerror option \<Rightarrow> 'v Client \<Rightarrow> 'v Client \<times> event list" where
  "Client_closeWithError err c =
     (let err = (case err of None \<Rightarrow> Sentinel ErrClosed | Some x \<Rightarrow> x) in
      if e_closed c then (c, [])
      else
        (let c = c\<lparr>e_closeErr := Some err, e_closed := True\<rparr>;
             evs0 = (if cl_connecting c then [EvCancelConnect] else []) @
                    (if cl_conn c \<noteq> None then [EvNetClose] else []);
             c = c\<lparr>cl_conn := None, cl_generation := 0\<rparr>;
             c = (if cl_readyClosed c then c else c\<lparr>cl_readyClosed := True\<rparr>);
             (c, evs1) = failStreams (Some err) c;
             (c, evs2) = cancelRequests c;
             (c, evs3) = failPending (Some err) c
         in (c, evs0 @ evs1 @ evs2 @ evs3)))"

definition Client_Close :: "'v Client \<Rightarrow> 'v Client \<times> event list" where
  "Client_Close c = Client_closeWithError (Some (Sentinel ErrClosed)) c"

subsection \<open>Writing\<close>

definition writeToConnection ::
  "('v, 'c) Config_scheme \<Rightarrow> nat \<Rightarrow> u64 \<Rightarrow> Frame \<Rightarrow> 'v Client \<Rightarrow> gerror option \<times> 'v Client \<times> event list" where
  "writeToConnection cfg conn generation frame c =
     (if e_closed c then (Some (closedError c), c, [])
      else if \<not> isCurrentConnGeneration conn generation c then (Some (Sentinel ErrUnavailable), c, [])
      else if \<not> isControlFrame (Type frame) \<and> \<not> fst (wl_acquire (e_limiter c))
      then (Some (Sentinel ErrBackpressure), c,
            map EvReport (reportBackpressure (cf_backpressure cfg)
              \<lparr>bi_Side = BackpressureSideClient, bi_Reason = BackpressureReasonConcurrentWrites,
               bi_Limit = MaxConcurrentWrites (cf_backpressure cfg), bi_RequestID = RequestID frame,
               bi_Function = Function frame, bi_FrameType = Type frame\<rparr>))
      else
        (let c = (if isControlFrame (Type frame) then c else c\<lparr>e_limiter := snd (wl_acquire (e_limiter c))\<rparr>);
             (err, c) =
               (if cf_writeTimeout cfg > 0 \<and> e_deadlineErr c \<noteq> None
                then (Some (Errorf_prefix ''set write deadline'' (the (e_deadlineErr c))), c)
                else (case writeFrameWithCompression (cf_mc cfg) (cf_lib cfg) (e_writer c)
                             (cf_maxFrameSize cfg) (Some (reg_codec cfg)) (e_compressor c) frame of
                        (err, w) \<Rightarrow> (err, c\<lparr>e_writer := w\<rparr>)));
             c = (if isControlFrame (Type frame) then c else c\<lparr>e_limiter := wl_release (e_limiter c)\<rparr>)
         in (err, c, [])))"

definition writeTo where
  "writeTo cfg conn frame c = writeToConnection cfg conn 0 frame c"

definition writeToGeneration where
  "writeToGeneration cfg conn generation frame c =
     (if generation = 0 then (Some (Sentinel ErrUnavailable), c, [])
      else writeToConnection cfg conn generation frame c)"

definition handleWriteErrorGeneration :: "nat \<Rightarrow> u64 \<Rightarrow> gerror \<Rightarrow> 'v Client \<Rightarrow> 'v Client \<times> event list" where
  "handleWriteErrorGeneration conn generation err c =
     (if errors_Is err ErrBackpressure \<or> errors_Is err ErrFrameTooLarge then (c, [])
      else connectionLostGeneration conn generation (Some err) c)"

subsection \<open>Inbound requests\<close>

definition Client_trackRequest :: "nat \<Rightarrow> u64 \<Rightarrow> u64 \<Rightarrow> nat \<Rightarrow> 'v Client \<Rightarrow> bool \<times> 'v Client" where
  "Client_trackRequest conn generation requestID k c =
     (if cl_conn c \<noteq> Some conn \<or> cl_generation c \<noteq> generation then (False, c)
      else if e_closed c then (False, c)
      else (True, c\<lparr>e_requests := tbl_put requestID k (e_requests c)\<rparr>))"

definition Client_untrackRequest :: "nat \<Rightarrow> u64 \<Rightarrow> u64 \<Rightarrow> 'v Client \<Rightarrow> 'v Client" where
  "Client_untrackRequest conn generation requestID c =
     (if cl_conn c \<noteq> Some conn \<or> cl_generation c \<noteq> generation then c
      else c\<lparr>e_requests := tbl_del requestID (e_requests c)\<rparr>)"

definition Client_context :: "nat \<Rightarrow> u64 \<Rightarrow> 'v Client \<Rightarrow> Context" where
  "Client_context conn generation c =
     \<lparr>rc_deadline = None, rc_clientName = '''', rc_requestID = 0, rc_function = '''',
      rc_remoteAddr = fst (cl_addrs c conn), rc_localAddr = snd (cl_addrs c conn), rc_conn = False,
      rc_generation = generation, rc_notify = False, rc_stream = False, rc_streamKind = StreamKindOther 0\<rparr>"

text \<open>The link of an operation that was given a connection: \<open>wgen\<close> is the generation its
  writes check (0 for none), \<open>tgen\<close> the one its inbound requests belong to.\<close>

definition client_link :: "('v, 'c) Config_scheme \<Rightarrow> nat \<Rightarrow> u64 \<Rightarrow> u64 \<Rightarrow> ('v, 'v Client) link" where
  "client_link cfg conn wgen tgen =
     \<lparr>lk_side = BackpressureSideClient, lk_newID = Client_nextRequestID,
      lk_write = writeToConnection cfg conn wgen, lk_onWriteError = handleWriteErrorGeneration conn wgen,
      lk_track = Client_trackRequest conn tgen, lk_untrack = Client_untrackRequest conn tgen,
      lk_flow = streamFlowControlFor conn, lk_context = Client_context conn tgen\<rparr>"

subsection \<open>The operations of a client\<close>

definition Client_addPending :: "('v, 'c) Config_scheme \<Rightarrow> u64 \<Rightarrow> pendingCall \<Rightarrow> 'v Client \<Rightarrow> gerror option \<times> 'v Client \<times> event list" where
  "Client_addPending cfg = addPending BackpressureSideClient (cf_backpressure cfg)"

definition Client_removePending :: "u64 \<Rightarrow> 'v Client \<Rightarrow> 'v Client" where
  "Client_removePending = removePending"

definition Client_complete :: "u64 \<Rightarrow> clientResponse \<Rightarrow> 'v Client \<Rightarrow> bool \<times> 'v Client \<times> event list" where
  "Client_complete = complete"

definition Client_failPending :: "gerror option \<Rightarrow> 'v Client \<Rightarrow> 'v Client \<times> event list" where
  "Client_failPending = failPending"

definition Client_addStream :: "('v, 'c) Config_scheme \<Rightarrow> nat \<Rightarrow> 'v Client \<Rightarrow> gerror option \<times> 'v Client \<times> event list" where
  "Client_addStream cfg = addStream BackpressureSideClient (cf_backpressure cfg)"

definition Client_removeStream :: "nat \<Rightarrow> 'v Client \<Rightarrow> 'v Client" where
  "Client_removeStream = removeStream"

definition Client_findStream :: "u64 \<Rightarrow> 'v Client \<Rightarrow> nat option" where
  "Client_findStream = findStream"

definition Client_deliverStreamFrame :: "('v, 'c) Config_scheme \<Rightarrow> Frame \<Rightarrow> 'v Client \<Rightarrow> bool \<times> 'v Client \<times> event list" where
  "Client_deliverStreamFrame cfg = deliverStreamFrame (reg_codec cfg)"

definition Client_failStreams :: "gerror option \<Rightarrow> 'v Client \<Rightarrow> 'v Client \<times> event list" where
  "Client_failStreams = failStreams"

definition Client_cancel :: "u64 \<Rightarrow> 'v Client \<Rightarrow> 'v Client \<times> event list" where
  "Client_cancel = cancel_request"

definition Client_cancelRequests :: "'v Client \<Rightarrow> 'v Client \<times> event list" where
  "Client_cancelRequests = cancelRequests"

definition writeErrorTo where
  "writeErrorTo cfg conn = writeError (client_link cfg conn 0 0) (reg_codec cfg)"

text \<open>An operation that first waits for a connection: it returns an error, goes on with the
  connection, or blocks before it has changed anything.\<close>

definition with_conn ::
  "ctx \<Rightarrow> (nat \<Rightarrow> 'v Client \<Rightarrow> 'r res \<times> 'v Client \<times> event list) \<Rightarrow> 'v Client \<Rightarrow>
   ('r res \<times> 'v Client \<times> event list) outcome" where
  "with_conn ctx op c =
     (case waitConn ctx c of
        Blocked \<Rightarrow> Blocked
      | Return (Inl err) \<Rightarrow> Return (Inl err, c, [])
      | Return (Inr conn) \<Rightarrow> Return (op conn c))"

definition Client_sendRequest ::
  "('v, 'c) Config_scheme \<Rightarrow> ctx option \<Rightarrow> string \<Rightarrow> 'v \<Rightarrow> pendingCall \<Rightarrow> 'v Client \<Rightarrow>
   (u64 res \<times> 'v Client \<times> event list) outcome" where
  "Client_sendRequest cfg ctx function req p c =
     (if function = '''' then Return (Inl (Sentinel ErrInvalidFunction), c, [])
      else
        (case MarshalValue (reg_codec cfg) req of
           Inl e \<Rightarrow> Return (Inl (Errorf_prefix ''encode request'' e), c, [])
         | Inr payload \<Rightarrow>
             with_conn (normalizeContext ctx) (\<lambda>conn.
               request_send (client_link cfg conn 0 0) (cf_backpressure cfg) (normalizeContext ctx) function payload p) c))"

definition Client_sendRequestToConnection ::
  "('v, 'c) Config_scheme \<Rightarrow> ctx option \<Rightarrow> nat option \<Rightarrow> u64 \<Rightarrow> string \<Rightarrow> 'v \<Rightarrow> pendingCall \<Rightarrow> 'v Client \<Rightarrow>
   u64 res \<times> 'v Client \<times> event list" where
  "Client_sendRequestToConnection cfg ctx conn generation function req p c =
     (if function = '''' then (Inl (Sentinel ErrInvalidFunction), c, [])
      else
        (case conn of
           None \<Rightarrow> (Inl (Sentinel ErrUnavailable), c, [])
         | Some conn \<Rightarrow>
             if generation = 0 \<or> \<not> isCurrentConnGeneration conn generation c
             then (Inl (Sentinel ErrUnavailable), c, [])
             else
               (case MarshalValue (reg_codec cfg) req of
                  Inl e \<Rightarrow> (Inl (Errorf_prefix ''encode request'' e), c, [])
                | Inr payload \<Rightarrow>
                    request_send (client_link cfg conn generation generation) (cf_backpressure cfg)
                      (normalizeContext ctx) function payload p c)))"

definition Client_sendNotify ::
  "('v, 'c) Config_scheme \<Rightarrow> ctx option \<Rightarrow> string \<Rightarrow> 'v \<Rightarrow> 'v Client \<Rightarrow>
   (u64 res \<times> 'v Client \<times> event list) outcome" where
  "Client_sendNotify cfg ctx function req c =
     (if function = '''' then Return (Inl (Sentinel ErrInvalidFunction), c, [])
      else
        (case MarshalValue (reg_codec cfg) req of
           Inl e \<Rightarrow> Return (Inl (Errorf_prefix ''encode notification'' e), c, [])
         | Inr payload \<Rightarrow>
             with_conn (normalizeContext ctx) (\<lambda>conn.
               notify_send (client_link cfg conn 0 0) (normalizeContext ctx) function payload) c))"

definition Client_sendNotifyToConnection ::
  "('v, 'c) Config_scheme \<Rightarrow> ctx option \<Rightarrow> nat option \<Rightarrow> u64 \<Rightarrow> string \<Rightarrow> 'v \<Rightarrow> 'v Client \<Rightarrow>
   u64 res \<times> 'v Client \<times> event list" where
  "Client_sendNotifyToConnection cfg ctx conn generation function req c =
     (if function = '''' then (Inl (Sentinel ErrInvalidFunction), c, [])
      else
        (case conn of
           None \<Rightarrow> (Inl (Sentinel ErrUnavailable), c, [])
         | Some conn \<Rightarrow>
             if generation = 0 \<or> \<not> isCurrentConnGeneration conn generation c
             then (Inl (Sentinel ErrUnavailable), c, [])
             else
               (case MarshalValue (reg_codec cfg) req of
                  Inl e \<Rightarrow> (Inl (Errorf_prefix ''encode notification'' e), c, [])
                | Inr payload \<Rightarrow>
                    notify_send (client_link cfg conn generation generation) (normalizeContext ctx) function payload c)))"

definition Client_callFrame_begin where
  "Client_callFrame_begin cfg ctx function req ch c =
     Client_sendRequest cfg (Some (normalizeContext ctx)) function req (SyncPending ch) c"

text \<open>The end of a call: the cancel frame goes to the connection that is current by then.\<close>

definition Client_callFrame_end :: "('v, 'c) Config_scheme \<Rightarrow> u64 \<Rightarrow> wake \<Rightarrow> 'v Client \<Rightarrow> Frame res \<times> 'v Client \<times> event list" where
  "Client_callFrame_end cfg requestID w c =
     call_wait (map_option (\<lambda>conn. client_link cfg conn 0 0) (cl_conn c)) requestID w c"

definition Client_callFrameOnConnection_end where
  "Client_callFrameOnConnection_end cfg conn generation requestID w c =
     call_wait (Some (client_link cfg conn generation generation)) requestID w c"

definition Client_CallContext_begin where
  "Client_CallContext_begin cfg ctx function req resp ch c =
     (case validateResponseTarget resp of
        Some e \<Rightarrow> Return (Inl e, c, [])
      | None \<Rightarrow> Client_callFrame_begin cfg ctx function req ch c)"

definition Client_CallContext_end :: "('v, 'c) Config_scheme \<Rightarrow> u64 \<Rightarrow> wake \<Rightarrow> 'v Client \<Rightarrow> 'v res \<times> 'v Client \<times> event list" where
  "Client_CallContext_end cfg requestID w c =
     (case Client_callFrame_end cfg requestID w c of
        (Inl e, c, evs) \<Rightarrow> (Inl e, c, evs)
      | (Inr frame, c, evs) \<Rightarrow> (decodeResponse (reg_codec cfg) frame, c, evs))"

definition Client_AsyncCallContext where
  "Client_AsyncCallContext cfg ctx function req handler correlationID c =
     (case newAsyncPendingCall function correlationID handler of
        Inl e \<Rightarrow> Return (Inl e, c, [])
      | Inr p \<Rightarrow> Client_sendRequest cfg (Some (normalizeContext ctx)) function req p c)"

definition Client_openServerStream where
  "Client_openServerStream cfg ctx function req opts c =
     (if function = '''' then Return (Inl (Sentinel ErrInvalidFunction), c, [])
      else
        (case MarshalValue (reg_codec cfg) req of
           Inl e \<Rightarrow> Return (Inl (Errorf_prefix ''encode stream request'' e), c, [])
         | Inr payload \<Rightarrow>
             with_conn (normalizeContext ctx) (\<lambda>conn.
               open_server_stream (client_link cfg conn 0 0) cfg (normalizeContext ctx) function payload opts) c))"

definition Client_openClientStream where
  "Client_openClientStream cfg ctx function opts ch c =
     (if function = '''' then Return (Inl (Sentinel ErrInvalidFunction), c, [])
      else with_conn (normalizeContext ctx) (\<lambda>conn.
             open_client_stream (client_link cfg conn 0 0) cfg (normalizeContext ctx) function opts ch) c)"

definition Client_openBidiStream where
  "Client_openBidiStream cfg ctx function opts c =
     (if function = '''' then Return (Inl (Sentinel ErrInvalidFunction), c, [])
      else with_conn (normalizeContext ctx) (\<lambda>conn.
             open_bidi_stream (client_link cfg conn 0 0) cfg (normalizeContext ctx) function opts) c)"

definition Client_startRequest where
  "Client_startRequest cfg conn generation = startRequest (client_link cfg conn 0 generation) cfg"

definition Client_runRequest where
  "Client_runRequest cfg conn generation = runRequest (client_link cfg conn 0 generation) cfg"

definition Client_startNotify where
  "Client_startNotify cfg conn generation = startNotify (client_link cfg conn 0 generation) cfg"

definition Client_runNotify where
  "Client_runNotify cfg conn generation = runNotify (client_link cfg conn 0 generation)"

definition Client_startStream where
  "Client_startStream cfg conn generation = startStream (client_link cfg conn 0 generation) cfg"

definition Client_startServerStream where
  "Client_startServerStream cfg conn generation = startServerStream (client_link cfg conn 0 generation) cfg"

definition Client_runServerStream where
  "Client_runServerStream cfg conn generation = runServerStream (client_link cfg conn 0 generation) cfg"

definition Client_startClientStream where
  "Client_startClientStream cfg conn generation = startClientStream (client_link cfg conn 0 generation) cfg"

definition Client_runClientStream where
  "Client_runClientStream cfg conn generation = runClientStream (client_link cfg conn 0 generation) cfg"

definition Client_startBidiStream where
  "Client_startBidiStream cfg conn generation = startBidiStream (client_link cfg conn 0 generation) cfg"

definition Client_runBidiStream where
  "Client_runBidiStream cfg conn generation = runBidiStream (client_link cfg conn 0 generation) cfg"

text \<open>One iteration of \<^verbatim>\<open>readLoop\<close>: whether it goes on, the state and the events. A frame of a
  connection that is no longer current ends the loop unread.\<close>

definition Client_readLoop_step ::
  "('v, 'c) Config_scheme \<Rightarrow> nat \<Rightarrow> u64 \<Rightarrow> int \<Rightarrow> Frame res \<Rightarrow> 'v Client \<Rightarrow> bool \<times> 'v Client \<times> event list" where
  "Client_readLoop_step cfg conn generation now r c =
     (case r of
        Inl err \<Rightarrow>
          if errors_Is err IoEOF \<or> errors_Is err NetErrClosed
          then (False, connectionLost conn (Some (Sentinel ErrUnavailable)) c)
          else (False, connectionLostGeneration conn generation (Some err) c)
      | Inr frame \<Rightarrow>
          if \<not> isCurrentConnGeneration conn generation c then (False, c, [])
          else dispatch (client_link cfg conn 0 generation) cfg frame (c\<lparr>cl_lastFrame := now\<rparr>))"

text \<open>\<^verbatim>\<open>readLoop\<close> on the bytes the peer sends; \<open>clock\<close> gives the time at each frame.\<close>

function Client_readLoop ::
  "('v, 'c) Config_scheme \<Rightarrow> nat \<Rightarrow> u64 \<Rightarrow> (nat \<Rightarrow> int) \<Rightarrow> Reader \<Rightarrow> 'v Client \<Rightarrow> 'v Client \<times> event list" where
  "Client_readLoop cfg conn generation clock r c =
     (case readFrameWithCompression (cf_mc cfg) (cf_lib cfg) r (cf_maxFrameSize cfg)
             (Some (reg_codec cfg)) (e_compressor c) of
        (Inl err, r) \<Rightarrow> snd (Client_readLoop_step cfg conn generation (clock 0) (Inl err) c)
      | (Inr frame, r) \<Rightarrow>
          (case Client_readLoop_step cfg conn generation (clock 0) (Inr frame) c of
             (False, c, evs) \<Rightarrow> (c, evs)
           | (True, c, evs) \<Rightarrow>
               (case Client_readLoop cfg conn generation (\<lambda>n. clock (Suc n)) r c of (c, evs') \<Rightarrow> (c, evs @ evs'))))"
  by pat_completeness auto

termination
  by (relation "measure (\<lambda>(cfg, conn, generation, clock, r, c). length (r_data r))") (auto dest: readFrame_shrinks [OF sym])

declare Client_readLoop.simps [simp del]

subsection \<open>Connecting\<close>

text \<open>\<^verbatim>\<open>connectOnce\<close> up to the dial: it waits for the gate, returns, or dials with the attempt registered
  for cancellation. \<open>cl_connecting\<close> is both: whether the gate is taken past the check for a current
  connection, and whether \<^verbatim>\<open>connectCancel\<close> is set.\<close>

datatype connect_phase = ConnectReturn "gerror option" | ConnectWait | ConnectDial

definition connectOnce_begin :: "ctx \<Rightarrow> 'v Client \<Rightarrow> connect_phase \<times> 'v Client" where
  "connectOnce_begin ctx c =
     (case ctx_err ctx of
        Some err \<Rightarrow> (ConnectReturn (Some err), c)
      | None \<Rightarrow>
          if e_closed c then (ConnectReturn (Some (closedError c)), c)
          else if cl_connecting c then (ConnectWait, c)
          else if cl_conn c \<noteq> None then (ConnectReturn None, c)
          else (ConnectDial, c\<lparr>cl_connecting := True\<rparr>))"

text \<open>The rest of \<^verbatim>\<open>connectOnce\<close>, given what dialing returned (the connection with its transport and the
  result of the handshake) and the state of the attempt's context after it. On success the read loop
  and, when it is configured, the ping loop of the connection are started.\<close>

definition connectOnce_end ::
  "gerror option \<Rightarrow> (nat \<times> Writer \<times> bool res) res \<Rightarrow> u64 \<Rightarrow> int \<Rightarrow> 'v Client \<Rightarrow> gerror option \<times> 'v Client \<times> event list" where
  "connectOnce_end ctxErr dialed generation now c =
     (let (err, c, evs) =
        (case dialed of
           Inl err \<Rightarrow> (Some err, c, [])
         | Inr (conn, w, handshake) \<Rightarrow>
             (case ctxErr of
                Some err \<Rightarrow> (Some err, c, [EvNetClose])
              | None \<Rightarrow>
                  (case handshake of
                     Inl err \<Rightarrow> (Some err, c, [EvNetClose])
                   | Inr flowControl \<Rightarrow>
                       (case setConn conn generation flowControl now w c of
                          (Some err, c) \<Rightarrow> (Some err, c, [EvNetClose])
                        | (None, c) \<Rightarrow> (None, c, [])))))
      in (err, c\<lparr>cl_connecting := False\<rparr>, evs))"

subsection \<open>Pings\<close>

text \<open>One round of \<^verbatim>\<open>pingLoop\<close>: sending the ping, and the check after the ping timeout.\<close>

definition pingLoop_send :: "('v, 'c) Config_scheme \<Rightarrow> nat \<Rightarrow> 'v Client \<Rightarrow> bool \<times> 'v Client \<times> event list" where
  "pingLoop_send cfg conn c =
     (if \<not> isCurrentConnGeneration conn 0 c then (False, c, [])
      else
        (let (requestID, c) = Client_nextRequestID c in
         case write_handled (client_link cfg conn 0 0) (zeroFrame\<lparr>Type := FramePing, RequestID := requestID\<rparr>) c of
           (None, c, evs) \<Rightarrow> (True, c, evs)
         | (Some err, c, evs) \<Rightarrow> (errors_Is err ErrBackpressure, c, evs)))"

definition pingLoop_check :: "nat \<Rightarrow> int \<Rightarrow> 'v Client \<Rightarrow> bool \<times> 'v Client \<times> event list" where
  "pingLoop_check conn start c =
     (if \<not> isCurrentConnGeneration conn 0 c then (False, c, [])
      else if cl_lastFrame c < start
      then (False, connectionLost conn (Some (Errorf_suffix ErrUnavailable ''ping timeout'')) c)
      else (True, c, []))"

subsection \<open>Facts: the link of a client\<close>

text \<open>What a client adds to the invariant of an endpoint: \<^verbatim>\<open>ready\<close> has never been closed twice; it is
  closed exactly while there is a connection, and once the client is closed; a closed client has no
  connection; a connection attempt runs only while there is none; a connection has a generation.\<close>

definition client_ok :: "'v Client \<Rightarrow> bool" where
  "client_ok c \<longleftrightarrow>
     \<not> cl_panicked c \<and> (cl_readyClosed c \<longleftrightarrow> cl_conn c \<noteq> None \<or> e_closed c) \<and>
     (e_closed c \<longrightarrow> cl_conn c = None) \<and> (cl_connecting c \<longrightarrow> cl_conn c = None) \<and>
     (cl_conn c = None \<longleftrightarrow> cl_generation c = 0)"

lemma client_ok_cong:
  assumes "extension c' = extension c" "e_closed c' = e_closed c"
  shows "client_ok c' = client_ok c"
  using assms by (cases c; cases c') (simp add: client_ok_def)

lemma client_ok_signal: "client_ok (c\<lparr>cl_reconnectCh := q\<rparr>) = client_ok c"
  by (simp add: client_ok_def)

lemma writeToConnection_frame:
  assumes "writeToConnection cfg conn g f c = (r, c', evs)"
  shows "same_tables c c'" "extension c' = extension c" "delivered i evs = 0"
proof -
  show "same_tables c c'" "extension c' = extension c"
    using assms by (auto simp: writeToConnection_def Let_def same_tables_def split: if_splits prod.splits)
  show "delivered i evs = 0"
    using assms by (auto simp: writeToConnection_def Let_def split: if_splits prod.splits)
qed

definition lost_error :: "gerror option \<Rightarrow> gerror" where
  "lost_error err =
     (let err = (case err of None \<Rightarrow> Sentinel ErrUnavailable | Some x \<Rightarrow> x);
          err = (if errors_Is err ErrClosed then Sentinel ErrUnavailable else err)
      in Errorf_suffix ErrUnavailable (error_text err))"

lemma connectionLost_fail_all:
  "connectionLostGeneration conn g err c =
     (if \<not> isCurrentConnGeneration conn g c then (c, [])
      else (case fail_all (lost_error err)
                (c\<lparr>cl_conn := None, cl_generation := 0, cl_readyClosed := False, cl_flowControl := False\<rparr>) of
              (c, evs) \<Rightarrow> (signalReconnect c, EvNetClose # evs)))"
  by (auto simp: connectionLostGeneration_def fail_all_def lost_error_def isCurrentConnGeneration_def Let_def
      split: prod.splits)

lemma client_fields_ok:
  "tables_ok bp (c\<lparr>cl_conn := a, cl_generation := g, cl_readyClosed := r, cl_flowControl := f\<rparr>) = tables_ok bp c"
  "tables_ok bp (c\<lparr>cl_reconnectCh := q\<rparr>) = tables_ok bp c"
  "tables_ok bp (c\<lparr>cl_connecting := q\<rparr>) = tables_ok bp c"
  "pending i (c\<lparr>cl_conn := a, cl_generation := g, cl_readyClosed := r, cl_flowControl := f\<rparr>) = pending i c"
  "pending i (c\<lparr>cl_reconnectCh := q\<rparr>) = pending i c" "pending i (c\<lparr>cl_connecting := q\<rparr>) = pending i c"
  by (simp_all add: tables_ok_def streams_ok_def limits_ok_def pending_def)

lemma connectionLost_kept:
  assumes "connectionLostGeneration conn g err c = (c', evs)" "endpoint_ok bp c" "client_ok c"
  shows "kept bp client_ok c [] evs c'"
proof (cases "isCurrentConnGeneration conn g c")
  case False
  with assms show ?thesis by (simp add: connectionLost_fail_all kept_same)
next
  case True
  let ?c = "c\<lparr>cl_conn := None, cl_generation := 0, cl_readyClosed := False, cl_flowControl := False\<rparr>"
  obtain c1 ev where f: "fail_all (lost_error err) ?c = (c1, ev)" by fastforce
  from assms(1) True f have c': "c' = signalReconnect c1" "evs = EvNetClose # ev"
    by (simp_all add: connectionLost_fail_all)
  from assms(2) have "tables_ok bp ?c" by (simp add: endpoint_ok_def client_fields_ok)
  note fa = fail_all_step [OF f this]
  from True assms(3) have o: "\<not> e_closed c" "\<not> cl_panicked c" by (auto simp: client_ok_def isCurrentConnGeneration_def)
  then have "client_ok ?c" by (simp add: client_ok_def)
  with client_ok_cong [OF fa(3,4)] have "client_ok c1" by simp
  then have "client_ok c'" by (simp add: c' signalReconnect_def client_ok_signal)
  moreover have "tables_ok bp c'" using fa(1) by (simp add: c' signalReconnect_def client_fields_ok)
  moreover have "\<not> e_closed c'" using fa(4) o by (simp add: c' signalReconnect_def)
  moreover have "answered c [] evs c'"
    using fa(2) by (simp add: answered_def c' signalReconnect_def client_fields_ok)
  ultimately show ?thesis using o by (simp add: kept_def endpoint_ok_def closed_ok_def)
qed

lemma Client_track_kept:
  assumes "endpoint_ok bp c" "client_ok c"
  shows "Client_trackRequest conn g i k c = (ok, c') \<Longrightarrow>
      endpoint_ok bp c' \<and> client_ok c' \<and> e_pending c' = e_pending c \<and> e_closed c' = e_closed c"
    and "endpoint_ok bp (Client_untrackRequest conn g i c) \<and> client_ok (Client_untrackRequest conn g i c) \<and>
      e_pending (Client_untrackRequest conn g i c) = e_pending c \<and> e_closed (Client_untrackRequest conn g i c) = e_closed c"
  using assms
  by (auto simp: Client_trackRequest_def Client_untrackRequest_def requests_ok client_ok_def split: if_splits)

interpretation client: endpoint_link "client_link cfg conn wgen tgen" "cf_backpressure cfg" client_ok
proof unfold_locales
  show "client_ok e' = client_ok e" if "extension e' = extension e" "e_closed e' = e_closed e" for e e' :: "'a Client"
    using that by (rule client_ok_cong)
  show "same_tables e e' \<and> (client_ok e \<longrightarrow> client_ok e')"
    if "lk_newID (client_link cfg conn wgen tgen) e = (i, e')" for e i e'
    using that by (auto simp: client_link_def Client_nextRequestID_def same_tables_def client_ok_def)
  show "same_tables e e' \<and> (client_ok e \<longrightarrow> client_ok e') \<and> (\<forall>i. delivered i evs = 0)"
    if "lk_write (client_link cfg conn wgen tgen) f e = (r, e', evs)" for f e r e' evs
    using that writeToConnection_frame [of cfg conn wgen f e r e' evs] client_ok_cong [of e' e]
    by (simp add: client_link_def same_tables_def)
  show "endpoint_ok (cf_backpressure cfg) e' \<and> client_ok e' \<and> answered e [] evs e' \<and> (e_closed e \<longrightarrow> e_closed e')"
    if "lk_onWriteError (client_link cfg conn wgen tgen) err e = (e', evs)" "endpoint_ok (cf_backpressure cfg) e" "client_ok e"
    for err e e' evs
    using that connectionLost_kept [of conn wgen "Some err" e e' evs "cf_backpressure cfg"]
    by (auto simp: client_link_def handleWriteErrorGeneration_def kept_def answered_same split: if_splits)
  show "endpoint_ok (cf_backpressure cfg) e' \<and> client_ok e' \<and> e_pending e' = e_pending e \<and> e_closed e' = e_closed e"
    if "lk_track (client_link cfg conn wgen tgen) i k e = (ok, e')" "endpoint_ok (cf_backpressure cfg) e" "client_ok e"
    for i k e ok e'
    using that Client_track_kept(1) by (simp add: client_link_def)
  show "endpoint_ok (cf_backpressure cfg) e' \<and> client_ok e' \<and> e_pending e' = e_pending e \<and> e_closed e' = e_closed e"
    if "lk_untrack (client_link cfg conn wgen tgen) i e = e'" "endpoint_ok (cf_backpressure cfg) e" "client_ok e"
    for i e e'
    using that Client_track_kept(2) [of "cf_backpressure cfg" e conn tgen i] by (auto simp: client_link_def)
qed

lemma ready_closed: "(if cl_readyClosed c then c else c\<lparr>cl_readyClosed := True\<rparr>) = c\<lparr>cl_readyClosed := True\<rparr>"
  by (cases c) simp

lemma Client_closeWithError_fail_all:
  "Client_closeWithError err c =
     (let err = (case err of None \<Rightarrow> Sentinel ErrClosed | Some x \<Rightarrow> x) in
      if e_closed c then (c, [])
      else (case fail_all err (c\<lparr>e_closeErr := Some err, e_closed := True, cl_conn := None, cl_generation := 0,
                                 cl_readyClosed := True\<rparr>) of
              (c', evs) \<Rightarrow> (c', (if cl_connecting c then [EvCancelConnect] else []) @
                                 (if cl_conn c \<noteq> None then [EvNetClose] else []) @ evs)))"
  unfolding Client_closeWithError_def ready_closed by (simp add: fail_all_def Let_def split: prod.splits)

lemma client_ok_attempt_over: "client_ok c \<Longrightarrow> client_ok (c\<lparr>cl_connecting := False\<rparr>)"
  by (auto simp: client_ok_def)

lemma client_closing_ok:
  "tables_ok bp (c\<lparr>e_closeErr := x, e_closed := y, cl_conn := a, cl_generation := g, cl_readyClosed := r\<rparr>) = tables_ok bp c"
  "pending i (c\<lparr>e_closeErr := x, e_closed := y, cl_conn := a, cl_generation := g, cl_readyClosed := r\<rparr>) = pending i c"
  by (simp_all add: tables_ok_def streams_ok_def limits_ok_def pending_def)

lemma Client_closeWithError_kept:
  assumes "Client_closeWithError err c = (c', evs)" "endpoint_ok bp c" "client_ok c"
  shows "kept bp client_ok c [] evs c' \<and> e_closed c'"
proof (cases "e_closed c")
  case True
  with assms show ?thesis by (simp add: Client_closeWithError_fail_all kept_same)
next
  case False
  define er where "er = (case err of None \<Rightarrow> Sentinel ErrClosed | Some x \<Rightarrow> x)"
  let ?c = "c\<lparr>e_closeErr := Some er, e_closed := True, cl_conn := None, cl_generation := 0, cl_readyClosed := True\<rparr>"
  obtain ev where f: "fail_all er ?c = (c', ev)"
    and evs: "evs = (if cl_connecting c then [EvCancelConnect] else []) @ (if cl_conn c \<noteq> None then [EvNetClose] else []) @ ev"
    using assms(1) False by (auto simp: Client_closeWithError_fail_all er_def [symmetric] Let_def split: prod.splits)
  have "tables_ok bp ?c" using assms(2) by (simp add: endpoint_ok_def client_closing_ok)
  note fa = fail_all_step [OF f this]
  have "client_ok ?c" using assms(3) by (simp add: client_ok_def)
  with client_ok_cong [OF fa(3,4)] have "client_ok c'" by simp
  moreover have "endpoint_ok bp c'" "e_closed c'" using fa(1,4-8) by (simp_all add: endpoint_ok_def closed_ok_def)
  moreover have "answered c [] evs c'"
    using fa(2) by (simp add: answered_def evs client_closing_ok)
  ultimately show ?thesis by (simp add: kept_def)
qed

lemma connectOnce_begin_kept:
  "connectOnce_begin ctx c = (ph, c') \<Longrightarrow> endpoint_ok bp c \<Longrightarrow> client_ok c \<Longrightarrow> kept bp client_ok c [] [] c'"
  by (auto simp: connectOnce_begin_def kept_def answered_def endpoint_ok_def closed_ok_def client_fields_ok client_ok_def
      split: option.splits if_splits)

lemma setConn_kept:
  assumes "setConn conn g fl now w c = (r, c')" "endpoint_ok bp c" "client_ok c" "cl_conn c = None" "g \<noteq> 0" "cl_connecting c"
  shows "kept bp client_ok c [] [] (c'\<lparr>cl_connecting := False\<rparr>)"
proof (cases "e_closed c")
  case True
  with assms have "c' = c" by (simp add: setConn_def)
  with assms True show ?thesis
    by (simp add: kept_def answered_def endpoint_ok_def closed_ok_def client_fields_ok client_ok_attempt_over)
next
  case False
  with assms have c': "c' = c\<lparr>cl_conn := Some conn, cl_generation := g, cl_flowControl := fl,
      cl_lastFrame := now, e_writer := w, cl_readyClosed := True\<rparr>"
    by (simp add: setConn_def client_ok_def Let_def)
  with assms False show ?thesis
    by (simp add: kept_def answered_def endpoint_ok_def closed_ok_def client_ok_def tables_ok_def streams_ok_def
        limits_ok_def pending_def)
qed

lemma connectOnce_end_kept:
  assumes "connectOnce_end ctxErr dialed g now c = (r, c', evs)" "endpoint_ok bp c" "client_ok c" "cl_connecting c" "g \<noteq> 0"
  shows "kept bp client_ok c [] evs c'"
proof -
  have none: "cl_conn c = None" using assms(3,4) by (simp add: client_ok_def)
  have same: "kept bp client_ok c [] ev (c\<lparr>cl_connecting := False\<rparr>)" if "\<forall>i. delivered i ev = 0" for ev
    using assms(2,3) that
    by (simp add: kept_def answered_def endpoint_ok_def closed_ok_def client_fields_ok client_ok_attempt_over)
  consider (kept) "c' = c\<lparr>cl_connecting := False\<rparr>" "evs = [] \<or> evs = [EvNetClose]"
    | (set) conn w fl x c1 where "setConn conn g fl now w c = (x, c1)" "c' = c1\<lparr>cl_connecting := False\<rparr>"
        "evs = [] \<or> evs = [EvNetClose]"
    using assms(1) by (auto simp: connectOnce_end_def Let_def split: sum.splits option.splits prod.splits)
  then show ?thesis
  proof cases
    case kept
    then show ?thesis using same [of evs] by auto
  next
    case set
    from setConn_kept [OF set(1) assms(2,3) none assms(5,4)] set(2,3) show ?thesis
      by (auto simp: kept_def answered_def)
  qed
qed

subsection \<open>The life of a client\<close>

text \<open>Everything that can happen to a client, in any order: the operations of its callers, connection
  attempts, the loss of a connection, one iteration of the read loop and one round of the ping loop of
  any connection, current or not, the end of a handler goroutine, a step of a stream, a write of a
  stream, closing. A new connection has a generation other than 0 (\<open>nextConnectionGeneration\<close>).\<close>

inductive client_op :: "('v, 'c) Config_scheme \<Rightarrow> 'v Client \<Rightarrow> u64 list \<Rightarrow> event list \<Rightarrow> 'v Client \<Rightarrow> bool"
  for cfg where
  cop_sendRequest:
    "Client_sendRequest cfg cx f q p c = Return (r, c', evs) \<Longrightarrow> client_op cfg c [fst (Client_nextRequestID c)] evs c'"
| cop_sendRequestToConnection:
    "Client_sendRequestToConnection cfg cx co g f q p c = (r, c', evs) \<Longrightarrow>
     client_op cfg c [fst (Client_nextRequestID c)] evs c'"
| cop_callFrame_end: "Client_callFrame_end cfg i w c = (r', c', evs) \<Longrightarrow> client_op cfg c [] evs c'"
| cop_callFrameOnConnection_end:
    "Client_callFrameOnConnection_end cfg conn g i w c = (r', c', evs) \<Longrightarrow> client_op cfg c [] evs c'"
| cop_sendNotify: "Client_sendNotify cfg cx f q c = Return (r, c', evs) \<Longrightarrow> client_op cfg c [] evs c'"
| cop_sendNotifyToConnection:
    "Client_sendNotifyToConnection cfg cx co g f q c = (r, c', evs) \<Longrightarrow> client_op cfg c [] evs c'"
| cop_openServerStream: "Client_openServerStream cfg cx f q opts c = Return (r'', c', evs) \<Longrightarrow> client_op cfg c [] evs c'"
| cop_openClientStream:
    "Client_openClientStream cfg cx f opts ch c = Return (r'', c', evs) \<Longrightarrow>
     client_op cfg c [fst (Client_nextRequestID c)] evs c'"
| cop_openBidiStream: "Client_openBidiStream cfg cx f opts c = Return (r'', c', evs) \<Longrightarrow> client_op cfg c [] evs c'"
| cop_readLoop: "Client_readLoop_step cfg conn g now rf c = (b, c', evs) \<Longrightarrow> client_op cfg c [] evs c'"
| cop_pingLoop_send: "pingLoop_send cfg conn c = (b, c', evs) \<Longrightarrow> client_op cfg c [] evs c'"
| cop_pingLoop_check: "pingLoop_check conn start c = (b, c', evs) \<Longrightarrow> client_op cfg c [] evs c'"
| cop_runRequest: "Client_runRequest cfg conn g fr k h c = (c', evs) \<Longrightarrow> client_op cfg c [] evs c'"
| cop_runNotify: "Client_runNotify cfg conn g fr k c = (c', evs) \<Longrightarrow> client_op cfg c [] evs c'"
| cop_runServerStream:
    "Client_runServerStream cfg conn g fr k ref (out :: unit hres) c = (c', evs) \<Longrightarrow> client_op cfg c [] evs c'"
| cop_runClientStream: "Client_runClientStream cfg conn g fr k ref out' c = (c', evs) \<Longrightarrow> client_op cfg c [] evs c'"
| cop_runBidiStream:
    "Client_runBidiStream cfg conn g fr k ref (out :: unit hres) c = (c', evs) \<Longrightarrow> client_op cfg c [] evs c'"
| cop_stream: "stream_op st \<Longrightarrow> on_stream ref st c = (c', evs) \<Longrightarrow> client_op cfg c [] evs c'"
| cop_streamWrite: "write_handled (client_link cfg conn g 0) fr c = (w', c', evs) \<Longrightarrow> client_op cfg c [] evs c'"
| cop_connect: "connectOnce_begin cxt c = (ph, c') \<Longrightarrow> client_op cfg c [] [] c'"
| cop_connected:
    "cl_connecting c \<Longrightarrow> g \<noteq> 0 \<Longrightarrow> connectOnce_end ctxErr dialed g now c = (w', c', evs) \<Longrightarrow> client_op cfg c [] evs c'"
| cop_lost: "connectionLostGeneration conn g err c = (c', evs) \<Longrightarrow> client_op cfg c [] evs c'"
| cop_close: "Client_closeWithError err c = (c', evs) \<Longrightarrow> client_op cfg c [] evs c'"

inductive client_run :: "('v, 'c) Config_scheme \<Rightarrow> 'v Client \<Rightarrow> u64 list \<Rightarrow> event list \<Rightarrow> 'v Client \<Rightarrow> bool"
  for cfg where
  client_run_refl: "client_run cfg c [] [] c"
| client_run_step: "client_run cfg c is evs c' \<Longrightarrow> client_op cfg c' is' evs' c'' \<Longrightarrow>
    client_run cfg c (is @ is') (evs @ evs') c''"

abbreviation client_kept where "client_kept cfg \<equiv> kept (cf_backpressure cfg) client_ok"

lemma newID_client [simp]: "lk_newID (client_link cfg conn g t) = Client_nextRequestID"
  by (simp add: client_link_def)

lemma with_conn_kept:
  assumes "with_conn cx op c = Return (r, c', evs)" "endpoint_ok (cf_backpressure cfg) c" "client_ok c"
    and "\<And>conn. op conn c = (r, c', evs) \<Longrightarrow> client_kept cfg c is evs c'"
  shows "client_kept cfg c is evs c'"
  using assms by (auto simp: with_conn_def kept_same split: outcome.splits sum.splits)

lemma Client_sendRequest_kept:
  assumes "endpoint_ok (cf_backpressure cfg) c" "client_ok c"
  shows "Client_sendRequest cfg cx f q p c = Return (r, c', evs) \<Longrightarrow> client_kept cfg c [fst (Client_nextRequestID c)] evs c'"
    and "Client_sendRequestToConnection cfg cx co g f q p c = (r, c', evs) \<Longrightarrow>
      client_kept cfg c [fst (Client_nextRequestID c)] evs c'"
    and "Client_openClientStream cfg cx f opts ch c = Return (r', c', evs) \<Longrightarrow>
      client_kept cfg c [fst (Client_nextRequestID c)] evs c'"
  using assms client.registered_kept [OF request_send_steps, simplified newID_client]
    client.registered_kept [OF open_client_stream_steps, simplified newID_client]
  by (auto simp: Client_sendRequest_def Client_sendRequestToConnection_def Client_openClientStream_def kept_same
      split: if_splits sum.splits option.splits elim!: with_conn_kept)

lemma Client_quiet_kept:
  assumes "endpoint_ok (cf_backpressure cfg) c" "client_ok c"
  shows "Client_sendNotify cfg cx f q c = Return (r, c', evs) \<Longrightarrow> client_kept cfg c [] evs c'"
    and "Client_sendNotifyToConnection cfg cx co g f q c = (r, c', evs) \<Longrightarrow> client_kept cfg c [] evs c'"
    and "Client_openServerStream cfg cx f q opts c = Return (r', c', evs) \<Longrightarrow> client_kept cfg c [] evs c'"
    and "Client_openBidiStream cfg cx f opts c = Return (r', c', evs) \<Longrightarrow> client_kept cfg c [] evs c'"
  using assms client.quiet_kept [OF notify_send_steps] client.quiet_kept [OF open_server_stream_steps]
    client.quiet_kept [OF open_bidi_stream_steps]
  by (auto simp: Client_sendNotify_def Client_sendNotifyToConnection_def Client_openServerStream_def
      Client_openBidiStream_def kept_same split: if_splits sum.splits option.splits elim!: with_conn_kept)

lemma kept_lastFrame [simp]:
  "kept bp client_ok (c\<lparr>cl_lastFrame := now\<rparr>) is evs c' = kept bp client_ok c is evs c'"
  "endpoint_ok bp (c\<lparr>cl_lastFrame := now\<rparr>) = endpoint_ok bp c" "client_ok (c\<lparr>cl_lastFrame := now\<rparr>) = client_ok c"
  by (simp_all add: kept_def answered_def pending_def endpoint_ok_def tables_ok_def closed_ok_def streams_ok_def
      limits_ok_def client_ok_def)

lemma readLoop_step_kept:
  assumes "Client_readLoop_step cfg conn g now rf c = (b, c', evs)" "endpoint_ok (cf_backpressure cfg) c" "client_ok c"
  shows "client_kept cfg c [] evs c'"
proof (cases rf)
  case (Inl err)
  with assms show ?thesis
    by (auto simp: Client_readLoop_step_def connectionLost_def intro: connectionLost_kept split: if_splits)
next
  case (Inr f)
  show ?thesis
  proof (cases "isCurrentConnGeneration conn g c")
    case True
    with assms(1) Inr have "dispatch (client_link cfg conn 0 g) cfg f (c\<lparr>cl_lastFrame := now\<rparr>) = (b, c', evs)"
      by (simp add: Client_readLoop_step_def)
    from client.quiet_kept [OF dispatch_steps [OF this], of "[]"] assms(2,3) show ?thesis by simp
  qed (use assms Inr in \<open>simp add: Client_readLoop_step_def kept_same\<close>)
qed

lemma pingLoop_send_kept:
  assumes "pingLoop_send cfg conn c = (b, c', evs)" "endpoint_ok (cf_backpressure cfg) c" "client_ok c"
  shows "client_kept cfg c [] evs c'"
proof (cases "isCurrentConnGeneration conn 0 c")
  case True
  let ?lk = "client_link cfg conn 0 0"
  obtain i c1 where i: "Client_nextRequestID c = (i, c1)" by fastforce
  with assms(1) True obtain r where "write_handled ?lk (zeroFrame\<lparr>Type := FramePing, RequestID := i\<rparr>) c1 = (r, c', evs)"
    by (auto simp: pingLoop_send_def split: prod.splits option.splits)
  with i have "quiet ?lk (cf_backpressure cfg) c evs c'"
    by (intro quiet_silent_left [OF quiet_intros(1) write_handled_steps]) simp_all
  then show ?thesis using assms(2,3) by (rule client.quiet_kept)
qed (use assms in \<open>simp add: pingLoop_send_def kept_same\<close>)

lemma callFrame_end_kept:
  "Client_callFrame_end cfg i w c = (r, c', evs) \<Longrightarrow> endpoint_ok (cf_backpressure cfg) c \<Longrightarrow> client_ok c \<Longrightarrow>
   client_kept cfg c [] evs c'"
  unfolding Client_callFrame_end_def
  by (cases "cl_conn c") (auto intro: client.quiet_kept [OF call_wait_offline_steps]
      client.quiet_kept [OF call_wait_steps])

lemma client_op_kept:
  assumes "client_op cfg c is evs c'" "endpoint_ok (cf_backpressure cfg) c" "client_ok c"
  shows "client_kept cfg c is evs c'"
  using assms
proof (induction rule: client_op.induct)
  case (cop_pingLoop_check conn start c b c' evs)
  then show ?case
    by (auto simp: pingLoop_check_def connectionLost_def kept_same intro: connectionLost_kept split: if_splits)
qed (auto simp: Client_callFrameOnConnection_end_def Client_runRequest_def Client_runNotify_def
      Client_runServerStream_def Client_runClientStream_def Client_runBidiStream_def
    intro: Client_sendRequest_kept Client_quiet_kept callFrame_end_kept readLoop_step_kept pingLoop_send_kept
      connectOnce_begin_kept connectOnce_end_kept connectionLost_kept conjunct1 [OF Client_closeWithError_kept]
      client.quiet_kept [OF call_wait_steps] client.quiet_kept [OF runRequest_steps]
      client.quiet_kept [OF runNotify_steps] client.quiet_kept [OF runServerStream_steps]
      client.quiet_kept [OF runClientStream_steps] client.quiet_kept [OF runBidiStream_steps]
      client.quiet_kept [OF quiet_intros(11)] client.quiet_kept [OF write_handled_steps])

lemma client_run_kept:
  "client_run cfg c is evs c' \<Longrightarrow> endpoint_ok (cf_backpressure cfg) c \<Longrightarrow> client_ok c \<Longrightarrow> client_kept cfg c is evs c'"
proof (induction rule: client_run.induct)
  case (client_run_refl c)
  then show ?case by (simp add: kept_same)
next
  case (client_run_step c "is" evs c' is' evs' c'')
  from client_run_step.IH [OF client_run_step.prems] have k: "client_kept cfg c is evs c'" .
  then have "endpoint_ok (cf_backpressure cfg) c'" "client_ok c'" by (simp_all add: kept_def)
  with kept_trans [OF k] client_op_kept [OF client_run_step.hyps(2)] show ?case by blast
qed

lemma newClientState_ok: "endpoint_ok bp (newClientState cfg addrs)" "client_ok (newClientState cfg addrs)"
  by (simp_all add: newClientState_def endpoint_ok_def tables_ok_def closed_ok_def streams_ok_def limits_ok_def client_ok_def)

subsection \<open>Properties of a client\<close>

text \<open>C13. Whatever its callers, its connections, its handlers and its streams do, and in whatever
  order, across any number of connections: the channel that announces a connection is never closed
  twice and is closed exactly while there is a connection or after Close; a closed client has no
  connection and nothing pending; the tables are consistent and within the limits; and every call
  that was registered is answered at most once.\<close>

theorem client_life:
  assumes "client_run cfg (newClientState cfg addrs) is evs c"
  shows "\<not> cl_panicked c \<and> (cl_readyClosed c \<longleftrightarrow> cl_conn c \<noteq> None \<or> e_closed c) \<and>
    (e_closed c \<longrightarrow> cl_conn c = None \<and> e_pending c = [] \<and> e_streams c = [] \<and> e_requests c = []) \<and>
    tbl_ok (e_pending c) \<and> tbl_ok (e_streams c) \<and> tbl_ok (e_requests c) \<and>
    (\<forall>i ref. (i, ref) \<in> set (e_streams c) \<longrightarrow>
       (\<exists>s d. e_heap c ref = Some (s, d) \<and> s_requestID s = i \<and> \<not> s_done s)) \<and>
    (MaxPendingCalls (cf_backpressure cfg) > 0 \<longrightarrow>
       int (length (e_pending c)) \<le> MaxPendingCalls (cf_backpressure cfg)) \<and>
    (MaxActiveStreams (cf_backpressure cfg) > 0 \<longrightarrow>
       int (length (e_streams c)) \<le> MaxActiveStreams (cf_backpressure cfg)) \<and>
    (\<forall>i. delivered i evs + of_bool (pending i c) \<le> count_list is i)"
proof -
  have k: "client_kept cfg (newClientState cfg addrs) is evs c"
    using assms newClientState_ok by (rule client_run_kept)
  have "\<not> pending i (newClientState cfg addrs)" for i by (simp add: pending_def newClientState_def)
  with k have "\<forall>i. delivered i evs + of_bool (pending i c) \<le> count_list is i" by (simp add: kept_def answered_def)
  moreover have "\<not> cl_panicked c" "cl_readyClosed c \<longleftrightarrow> cl_conn c \<noteq> None \<or> e_closed c"
    "e_closed c \<longrightarrow> cl_conn c = None" using k unfolding kept_def client_ok_def by blast+
  moreover from k have "endpoint_ok (cf_backpressure cfg) c" by (simp add: kept_def)
  ultimately show ?thesis
    by (simp add: endpoint_ok_def tables_ok_def closed_ok_def streams_ok_def limits_ok_def)
qed

lemma lost_error_unavailable [simp]: "errors_Is (lost_error err) ErrUnavailable"
  by (simp add: lost_error_def Let_def Errorf_suffix_def)

text \<open>C15. Losing the current connection: the client has no connection and waits for the next one, the
  reconnect loop has been signalled, the socket is closed; every stream in the table has ended and
  every pending call that does not belong to a stream is answered with an error that is
  ErrUnavailable, whatever the cause; every request context is cancelled; nothing is left for the
  next connection; and a second report of the same loss does nothing.\<close>

theorem connection_lost_fails_everything:
  assumes "client_run cfg (newClientState cfg addrs) is evs0 c"
    and "isCurrentConnGeneration conn g c" "connectionLostGeneration conn g err c = (c', evs)"
  shows "cl_conn c' = None \<and> \<not> cl_readyClosed c' \<and> cl_reconnectCh c' \<and> \<not> e_closed c' \<and>
    e_pending c' = [] \<and> e_streams c' = [] \<and> e_requests c' = [] \<and> EvNetClose \<in> set evs \<and>
    (\<forall>i k. (i, k) \<in> set (e_requests c) \<longrightarrow> EvCancelCtx k \<in> set evs) \<and>
    (\<exists>err'. errors_Is err' ErrUnavailable \<and>
      (\<forall>i ref. (i, ref) \<in> set (e_streams c) \<longrightarrow>
         (\<exists>s d s'. e_heap c ref = Some (s, d) \<and> e_heap c' ref = Some (s', d) \<and> failed_with err' s s')) \<and>
      (\<forall>i p. (i, p) \<in> set (e_pending c) \<and> \<not> stream_owned i c \<longrightarrow>
         EvDeliver i p \<lparr>cr_frame = zeroFrame, cr_err = Some err'\<rparr> \<in> set evs)) \<and>
    (\<forall>err'. connectionLostGeneration conn g err' c' = (c', []))"
proof -
  let ?c = "c\<lparr>cl_conn := None, cl_generation := 0, cl_readyClosed := False, cl_flowControl := False\<rparr>"
  let ?err = "lost_error err"
  from client_run_kept [OF assms(1) newClientState_ok] have ok: "tables_ok (cf_backpressure cfg) c" and cok: "client_ok c"
    by (simp_all add: kept_def endpoint_ok_def)
  have open_c: "\<not> e_closed c" using assms(2) cok by (auto simp: client_ok_def isCurrentConnGeneration_def)
  obtain c1 ev where f: "fail_all ?err ?c = (c1, ev)" by fastforce
  with assms(2,3) have c': "c' = signalReconnect c1" "evs = EvNetClose # ev" by (simp_all add: connectionLost_fail_all)
  from ok have "tables_ok (cf_backpressure cfg) ?c" by (simp add: client_fields_ok)
  note fa = fail_all_step [OF f this]
  have ext: "cl_conn c1 = None" "\<not> cl_readyClosed c1" using fa(3) by (cases c1; cases c; simp)+
  have streams: "\<exists>s d s'. e_heap c ref = Some (s, d) \<and> e_heap c' ref = Some (s', d) \<and> failed_with ?err s s'"
    if r: "(i, ref) \<in> set (e_streams c)" for i ref
  proof -
    from ok r obtain s d where h: "e_heap c ref = Some (s, d)" unfolding tables_ok_def streams_ok_def by blast
    from r have "ref \<in> snd ` set (e_streams c)" by force
    with fa(9) [of ref s d] h show ?thesis by (auto simp: c' signalReconnect_def)
  qed
  have "stream_owned i ?c = stream_owned i c" for i by (simp add: stream_owned_def)
  with fail_all_answers [OF f] have answers: "EvDeliver i p \<lparr>cr_frame = zeroFrame, cr_err = Some ?err\<rparr> \<in> set evs"
    if "(i, p) \<in> set (e_pending c)" "\<not> stream_owned i c" for i p using that by (simp add: c')
  have ctxs: "EvCancelCtx k \<in> set evs" if "(i, k) \<in> set (e_requests c)" for i k
    using fa(10) [of i k] that by (simp add: c')
  have "connectionLostGeneration conn g err' c' = (c', [])" for err'
    using ext by (simp add: connectionLost_fail_all c' signalReconnect_def isCurrentConnGeneration_def)
  with ext streams answers ctxs fa(4,6-8) open_c show ?thesis
    by (auto simp: c' signalReconnect_def intro!: exI [of _ ?err])
qed

subsection \<open>What a lost connection leaves running\<close>

text \<open>A stream that is no longer in the table and is not the stream of an outbound client stream. Every inbound stream
  of a lost connection is one: its loss empties the table.\<close>

definition orphan :: "nat \<Rightarrow> ('v, 'm) Endpoint_scheme \<Rightarrow> bool" where
  "orphan ref e \<longleftrightarrow> ref \<notin> snd ` set (e_streams e) \<and> (\<forall>s d. e_heap e ref = Some (s, d) \<longrightarrow> \<not> d)"

text \<open>An operation that changes at most stream \<open>ref\<close>, cancels at most context \<open>k\<close>, and otherwise only has this
  stream write.\<close>

definition only_stream :: "nat \<Rightarrow> nat \<Rightarrow> ('v, 'm) Endpoint_scheme \<Rightarrow> ('v, 'm) Endpoint_scheme \<times> event list \<Rightarrow> bool" where
  "only_stream ref k e r \<longleftrightarrow>
     (\<exists>h. fst r = e\<lparr>e_heap := h\<rparr> \<and> (\<forall>j. j \<noteq> ref \<longrightarrow> h j = e_heap e j) \<and>
        map_option snd (h ref) = map_option snd (e_heap e ref)) \<and>
     set (snd r) \<subseteq> {EvCancelCtx k} \<union> range (EvSpawnWrite ref) \<union> range (EvStreamWrite ref)"

lemma only_stream_same: "only_stream ref k e (e, [])" "only_stream ref k e (e, [EvCancelCtx k])"
  unfolding only_stream_def by (auto intro!: exI [of _ "e_heap e"])

lemma only_stream_trans:
  assumes "only_stream ref k e (e', evs)" "only_stream ref k e' (e'', evs')"
  shows "only_stream ref k e (e'', evs @ evs')"
  using assms unfolding only_stream_def by auto

lemma only_stream_put: "only_stream ref k e (put_stream ref s e, [])"
proof (cases "e_heap e ref")
  case None
  then show ?thesis by (simp add: put_stream_def only_stream_same)
next
  case (Some x)
  then show ?thesis
    by (cases x) (auto simp: put_stream_def only_stream_def intro!: exI [of _ "(e_heap e)(ref \<mapsto> (s, snd x))"])
qed

lemma only_stream_orphan: "only_stream ref k e (e', evs) \<Longrightarrow> orphan ref e \<Longrightarrow> orphan ref e'"
  by (cases "e_heap e ref"; cases "e_heap e' ref") (auto simp: only_stream_def orphan_def)

lemma only_stream_conn: "only_stream ref k c (c', evs) \<Longrightarrow> cl_conn c' = cl_conn c" for c :: "'v Client"
  by (auto simp: only_stream_def)

lemma on_done_orphan:
  assumes "orphan ref e"
  shows "on_done ref e = e"
proof -
  have "map_of (e_streams e) i \<noteq> Some ref" for i using assms by (force simp: orphan_def dest: map_of_SomeD)
  with assms show ?thesis by (auto simp: orphan_def on_done_def removeStream_def split: option.split)
qed

lemma run_effects_orphan:
  assumes "run_effects ref es e = (e', evs)" "orphan ref e"
  shows "only_stream ref k e (e', evs)"
proof -
  have "e' = e \<and> set evs \<subseteq> range (EvSpawnWrite ref) \<union> range (EvStreamWrite ref)"
    using assms
    by (induction ref es e arbitrary: e' evs rule: run_effects.induct) (auto simp: on_done_orphan split: prod.splits)
  with only_stream_same(1) [of ref k e] show ?thesis by (auto simp: only_stream_def)
qed

lemma on_stream_orphan:
  assumes "orphan ref e"
  shows "only_stream ref k e (on_stream ref g e)"
proof (cases "the_stream ref e")
  case None
  then show ?thesis by (simp add: on_stream_def only_stream_same)
next
  case (Some s)
  obtain s' es where g: "g s = (s', es)" by fastforce
  obtain e' evs where r: "run_effects ref es (put_stream ref s' e) = (e', evs)" by fastforce
  have "orphan ref (put_stream ref s' e)" using only_stream_put assms by (rule only_stream_orphan)
  from only_stream_trans [OF only_stream_put run_effects_orphan [OF r this]] Some g r show ?thesis
    by (simp add: on_stream_def)
qed

lemma on_stream_orphanD: "on_stream ref g e = (e', evs) \<Longrightarrow> orphan ref e \<Longrightarrow> only_stream ref k e (e', evs)"
  using on_stream_orphan [of ref e k g] by simp

lemma stale_write:
  assumes "cl_conn c \<noteq> Some conn"
  shows "write_handled (client_link cfg conn w t) f c = (Some (if e_closed c then closedError c else Sentinel ErrUnavailable), c, [])"
  using assms
  by (simp add: write_handled_def client_link_def writeToConnection_def handleWriteErrorGeneration_def
      connectionLost_fail_all isCurrentConnGeneration_def)

lemma stale_reject:
  assumes "cl_conn c \<noteq> Some conn"
  shows "rejectWith (client_link cfg conn w t) codec q x y c = (c, [])" "failWith (client_link cfg conn w t) codec q er c = (c, [])"
    "reply (client_link cfg conn w t) codec q p c = (c, [])"
proof -
  have e: "\<exists>r. writeError (client_link cfg conn w t) codec q re c = (r, c, [])" for re
    by (auto simp: writeError_def stale_write [OF assms] split: sum.splits)
  from e [of "NewRemoteError x y []"] show "rejectWith (client_link cfg conn w t) codec q x y c = (c, [])"
    by (auto simp: rejectWith_def)
  have f: "failWith (client_link cfg conn w t) codec q er c = (c, [])" for er
    using e [of "remoteErrorFromError (Some er)"] by (auto simp: failWith_def)
  then show "failWith (client_link cfg conn w t) codec q er c = (c, [])" .
  show "reply (client_link cfg conn w t) codec q p c = (c, [])" by (simp add: reply_def stale_write [OF assms] f)
qed

lemma stale_end_handler:
  "cl_conn c \<noteq> Some conn \<Longrightarrow> end_handler (client_link cfg conn w t) fr k (c, evs) = (c, evs @ [EvCancelCtx k])"
  by (simp add: end_handler_def client_link_def Client_untrackRequest_def)

lemma stale_end_stream_handler:
  assumes "cl_conn c \<noteq> Some conn" "orphan ref c" "only_stream ref k c r"
  shows "only_stream ref k c (end_stream_handler (client_link cfg conn w t) fr k ref r)"
proof -
  obtain c1 evs1 where r: "r = (c1, evs1)" by fastforce
  obtain c2 evs2 where f: "finish_stream ref (Sentinel ErrClosed) c1 = (c2, evs2)" by fastforce
  have o: "orphan ref c1" using only_stream_orphan assms(2,3) r by blast
  have "only_stream ref k c1 (c2, evs2)" using on_stream_orphanD f o unfolding finish_stream_def .
  from only_stream_trans [OF assms(3) [unfolded r] this] have t: "only_stream ref k c (c2, evs1 @ evs2)" .
  then have c2: "cl_conn c2 \<noteq> Some conn" using only_stream_conn assms(1) by fastforce
  from only_stream_trans [OF t only_stream_same(2)] show ?thesis
    by (simp add: end_stream_handler_def r f stale_end_handler [OF c2])
qed

lemma stale_close_send:
  assumes "cl_conn c \<noteq> Some conn" "orphan ref c"
  shows "only_stream ref k c (close_send (client_link cfg conn w t) ref c)"
proof -
  have on: "only_stream ref k c (on_stream ref g (put_stream ref s c))" for g s
  proof -
    obtain c' evs where r: "on_stream ref g (put_stream ref s c) = (c', evs)" by fastforce
    from only_stream_trans [OF only_stream_put on_stream_orphanD [OF r only_stream_orphan [OF only_stream_put assms(2)]]] r
    show ?thesis by simp
  qed
  have "cl_conn (put_stream ref s c) \<noteq> Some conn" for s using only_stream_conn [OF only_stream_put] assms(1) by metis
  note w = stale_write [OF this]
  show ?thesis by (simp add: close_send_def Let_def w only_stream_same on split: option.split)
qed

lemma stale_grant:
  "cl_conn c \<noteq> Some conn \<Longrightarrow> \<exists>r. grant_initial (client_link cfg conn w t) ref c = (r, c, [])"
  by (simp add: grant_initial_def stale_write split: option.splits)

lemma stale_finish: "orphan ref c \<Longrightarrow> only_stream ref k c (finish_stream ref err c)"
  unfolding finish_stream_def by (rule on_stream_orphan)

lemma stale_stream_handlers:
  assumes "cl_conn c \<noteq> Some conn" "orphan ref c"
  shows "only_stream ref k c (Client_runServerStream cfg conn t fr k ref out c)"
    "only_stream ref k c (Client_runClientStream cfg conn t fr k ref out' c)"
    "only_stream ref k c (Client_runBidiStream cfg conn t fr k ref out c)"
proof -
  note f = stale_finish [OF assms(2)] and cs = stale_close_send [OF assms] and rj = stale_reject [OF assms(1)]
  obtain r where g: "grant_initial (client_link cfg conn 0 t) ref c = (r, c, [])" using stale_grant [OF assms(1)] by metis
  show "only_stream ref k c (Client_runServerStream cfg conn t fr k ref out c)"
    unfolding Client_runServerStream_def runServerStream_def
    by (intro stale_end_stream_handler [OF assms]) (simp add: rj cs f only_stream_same split: hres.split prod.split)
  show "only_stream ref k c (Client_runClientStream cfg conn t fr k ref out' c)"
    unfolding Client_runClientStream_def runClientStream_def
    by (intro stale_end_stream_handler [OF assms]) (simp add: g rj cs f only_stream_same split: hres.split option.split)
  show "only_stream ref k c (Client_runBidiStream cfg conn t fr k ref out c)"
    unfolding Client_runBidiStream_def runBidiStream_def
    by (intro stale_end_stream_handler [OF assms]) (simp add: g rj cs f only_stream_same split: hres.split option.split)
qed


subsection \<open>Witnesses\<close>

text \<open>A client that connected, sent a call and lost its connection.\<close>

definition sampleClient :: "bytes Client" where
  "sampleClient = newClientState sampleConfig (\<lambda>_. ([], []))"

definition sampleDialing :: "bytes Client" where
  "sampleDialing = snd (connectOnce_begin backgroundContext sampleClient)"

definition sampleConnected :: "bytes Client" where
  "sampleConnected = fst (snd (connectOnce_end None (Inr (1, emptyWriter, Inr True)) 1 0 sampleDialing))"

definition sampleRequest :: "u64 res \<times> bytes Client \<times> event list" where
  "sampleRequest = Client_sendRequestToConnection sampleConfig None (Some 1) 1 ''echo'' [7] (SyncPending 3) sampleConnected"

lemma sampleConnected_fields [simp]:
  "cl_conn sampleConnected = Some 1" "cl_generation sampleConnected = 1" "\<not> e_closed sampleConnected"
  "cl_connecting sampleDialing"
  by (simp_all add: sampleConnected_def sampleDialing_def sampleClient_def newClientState_def connectOnce_begin_def
      connectOnce_end_def setConn_def backgroundContext_def)

lemma sampleConnected_run: "client_run sampleConfig sampleClient [] [] sampleConnected"
proof -
  have b: "client_op sampleConfig sampleClient [] [] sampleDialing"
    by (rule cop_connect [of backgroundContext _ "fst (connectOnce_begin backgroundContext sampleClient)"])
      (simp add: sampleDialing_def)
  let ?e = "connectOnce_end None (Inr (1, emptyWriter, Inr True)) 1 0 sampleDialing"
  have "snd (snd ?e) = []"
    by (simp add: connectOnce_end_def sampleDialing_def sampleClient_def newClientState_def connectOnce_begin_def
        setConn_def backgroundContext_def)
  then have "client_op sampleConfig sampleDialing [] [] sampleConnected"
    by (intro cop_connected [of _ 1 None "Inr (1, emptyWriter, Inr True)" 0 "fst ?e"])
      (simp_all add: sampleConnected_def prod_eq_iff)
  from client_run_step [OF client_run_step [OF client_run_refl b] this] show ?thesis by simp
qed

lemma sampleRequest_run: "client_run sampleConfig sampleClient [1] (snd (snd sampleRequest)) (fst (snd sampleRequest))"
proof -
  have "client_op sampleConfig sampleConnected [fst (Client_nextRequestID sampleConnected)] (snd (snd sampleRequest))
      (fst (snd sampleRequest))"
    by (rule cop_sendRequestToConnection [of _ None "Some 1" 1 "''echo''" "[7]" "SyncPending 3" _ "fst sampleRequest"])
      (simp add: sampleRequest_def)
  from client_run_step [OF sampleConnected_run this] show ?thesis
    by (simp add: Client_nextRequestID_def sampleConnected_def sampleDialing_def sampleClient_def newClientState_def
        connectOnce_begin_def connectOnce_end_def setConn_def backgroundContext_def)
qed

lemma sampleRequest_evaluated:
  "e_pending (fst (snd sampleRequest)) = [(1, SyncPending 3)] \<and> e_streams (fst (snd sampleRequest)) = [] \<and>
   isCurrentConnGeneration 1 1 (fst (snd sampleRequest))"
  by code_simp

theorem client_life_witness:
  "cl_readyClosed (fst (snd sampleRequest)) \<and> \<not> cl_panicked (fst (snd sampleRequest)) \<and> pending 1 (fst (snd sampleRequest)) \<and>
   delivered 1 (snd (snd sampleRequest)) = 0"
proof -
  note l = client_life [OF sampleRequest_run [unfolded sampleClient_def]]
  have p: "pending 1 (fst (snd sampleRequest))" using sampleRequest_evaluated by (simp add: pending_def)
  have "delivered 1 (snd (snd sampleRequest)) + of_bool (pending 1 (fst (snd sampleRequest))) \<le> count_list [1] (1 :: u64)"
    using l by blast
  with p have "delivered 1 (snd (snd sampleRequest)) = 0" by simp
  with l p sampleRequest_evaluated show ?thesis by (simp add: isCurrentConnGeneration_def)
qed

theorem connection_lost_fails_everything_witness:
  "\<exists>err'. errors_Is err' ErrUnavailable \<and>
     EvDeliver 1 (SyncPending 3) \<lparr>cr_frame = zeroFrame, cr_err = Some err'\<rparr>
       \<in> set (snd (connectionLostGeneration 1 1 (Some (Sentinel IoEOF)) (fst (snd sampleRequest)))) \<and>
     cl_reconnectCh (fst (connectionLostGeneration 1 1 (Some (Sentinel IoEOF)) (fst (snd sampleRequest))))"
proof -
  let ?l = "connectionLostGeneration 1 1 (Some (Sentinel IoEOF)) (fst (snd sampleRequest))"
  have cur: "isCurrentConnGeneration 1 1 (fst (snd sampleRequest))" using sampleRequest_evaluated by simp
  note l = connection_lost_fails_everything [OF sampleRequest_run [unfolded sampleClient_def] cur prod.collapse [symmetric],
      of "Some (Sentinel IoEOF)"]
  have "\<not> stream_owned 1 (fst (snd sampleRequest))" using sampleRequest_evaluated by (simp add: stream_owned_def)
  with l sampleRequest_evaluated show ?thesis by fastforce
qed


end
