(* ===== verification/End_To_End.thy ===== *)
theory End_To_End
  imports Server_Conn Client_Conn
begin

text \<open>
  A unary call from end to end: the client sends, the bytes it wrote are what the accepted
  connection reads, the handler runs, the bytes of the reply are what the client reads, and the
  call returns. \<open>exchange\<close> composes the operations of the two sides in that order; it is
  \<open>None\<close> if any step does not happen.
\<close>

definition sent :: "Writer \<Rightarrow> Writer \<Rightarrow> Reader" where
  "sent w w' = \<lparr>r_data = drop (length (w_out w)) (w_out w'), r_end = Sentinel IoEOF\<rparr>"

definition exchange ::
  "('v, 'a) Config_scheme \<Rightarrow> ('v, 'b) Config_scheme \<Rightarrow> ctx option \<Rightarrow> string \<Rightarrow> 'v \<Rightarrow> nat \<Rightarrow> int \<Rightarrow>
   'v Client \<Rightarrow> 'v Conn \<Rightarrow> ('v res \<times> 'v Client \<times> 'v Conn) option" where
  "exchange cfg server cx f req ch now c sc =
     (case Client_callFrame_begin cfg cx f req ch c of
        Return (Inr i, c1, _) \<Rightarrow>
          (case readFrameWithCompression (cf_mc server) (cf_lib server) (sent (e_writer c) (e_writer c1))
                  (cf_maxFrameSize server) (Some (reg_codec server)) (e_compressor sc) of
             (Inr q, _) \<Rightarrow>
               (case (handlers server (Function q), Conn_dispatch server q sc) of
                  (Some h, True, sc1, [EvSpawn (JobUnary q' k)]) \<Rightarrow>
                    (case Conn_runRequest server q' k h sc1 of
                       (sc2, _) \<Rightarrow>
                         (case readFrameWithCompression (cf_mc cfg) (cf_lib cfg) (sent (e_writer sc) (e_writer sc2))
                                 (cf_maxFrameSize cfg) (Some (reg_codec cfg)) (e_compressor c1) of
                            (Inr a, _) \<Rightarrow>
                              (case Client_readLoop_step cfg (the (cl_conn c)) (cl_generation c) now (Inr a) c1 of
                                 (True, c2, [EvDeliver j p resp]) \<Rightarrow>
                                   (case Client_CallContext_end cfg i (WakeResponse resp) c2 of
                                      (r, c3, _) \<Rightarrow> if j = i \<and> p = SyncPending ch then Some (r, c3, sc2) else None)
                               | _ \<Rightarrow> None)
                          | _ \<Rightarrow> None))
                | _ \<Rightarrow> None)
           | _ \<Rightarrow> None)
      | _ \<Rightarrow> None)"

lemma map_sum_Inr:
  assumes "map_sum id g x = Inr y"
  obtains d where "x = Inr d" "y = g d"
  using assms by (cases x) auto

subsection \<open>When a write succeeds\<close>

definition can_send :: "('v, 'c) Config_scheme \<Rightarrow> ('v, 'm) Endpoint_scheme \<Rightarrow> bool" where
  "can_send cfg e \<longleftrightarrow>
     \<not> e_closed e \<and> fst (wl_acquire (e_limiter e)) \<and> (cf_writeTimeout cfg > 0 \<longrightarrow> e_deadlineErr e = None) \<and>
     w_script (e_writer e) = []"

definition encode_with :: "('v, 'c) Config_scheme \<Rightarrow> ('v, 'm) Endpoint_scheme \<Rightarrow> Frame \<Rightarrow> bytes res" where
  "encode_with cfg e f =
     encodeFrame (cf_mc cfg) (cf_lib cfg) (cf_maxFrameSize cfg) (Some (reg_codec cfg)) (e_compressor e) f"

definition put_out :: "bytes \<Rightarrow> Writer \<Rightarrow> Writer" where
  "put_out data w = w\<lparr>w_out := w_out w @ framed data\<rparr>"

lemma put_out_simps [simp]: "w_out (put_out data w) = w_out w @ framed data" "w_script (put_out data w) = w_script w"
  by (simp_all add: put_out_def)

lemma writeParts_reliable: "w_script w = [] \<Longrightarrow> writeParts w data = (None, put_out data w)"
  by (simp add: writeParts_def io_Write_def framed_def Let_def put_out_def)

lemma write_reliable:
  "w_script w = [] \<Longrightarrow> encodeFrame mc lib m codec cz f = Inr data \<Longrightarrow>
   writeFrameWithCompression mc lib w m codec cz f = (None, put_out data w)"
  by (simp add: writeFrameWithCompression_def writeParts_reliable)

lemma limiter_released:
  "fst (wl_acquire (e_limiter e)) \<Longrightarrow> wl_release (snd (wl_acquire (e_limiter e))) = e_limiter e"
  using wl_acquire_release [of "e_limiter e" "snd (wl_acquire (e_limiter e))"] by (metis prod.collapse)

lemma limiter_same: "e\<lparr>e_limiter := a, e_writer := w, e_limiter := e_limiter e\<rparr> = e\<lparr>e_writer := w\<rparr>"
  by (cases e) simp

lemma Conn_write_sends:
  assumes "can_send server c" "encode_with server c f = Inr data"
  shows "Conn_write server f c = (None, c\<lparr>e_writer := put_out data (e_writer c)\<rparr>, [])"
proof -
  have w: "writeFrameWithCompression (cf_mc server) (cf_lib server) (e_writer c) (cf_maxFrameSize server)
      (Some (reg_codec server)) (e_compressor c) f = (None, put_out data (e_writer c))"
    using assms by (intro write_reliable) (simp_all add: can_send_def encode_with_def)
  show ?thesis
    using assms(1) limiter_released [of c] w limiter_same [of c]
    by (auto simp: can_send_def Conn_write_def Let_def)
qed

lemma writeToConnection_sends:
  assumes "can_send cfg c" "encode_with cfg c f = Inr data" "isCurrentConnGeneration conn g c"
  shows "writeToConnection cfg conn g f c = (None, c\<lparr>e_writer := put_out data (e_writer c)\<rparr>, [])"
proof -
  have w: "writeFrameWithCompression (cf_mc cfg) (cf_lib cfg) (e_writer c) (cf_maxFrameSize cfg)
      (Some (reg_codec cfg)) (e_compressor c) f = (None, put_out data (e_writer c))"
    using assms by (intro write_reliable) (simp_all add: can_send_def encode_with_def)
  show ?thesis
    using assms(1,3) limiter_released [of c] w limiter_same [of c]
    by (auto simp: can_send_def writeToConnection_def Let_def)
qed

subsection \<open>The frames of a call\<close>

definition request_frame :: "ctx option \<Rightarrow> u64 \<Rightarrow> string \<Rightarrow> bytes \<Rightarrow> Frame" where
  "request_frame cx i f payload =
     with_deadline (normalizeContext cx) (zeroFrame\<lparr>Type := FrameRequest, RequestID := i, Function := f, Payload := payload\<rparr>)"

text \<open>The reply to the outcome of the handler: the encoded value, the error or the panic.\<close>

definition answer_frame :: "'v Codec \<Rightarrow> u64 \<Rightarrow> string \<Rightarrow> bytes hres \<Rightarrow> Frame res" where
  "answer_frame codec i f out =
     (let frame = (\<lambda>t p. zeroFrame\<lparr>Type := t, RequestID := i, Function := f, Payload := p\<rparr>) in
      case out of
        HVal p \<Rightarrow> Inr (frame FrameResponse p)
      | HErr e \<Rightarrow> map_sum id (frame FrameError) (MarshalRemoteError codec (remoteErrorFromError (Some e)))
      | HPanic t \<Rightarrow> map_sum id (frame FrameError)
          (MarshalRemoteError codec (NewRemoteError ErrorCodeInternal (''handler panic: '' @ t) [])))"

text \<open>What the caller gets for the outcome of the function.\<close>

definition call_result :: "'v hres \<Rightarrow> 'v res" where
  "call_result out =
     (case out of
        HVal v \<Rightarrow> Inr v
      | HErr e \<Rightarrow> Inl (RemoteErr (Some (remoteErrorFromError (Some e))))
      | HPanic t \<Rightarrow> Inl (RemoteErr (Some (NewRemoteError ErrorCodeInternal (''handler panic: '' @ t) []))))"

lemma request_frame_simps [simp]:
  "Type (request_frame cx i f p) = FrameRequest" "RequestID (request_frame cx i f p) = i"
  "Function (request_frame cx i f p) = f" "Payload (request_frame cx i f p) = p"
  "Compression (request_frame cx i f p) = []"
  by (simp_all add: request_frame_def with_deadline_def zeroFrame_def split: option.splits)

lemma other_kind_roundtrip: "StreamKind_of_byte (StreamKind_byte (StreamKindOther 0)) = StreamKindOther 0"
  by code_simp

lemma plain_frame_valid:
  "t = FrameRequest \<or> t = FrameResponse \<or> t = FrameError \<Longrightarrow>
   Frame_valid (zeroFrame\<lparr>Type := t, RequestID := i, Function := f, Payload := p\<rparr>)"
  unfolding Frame_valid_def zeroFrame_def
  by (auto simp: other_kind_roundtrip MaxInt64_def intro!: FrameType_of_byte_byte [simplified])

lemma answer_frame_simps:
  assumes "answer_frame codec i f out = Inr a"
  shows "Type a = FrameResponse \<or> Type a = FrameError" "RequestID a = i" "Function a = f" "Compression a = []"
    "Frame_valid a"
proof -
  obtain t p where a: "a = zeroFrame\<lparr>Type := t, RequestID := i, Function := f, Payload := p\<rparr>"
    "t = FrameResponse \<or> t = FrameError"
    using assms by (auto simp: answer_frame_def Let_def split: hres.splits elim!: map_sum_Inr)
  then show "Type a = FrameResponse \<or> Type a = FrameError" "RequestID a = i" "Function a = f" "Compression a = []"
    by (auto simp: zeroFrame_def)
  from a show "Frame_valid a" using plain_frame_valid by blast
qed

subsection \<open>The four phases\<close>

lemma call_sends:
  assumes "can_send cfg c" "cl_conn c = Some conn" "ctx_err (normalizeContext cx) = None" "f \<noteq> []"
    and "MarshalValue (reg_codec cfg) req = Inr p"
    and "MaxPendingCalls (cf_backpressure cfg) > 0 \<longrightarrow> int (length (e_pending c)) < MaxPendingCalls (cf_backpressure cfg)"
    and "encode_with cfg c (request_frame cx (e_nextID c + 1) f p) = Inr d"
  shows "Client_callFrame_begin cfg cx f req ch c =
    Return (Inr (e_nextID c + 1),
      c\<lparr>e_nextID := e_nextID c + 2, e_pending := tbl_put (e_nextID c + 1) (SyncPending ch) (e_pending c),
        e_writer := put_out d (e_writer c)\<rparr>, [])"
proof -
  let ?i = "e_nextID c + 1"
  let ?c = "c\<lparr>e_nextID := e_nextID c + 2, e_pending := tbl_put ?i (SyncPending ch) (e_pending c)\<rparr>"
  have i: "e_nextID c + 2 - 1 = ?i" by simp
  have nn: "normalizeContext (Some (normalizeContext cx)) = normalizeContext cx" by (simp add: normalizeContext_def)
  have "writeToConnection cfg conn 0 (request_frame cx ?i f p) ?c = (None, ?c\<lparr>e_writer := put_out d (e_writer ?c)\<rparr>, [])"
    using assms(1,2,7)
    by (intro writeToConnection_sends) (simp_all add: can_send_def encode_with_def isCurrentConnGeneration_def)
  moreover have "addPending (lk_side (client_link cfg conn 0 0)) (cf_backpressure cfg) ?i (SyncPending ch)
      (c\<lparr>e_nextID := e_nextID c + 2\<rparr>) = (None, ?c, [])"
    using assms(1,6) by (auto simp: addPending_def can_send_def)
  ultimately show ?thesis
    using assms(1-5)
    by (simp add: Client_callFrame_begin_def Client_sendRequest_def nn with_conn_def waitConn_def can_send_def
        request_send_def Client_nextRequestID_def request_frame_def [symmetric] i Let_def)
      (simp add: client_link_def)
qed

lemma dispatch_starts:
  assumes "\<not> e_closed sc" "Type q = FrameRequest" "RequestID q \<noteq> 0" "Function q \<noteq> []" "handlers server (Function q) = Some h"
  shows "Conn_dispatch server q sc =
    (True, sc\<lparr>e_nextCtx := Suc (e_nextCtx sc), e_requests := tbl_put (RequestID q) (e_nextCtx sc) (e_requests sc)\<rparr>,
     [EvSpawn (JobUnary q (e_nextCtx sc))])"
  using assms
  by (simp add: Conn_dispatch_def dispatch_def startRequest_def new_ctx_def Let_def)
    (simp add: conn_link_def Conn_trackRequest_def)

lemma runRequest_answers:
  assumes "can_send server sc" "cf_unaryInterceptor server = None"
    and "h (rpcContext (conn_link server) q False False (StreamKindOther 0) sc) (Payload q) = out"
    and "answer_frame (reg_codec server) (RequestID q) (Function q) out = Inr a" "encode_with server sc a = Inr d"
  shows "Conn_runRequest server q k h sc =
    (sc\<lparr>e_writer := put_out d (e_writer sc), e_requests := tbl_del (RequestID q) (e_requests sc)\<rparr>, [EvCancelCtx k])"
proof -
  have w: "write_handled (conn_link server) a sc = (None, sc\<lparr>e_writer := put_out d (e_writer sc)\<rparr>, [])"
    using Conn_write_sends [OF assms(1,5)] by (simp add: write_handled_def conn_link_def)
  have iv: "invokeUnary (rpcContext (conn_link server) q False False (StreamKindOther 0) sc) (Payload q) h
      (cf_unaryInterceptor server) = out"
    using assms(2,3) by (simp add: invokeUnary_def)
  have "(case out of
          HPanic t \<Rightarrow> rejectWith (conn_link server) (reg_codec server) q ErrorCodeInternal (''handler panic: '' @ t) sc
        | HErr err \<Rightarrow> failWith (conn_link server) (reg_codec server) q err sc
        | HVal payload \<Rightarrow> reply (conn_link server) (reg_codec server) q payload sc) =
      (sc\<lparr>e_writer := put_out d (e_writer sc)\<rparr>, [])"
    using assms(4) w
    by (auto simp: answer_frame_def Let_def rejectWith_def failWith_def reply_def writeError_def
        split: hres.splits sum.splits elim!: map_sum_Inr)
  then show ?thesis
    by (simp add: Conn_runRequest_def runRequest_def iv end_handler_def) (simp add: conn_link_def Conn_untrackRequest_def)
qed

lemma readLoop_completes:
  assumes "isCurrentConnGeneration conn g c" "Type a = FrameResponse \<or> Type a = FrameError"
    and "map_of (e_pending c) (RequestID a) = Some p" "map_of (e_streams c) (RequestID a) = None"
  shows "Client_readLoop_step cfg conn g now (Inr a) c =
    (True, c\<lparr>cl_lastFrame := now, e_pending := tbl_del (RequestID a) (e_pending c)\<rparr>,
     [EvDeliver (RequestID a) p \<lparr>cr_frame = a, cr_err = None\<rparr>])"
  using assms
  by (auto simp: Client_readLoop_step_def dispatch_def findStream_def complete_def deliverPending_def
      deliverStreamFrame_def)

lemma answer_decodes:
  assumes law: "codec_lawful codec" and req: "UnmarshalValue codec p = Inr req"
    and val: "\<forall>v. fn ctx req = HVal v \<longrightarrow> (\<exists>d. MarshalValue codec v = Inr d \<and> UnmarshalValue codec d = Inr v)"
    and ans: "answer_frame codec i f (wrapHandler codec fn ctx p) = Inr a"
  shows "decodeResponse codec (a\<lparr>Version := n\<rparr>) = call_result (fn ctx req)"
proof (cases "fn ctx req")
  case (HVal v)
  with val obtain d where "MarshalValue codec v = Inr d" "UnmarshalValue codec d = Inr v" by blast
  with ans req HVal show ?thesis
    by (auto simp: wrapHandler_def answer_frame_def decodeResponse_def call_result_def)
next
  case (HErr e)
  with ans req codec_lawfulD(6) [OF law] show ?thesis
    by (auto simp: wrapHandler_def answer_frame_def decodeResponse_def call_result_def elim!: map_sum_Inr)
next
  case (HPanic t)
  with ans req codec_lawfulD(6) [OF law] show ?thesis
    by (auto simp: wrapHandler_def answer_frame_def decodeResponse_def call_result_def elim!: map_sum_Inr)
qed

lemma read_sent:
  assumes "codec_lawful (reg_codec cfg)" "normalizeCompressor cz = cz" "\<forall>z. cz = Some z \<longrightarrow> compressor_lawful z"
    and "Frame_valid f" "Compression f = []"
    and "encodeFrame (cf_mc cfg) (cf_lib cfg) (cf_maxFrameSize cfg) (Some (reg_codec cfg)) cz f = Inr data"
  shows "readFrameWithCompression (cf_mc cfg) (cf_lib cfg) (sent w (put_out data w)) (cf_maxFrameSize cfg)
     (Some (reg_codec cfg)) cz = (Inr (f\<lparr>Version := ProtocolVersion\<rparr>), \<lparr>r_data = [], r_end = Sentinel IoEOF\<rparr>)"
  using read_written [OF _ assms(2,3,4) _ assms(6), of "sent w (put_out data w)" "[]"] assms(1,5)
  by (simp add: sent_def defaultCodec_def)

subsection \<open>The round trip\<close>

text \<open>C14. A unary call returns what the function returned. Take a connected client and an accepted
  connection that use the same codec, frame limit and compressor, with room for the call, working
  transports and frames that fit. If the function is registered, then the whole exchange takes place:
  the request that was written is the request that is read, the handler is started once and called
  with the caller's value, its reply is read, completes the call and removes it; and the caller gets the value
  of the function, or its error as a remote error, or for a panic an internal error. Both tables are
  as they were before the call.\<close>

theorem unary_call_round_trip:
  fixes cfg :: "('v, 'a) Config_scheme" and server :: "('v, 'b) Config_scheme"
  defines "codec \<equiv> reg_codec cfg"
  assumes same: "reg_codec server = codec" "cf_mc server = cf_mc cfg" "cf_lib server = cf_lib cfg"
      "cf_maxFrameSize server = cf_maxFrameSize cfg" "e_compressor sc = e_compressor c"
    and law: "codec_lawful codec" "normalizeCompressor (e_compressor c) = e_compressor c"
      "\<forall>z. e_compressor c = Some z \<longrightarrow> compressor_lawful z"
    and client: "can_send cfg c" "cl_conn c = Some conn" "ctx_err (normalizeContext cx) = None"
      "MaxPendingCalls (cf_backpressure cfg) > 0 \<longrightarrow> int (length (e_pending c)) < MaxPendingCalls (cf_backpressure cfg)"
      "\<not> pending (e_nextID c + 1) c" "map_of (e_streams c) (e_nextID c + 1) = None" "e_nextID c + 1 \<noteq> 0"
    and srv: "can_send server sc" "cf_unaryInterceptor server = None" "map_of (e_requests sc) (e_nextID c + 1) = None"
    and fn: "f \<noteq> []" "handlers server f = Some (wrapHandler codec fn)"
    and req: "MarshalValue codec req = Inr p" "UnmarshalValue codec p = Inr req"
      "Frame_valid (request_frame cx (e_nextID c + 1) f p)"
      "encode_with cfg c (request_frame cx (e_nextID c + 1) f p) = Inr d1"
    and ctx: "ctx = rpcContext (conn_link server) ((request_frame cx (e_nextID c + 1) f p)\<lparr>Version := ProtocolVersion\<rparr>)
        False False (StreamKindOther 0) sc"
    and resp: "\<forall>v. fn ctx req = HVal v \<longrightarrow> (\<exists>d. MarshalValue codec v = Inr d \<and> UnmarshalValue codec d = Inr v)"
      "answer_frame codec (e_nextID c + 1) f (wrapHandler codec fn ctx p) = Inr a" "encode_with server sc a = Inr d2"
  shows "\<exists>c' sc'. exchange cfg server cx f req ch now c sc = Some (call_result (fn ctx req), c', sc') \<and>
    e_pending c' = e_pending c \<and> e_streams c' = e_streams c \<and> e_requests sc' = e_requests sc"
proof -
  let ?i = "e_nextID c + 1"
  define q where "q = (request_frame cx ?i f p)\<lparr>Version := ProtocolVersion\<rparr>"
  define c1 where "c1 = c\<lparr>e_nextID := e_nextID c + 2, e_pending := tbl_put ?i (SyncPending ch) (e_pending c),
      e_writer := put_out d1 (e_writer c)\<rparr>"
  define sc1 where "sc1 = sc\<lparr>e_nextCtx := Suc (e_nextCtx sc), e_requests := tbl_put ?i (e_nextCtx sc) (e_requests sc)\<rparr>"
  define sc2 where "sc2 = sc1\<lparr>e_writer := put_out d2 (e_writer sc), e_requests := tbl_del ?i (e_requests sc1)\<rparr>"
  define a' where "a' = a\<lparr>Version := ProtocolVersion\<rparr>"
  define c2 where "c2 = c1\<lparr>cl_lastFrame := now, e_pending := tbl_del ?i (e_pending c1)\<rparr>"
  note codec_def = assms(1)
  note af = answer_frame_simps [OF resp(2)]
  have q: "Type q = FrameRequest" "RequestID q = ?i" "Function q = f" "Payload q = p" by (simp_all add: q_def)
  have a': "Type a' = FrameResponse \<or> Type a' = FrameError" "RequestID a' = ?i" using af by (simp_all add: a'_def)
  have start: "Client_callFrame_begin cfg cx f req ch c = Return (Inr ?i, c1, [])"
    using call_sends [OF client(1-3) fn(1) req(1) [unfolded codec_def] client(4) req(4), of ch] by (simp add: c1_def)
  have read1: "readFrameWithCompression (cf_mc server) (cf_lib server) (sent (e_writer c) (e_writer c1))
      (cf_maxFrameSize server) (Some (reg_codec server)) (e_compressor sc) =
      (Inr q, \<lparr>r_data = [], r_end = Sentinel IoEOF\<rparr>)"
    using read_sent [of cfg "e_compressor c", OF _ law(2,3) req(3) _ req(4) [unfolded encode_with_def]] law(1) same
    by (simp add: c1_def q_def codec_def)
  have disp: "Conn_dispatch server q sc = (True, sc1, [EvSpawn (JobUnary q (e_nextCtx sc))])"
    using dispatch_starts [of sc q server "wrapHandler codec fn"] srv(1) q client(7) fn by (simp add: sc1_def can_send_def)
  have ctx1: "rpcContext (conn_link server) q False False (StreamKindOther 0) sc1 = ctx"
    by (simp add: ctx q_def [symmetric] rpcContext_def conn_link_def Conn_context_def sc1_def)
  have run: "Conn_runRequest server q (e_nextCtx sc) (wrapHandler codec fn) sc1 = (sc2, [EvCancelCtx (e_nextCtx sc)])"
    using runRequest_answers [of server sc1 "wrapHandler codec fn" q _ a d2 "e_nextCtx sc"] srv(1,2) resp(2,3) ctx1 q same
    by (simp add: sc2_def sc1_def can_send_def encode_with_def)
  have read2: "readFrameWithCompression (cf_mc cfg) (cf_lib cfg) (sent (e_writer sc) (e_writer sc2))
      (cf_maxFrameSize cfg) (Some (reg_codec cfg)) (e_compressor c1) = (Inr a', \<lparr>r_data = [], r_end = Sentinel IoEOF\<rparr>)"
    using read_sent [of cfg "e_compressor c" a d2 "e_writer sc"] law resp(3) same af
    by (simp add: c1_def sc2_def a'_def codec_def encode_with_def)
  have step: "Client_readLoop_step cfg conn (cl_generation c) now (Inr a') c1 =
      (True, c2, [EvDeliver ?i (SyncPending ch) \<lparr>cr_frame = a', cr_err = None\<rparr>])"
    using readLoop_completes [of conn "cl_generation c" c1 a' "SyncPending ch" cfg now] a' client(2,6)
    by (simp add: c1_def c2_def isCurrentConnGeneration_def)
  have fin: "Client_CallContext_end cfg ?i (WakeResponse \<lparr>cr_frame = a', cr_err = None\<rparr>) c2 = (call_result (fn ctx req), c2, [])"
    using answer_decodes [OF law(1) req(2) resp(1,2), of ProtocolVersion]
    by (simp add: Client_CallContext_end_def Client_callFrame_end_def call_wait_def a'_def codec_def)
  have "exchange cfg server cx f req ch now c sc = Some (call_result (fn ctx req), c2, sc2)"
    using start read1 disp run read2 step fin q fn(2) client(2) by (simp add: exchange_def)
  moreover have "e_pending c2 = e_pending c" "e_streams c2 = e_streams c" "e_requests sc2 = e_requests sc"
    using client(5) srv(3) by (simp_all add: c2_def c1_def sc2_def sc1_def pending_def tbl_del_put)
  ultimately show ?thesis by blast
qed

lemma sampleConnected_eq:
  "sampleConnected = sampleClient\<lparr>cl_conn := Some 1, cl_generation := 1, cl_flowControl := True, cl_readyClosed := True,
     e_writer := emptyWriter\<rparr>"
  by (simp add: sampleConnected_def sampleDialing_def sampleClient_def newClientState_def connectOnce_begin_def
      connectOnce_end_def setConn_def backgroundContext_def)

lemma sample_values: "MarshalValue sampleCodec v = Inr v" "UnmarshalValue sampleCodec v = Inr v"
  by (simp_all add: sampleCodec_def)

lemma sample_frames_encode:
  "\<not> isl (encode_with sampleConfig sampleConnected (request_frame None 1 ''echo'' [7])) \<and>
   \<not> isl (encode_with sampleConfig sampleConn
     (zeroFrame\<lparr>Type := FrameResponse, RequestID := 1, Function := ''echo'', Payload := [7]\<rparr>))"
  by code_simp

theorem unary_call_round_trip_witness:
  "\<exists>c' sc'. exchange sampleConfig sampleConfig None ''echo'' [7] 3 0 sampleConnected sampleConn = Some (Inr [7], c', sc') \<and>
     e_pending c' = []"
proof -
  let ?q = "request_frame None 1 ''echo'' [7]"
  let ?a = "zeroFrame\<lparr>Type := FrameResponse, RequestID := 1, Function := ''echo'', Payload := [7]\<rparr>"
  let ?fn = "\<lambda>_ v. HVal v :: bytes hres"
  obtain d1 where d1: "encode_with sampleConfig sampleConnected ?q = Inr d1"
    using sample_frames_encode by (metis sum.exhaust_disc isl_def sum.collapse(2))
  obtain d2 where d2: "encode_with sampleConfig sampleConn ?a = Inr d2"
    using sample_frames_encode by (metis sum.exhaust_disc isl_def sum.collapse(2))
  have e: "e_nextID sampleConnected = 0" "e_pending sampleConnected = []" "e_streams sampleConnected = []"
    "e_compressor sampleConnected = None" "e_compressor sampleConn = None" "e_requests sampleConn = []"
    by (simp_all add: sampleConnected_eq sampleClient_def newClientState_def sampleConn_def newConn_def sampleConfig_def)
  have s: "can_send sampleConfig sampleConnected" "can_send sampleConfig sampleConn"
    by (simp_all add: can_send_def sampleConnected_eq sampleClient_def newClientState_def sampleConn_def newConn_def
        sampleConfig_def emptyWriter_def newWriteLimiter_def wl_acquire_def)
  have cfg: "reg_codec sampleConfig = sampleCodec" "cf_unaryInterceptor sampleConfig = None"
    "MaxPendingCalls (cf_backpressure sampleConfig) = 2"
    "handlers sampleConfig ''echo'' = Some (wrapHandler sampleCodec ?fn)" by (simp_all add: sampleConfig_def)
  have n: "ctx_err (normalizeContext None) = None" "normalizeCompressor None = None"
    by (simp_all add: normalizeContext_def backgroundContext_def normalizeCompressor_def)
  have v: "Frame_valid ?q"
    using plain_frame_valid [of FrameRequest] by (simp add: request_frame_def with_deadline_def normalizeContext_def backgroundContext_def)
  have a: "answer_frame sampleCodec 1 ''echo'' (wrapHandler sampleCodec ?fn ctx [7]) = Inr ?a" for ctx
    by (simp add: answer_frame_def wrapHandler_def sample_values)
  have "\<exists>c' sc'. exchange sampleConfig sampleConfig None ''echo'' [7] 3 0 sampleConnected sampleConn = Some (Inr [7], c', sc') \<and>
      e_pending c' = [] \<and> e_streams c' = [] \<and> e_requests sc' = []"
    using unary_call_round_trip [where cfg = sampleConfig and server = sampleConfig and c = sampleConnected and
        sc = sampleConn and conn = 1 and cx = None and f = "''echo''" and req = "[7]" and p = "[7]" and fn = ?fn and
        a = ?a and ?d1.0 = d1 and ?d2.0 = d2 and ch = 3 and now = 0] e s cfg n v a d1 d2 sample_values sampleCodec_lawful
    by (simp add: pending_def call_result_def)
  then show ?thesis by blast
qed

end
