(* ===== verification/Handshake.thy ===== *)
theory Handshake
  imports End_To_End
begin

text \<open>
  Protocol negotiation (\<^verbatim>\<open>client.go\<close>: \<^verbatim>\<open>clientHandshake\<close>, \<^verbatim>\<open>clientAuth\<close>, \<^verbatim>\<open>handshakeError\<close>; \<^verbatim>\<open>server.go\<close>:
  \<^verbatim>\<open>serverHandshake\<close>, \<^verbatim>\<open>readAuth\<close>, the writers of the handshake frames, \<^verbatim>\<open>serveConn\<close>). Each side is a
  function of what it reads: a \<open>Reader\<close> with all bytes its peer sends and a \<open>Writer\<close> that
  collects what it writes. The handshake deadline acts through the errors of the two. \<open>hmac\<close>
  is HMAC-SHA256, \<open>rand\<close> the random source, \<open>accept\<close> the callback of \<^verbatim>\<open>serverHandshake\<close> with the state it
  works on.
\<close>

definition handshake_send :: "('v, 'c) Config_scheme \<Rightarrow> FrameType \<Rightarrow> bytes \<Rightarrow> Writer \<Rightarrow> gerror option \<times> Writer" where
  "handshake_send cfg t payload w =
     writeFrame (cf_mc cfg) (cf_lib cfg) w (cf_maxFrameSize cfg) (Some (reg_codec cfg)) (zeroFrame\<lparr>Type := t, Payload := payload\<rparr>)"

definition handshake_recv :: "('v, 'c) Config_scheme \<Rightarrow> Reader \<Rightarrow> Frame res \<times> Reader" where
  "handshake_recv cfg r = readFrame (cf_mc cfg) (cf_lib cfg) r (cf_maxFrameSize cfg) (Some (reg_codec cfg))"

subsection \<open>The dialing side\<close>

definition handshakeError :: "('v, 'c) Config_scheme \<Rightarrow> Frame \<Rightarrow> gerror" where
  "handshakeError cfg frame =
     (case UnmarshalRemoteError (reg_codec cfg) (Payload frame) of
        Inl e \<Rightarrow> Errorf_suffix ErrProtocol (''decode handshake error: '' @ error_text e)
      | Inr re \<Rightarrow>
          if Code re = ErrorCodePeerConnected then Errorf_suffix ErrPeerConnected (Message re)
          else if Code re = ErrorCodeUnauthorized then Errorf_suffix ErrAuthentication (Message re)
          else Errorf_suffix ErrUnavailable (Message re))"

definition client_hello :: "('v, 'c) Config_scheme \<Rightarrow> string \<Rightarrow> hello" where
  "client_hello cfg clientName =
     \<lparr>h_ProtocolVersion = ProtocolVersion, h_Codec = codec_Name (reg_codec cfg), h_ClientName = clientName,
      h_Compression = compressorName (cf_compressor cfg), h_AuthMethod = auth_method (cf_auth cfg),
      h_Capabilities = [capabilityStreamCredit]\<rparr>"

definition clientAuth ::
  "(bytes \<Rightarrow> bytes \<Rightarrow> bytes) \<Rightarrow> ('v, 'c) Config_scheme \<Rightarrow> string \<Rightarrow> helloAck \<Rightarrow> Reader \<Rightarrow> Writer \<Rightarrow>
   gerror option \<times> Reader \<times> Writer" where
  "clientAuth hmac cfg clientName ack r w =
     (if \<not> enabledAuth (cf_auth cfg)
      then (Some (Errorf_suffix ErrAuthentication ''server requires authentication''), r, w)
      else if a_AuthMethod ack \<noteq> auth_method (cf_auth cfg)
      then (Some (Errorf_suffix ErrAuthentication (''unsupported method '' @ go_quote (a_AuthMethod ack))), r, w)
      else if a_AuthChallenge ack = []
      then (Some (Errorf_suffix ErrAuthentication ''missing challenge''), r, w)
      else
        (let signature = auth_sign hmac (cf_auth cfg) (a_AuthChallenge ack) (a_ProtocolVersion ack) (a_Codec ack)
               clientName (a_Capabilities ack) in
         case MarshalAuthRequest (reg_codec cfg) \<lparr>ar_Method = auth_method (cf_auth cfg), ar_Signature = signature\<rparr> of
           Inl e \<Rightarrow> (Some (Errorf_prefix ''encode auth'' e), r, w)
         | Inr payload \<Rightarrow>
             (case handshake_send cfg FrameAuth payload w of
                (Some err, w) \<Rightarrow> (Some err, r, w)
              | (None, w) \<Rightarrow>
                  (case handshake_recv cfg r of
                     (Inl err, r) \<Rightarrow> (Some err, r, w)
                   | (Inr frame, r) \<Rightarrow>
                       (case Type frame of
                          FrameAuthAck \<Rightarrow>
                            (case UnmarshalAuthAck (reg_codec cfg) (Payload frame) of
                               Inl e \<Rightarrow> (Some (Errorf_prefix ''decode auth ack'' e), r, w)
                             | Inr aa \<Rightarrow> if \<not> aa_OK aa then (Some (Sentinel ErrAuthentication), r, w) else (None, r, w))
                        | FrameError \<Rightarrow> (Some (handshakeError cfg frame), r, w)
                        | t \<Rightarrow> (Some (Errorf_suffix ErrProtocol (''expected auth_ack, got '' @ FrameType_String t)), r, w))))))"

text \<open>The checks of the acknowledgement, in the order of the source.\<close>

definition check_helloAck :: "('v, 'c) Config_scheme \<Rightarrow> helloAck \<Rightarrow> gerror option" where
  "check_helloAck cfg ack =
     (if a_ProtocolVersion ack \<noteq> ProtocolVersion
      then Some (Errorf_suffix ErrProtocol (''unsupported version '' @ decimal (unat (a_ProtocolVersion ack))))
      else if a_Codec ack \<noteq> codec_Name (reg_codec cfg)
      then Some (Errorf_suffix ErrProtocol (''unsupported codec '' @ go_quote (a_Codec ack)))
      else
        (case ensureCompressor (a_Compression ack) (cf_compressor cfg) of
           Some e \<Rightarrow> Some e
         | None \<Rightarrow>
             if (case cf_compressor cfg of None \<Rightarrow> False | Some z \<Rightarrow> a_Compression ack \<noteq> c_Name z)
             then Some (Errorf_suffix ErrProtocol
                    (''compression '' @ go_quote (compressorName (cf_compressor cfg)) @ '' was not accepted''))
             else
               (case find (\<lambda>cap. cap \<noteq> capabilityStreamCredit) (a_Capabilities ack) of
                  Some cap \<Rightarrow> Some (Errorf_suffix ErrProtocol (''unsupported capability '' @ go_quote cap))
                | None \<Rightarrow> None)))"

definition clientHandshake ::
  "(bytes \<Rightarrow> bytes \<Rightarrow> bytes) \<Rightarrow> ('v, 'c) Config_scheme \<Rightarrow> string \<Rightarrow> Reader \<Rightarrow> Writer \<Rightarrow> bool res \<times> Reader \<times> Writer" where
  "clientHandshake hmac cfg clientName r w =
     (case MarshalHello (reg_codec cfg) (client_hello cfg clientName) of
        Inl e \<Rightarrow> (Inl (Errorf_prefix ''encode hello'' e), r, w)
      | Inr payload \<Rightarrow>
          (case handshake_send cfg FrameHello payload w of
             (Some err, w) \<Rightarrow> (Inl err, r, w)
           | (None, w) \<Rightarrow>
               (case handshake_recv cfg r of
                  (Inl err, r) \<Rightarrow> (Inl err, r, w)
                | (Inr frame, r) \<Rightarrow>
                    if Type frame = FrameError then (Inl (handshakeError cfg frame), r, w)
                    else if Type frame \<noteq> FrameHelloAck
                    then (Inl (Errorf_suffix ErrProtocol (''expected hello_ack, got '' @ FrameType_String (Type frame))), r, w)
                    else
                      (case UnmarshalHelloAck (reg_codec cfg) (Payload frame) of
                         Inl e \<Rightarrow> (Inl (Errorf_prefix ''decode hello ack'' e), r, w)
                       | Inr ack \<Rightarrow>
                           (case check_helloAck cfg ack of
                              Some e \<Rightarrow> (Inl e, r, w)
                            | None \<Rightarrow>
                                (case (if a_AuthRequired ack then clientAuth hmac cfg clientName ack r w else (None, r, w)) of
                                   (Some e, r, w) \<Rightarrow> (Inl e, r, w)
                                 | (None, r, w) \<Rightarrow> (Inr (a_Capabilities ack \<noteq> []), r, w)))))))"

subsection \<open>The accepting side\<close>

definition writeHandshakeError :: "('v, 'c) Config_scheme \<Rightarrow> RemoteError \<Rightarrow> Writer \<Rightarrow> gerror option \<times> Writer" where
  "writeHandshakeError cfg remoteErr w =
     (case MarshalRemoteError (reg_codec cfg) remoteErr of
        Inl e \<Rightarrow> (Some e, w)
      | Inr payload \<Rightarrow> handshake_send cfg FrameError payload w)"

definition writePeerHandshakeError :: "('v, 'c) Config_scheme \<Rightarrow> gerror \<Rightarrow> Writer \<Rightarrow> gerror option \<times> Writer" where
  "writePeerHandshakeError cfg err w =
     (let code = (if errors_Is err ErrPeerConnected then ErrorCodePeerConnected
                  else if errors_Is err ErrPeerIdentityRequired \<or> errors_Is err ErrPeerSelfConnection
                  then ErrorCodeUnauthorized
                  else ErrorCodeUnavailable)
      in writeHandshakeError cfg (NewRemoteError code (error_text err) []) w)"

definition writeHelloAck :: "('v, 'c) Config_scheme \<Rightarrow> helloAck \<Rightarrow> Writer \<Rightarrow> gerror option \<times> Writer" where
  "writeHelloAck cfg ack w =
     (case MarshalHelloAck (reg_codec cfg) ack of
        Inl e \<Rightarrow> (Some (Errorf_prefix ''encode hello ack'' e), w)
      | Inr payload \<Rightarrow> handshake_send cfg FrameHelloAck payload w)"

definition writeAuthAck :: "('v, 'c) Config_scheme \<Rightarrow> Writer \<Rightarrow> gerror option \<times> Writer" where
  "writeAuthAck cfg w =
     (case MarshalAuthAck (reg_codec cfg) \<lparr>aa_OK = True\<rparr> of
        Inl e \<Rightarrow> (Some (Errorf_prefix ''encode auth ack'' e), w)
      | Inr payload \<Rightarrow> handshake_send cfg FrameAuthAck payload w)"

definition readAuth ::
  "(bytes \<Rightarrow> bytes \<Rightarrow> bytes) \<Rightarrow> ('v, 'c) Config_scheme \<Rightarrow> hello \<Rightarrow> bytes \<Rightarrow> string list \<Rightarrow> Reader \<Rightarrow> Writer \<Rightarrow>
   gerror option \<times> Reader \<times> Writer" where
  "readAuth hmac cfg hello challenge capabilities r w =
     (let reject = (\<lambda>message. snd (writeHandshakeError cfg (NewRemoteError ErrorCodeUnauthorized message []) w)) in
      case handshake_recv cfg r of
        (Inl err, r) \<Rightarrow> (Some err, r, w)
      | (Inr frame, r) \<Rightarrow>
          if Type frame \<noteq> FrameAuth
          then (Some (Errorf_suffix ErrAuthentication (''expected auth, got '' @ FrameType_String (Type frame))), r,
                reject ''authentication is required'')
          else
            (case UnmarshalAuthRequest (reg_codec cfg) (Payload frame) of
               Inl e \<Rightarrow> (Some (Errorf_suffix ErrAuthentication (''decode auth: '' @ error_text e)), r,
                         reject ''invalid authentication payload'')
             | Inr request \<Rightarrow>
                 if ar_Method request \<noteq> auth_method (cf_auth cfg)
                 then (Some (Errorf_suffix ErrAuthentication (''unsupported method '' @ go_quote (ar_Method request))), r,
                       reject ''unsupported authentication method'')
                 else if \<not> auth_verify hmac (cf_auth cfg) challenge (h_ProtocolVersion hello) (h_Codec hello)
                             (h_ClientName hello) (ar_Signature request) capabilities
                 then (Some (Sentinel ErrAuthentication), r, reject ''authentication failed'')
                 else (None, r, w)))"

definition check_hello :: "('v, 'c) Config_scheme \<Rightarrow> hello \<Rightarrow> gerror option" where
  "check_hello cfg h =
     (if h_ProtocolVersion h \<noteq> ProtocolVersion
      then Some (Errorf_suffix ErrProtocol (''unsupported version '' @ decimal (unat (h_ProtocolVersion h))))
      else if h_Codec h \<noteq> codec_Name (reg_codec cfg)
      then Some (Errorf_suffix ErrProtocol (''unsupported codec '' @ go_quote (h_Codec h)))
      else ensureCompressor (h_Compression h) (cf_compressor cfg))"

definition server_ack :: "('v, 'c) Config_scheme \<Rightarrow> hello \<Rightarrow> bytes option \<Rightarrow> helloAck" where
  "server_ack cfg h challenge =
     \<lparr>a_ProtocolVersion = ProtocolVersion, a_Codec = codec_Name (reg_codec cfg), a_Compression = h_Compression h,
      a_AuthRequired = (challenge \<noteq> None),
      a_AuthMethod = (if challenge = None then '''' else auth_method (cf_auth cfg)),
      a_AuthChallenge = (case challenge of None \<Rightarrow> [] | Some c \<Rightarrow> c),
      a_Capabilities = (if capabilityStreamCredit \<in> set (h_Capabilities h) then [capabilityStreamCredit] else [])\<rparr>"

type_synonym 's acceptor = "string \<Rightarrow> Compressor option \<Rightarrow> bool \<Rightarrow> 's \<Rightarrow> gerror option \<times> 's"

text \<open>Calling \<^verbatim>\<open>accept\<close> and reporting its refusal to the peer.\<close>

definition run_accept ::
  "('v, 'c) Config_scheme \<Rightarrow> 's acceptor option \<Rightarrow> string \<Rightarrow> Compressor option \<Rightarrow> bool \<Rightarrow> Writer \<Rightarrow> 's \<Rightarrow>
   gerror option \<times> Writer \<times> 's" where
  "run_accept cfg accept clientName compressor flowControl w st =
     (case accept of
        None \<Rightarrow> (None, w, st)
      | Some acc \<Rightarrow>
          (case acc clientName compressor flowControl st of
             (None, st) \<Rightarrow> (None, w, st)
           | (Some err, st) \<Rightarrow> (Some err, snd (writePeerHandshakeError cfg err w), st)))"

text \<open>The handshake after the checks of the hello.\<close>

definition server_admit ::
  "(bytes \<Rightarrow> bytes \<Rightarrow> bytes) \<Rightarrow> ('v, 'c) Config_scheme \<Rightarrow> Reader \<Rightarrow> 's acceptor option \<Rightarrow> hello \<Rightarrow> Reader \<Rightarrow> Writer \<Rightarrow> 's \<Rightarrow>
   (string \<times> Compressor option) res \<times> Reader \<times> Writer \<times> 's" where
  "server_admit hmac cfg rand accept h r w st =
     (let compressor = (if h_Compression h \<noteq> '''' then cf_compressor cfg else None) in
      if enabledAuth (cf_auth cfg) then
        (case auth_challenge rand of
           (Inl e, _) \<Rightarrow> (Inl e, r, w, st)
         | (Inr challenge, _) \<Rightarrow>
             (let ack = server_ack cfg h (Some challenge) in
              case writeHelloAck cfg ack w of
                (Some e, w) \<Rightarrow> (Inl e, r, w, st)
              | (None, w) \<Rightarrow>
                  (case readAuth hmac cfg h challenge (a_Capabilities ack) r w of
                     (Some e, r, w) \<Rightarrow> (Inl e, r, w, st)
                   | (None, r, w) \<Rightarrow>
                       (case run_accept cfg accept (h_ClientName h) compressor (a_Capabilities ack \<noteq> []) w st of
                          (Some e, w, st) \<Rightarrow> (Inl e, r, w, st)
                        | (None, w, st) \<Rightarrow>
                            (case writeAuthAck cfg w of
                               (Some e, w) \<Rightarrow> (Inl e, r, w, st)
                             | (None, w) \<Rightarrow> (Inr (h_ClientName h, compressor), r, w, st))))))
      else
        (let ack = server_ack cfg h None in
         case run_accept cfg accept (h_ClientName h) compressor (a_Capabilities ack \<noteq> []) w st of
           (Some e, w, st) \<Rightarrow> (Inl e, r, w, st)
         | (None, w, st) \<Rightarrow>
             (case writeHelloAck cfg ack w of
                (Some e, w) \<Rightarrow> (Inl e, r, w, st)
              | (None, w) \<Rightarrow> (Inr (h_ClientName h, compressor), r, w, st))))"

definition serverHandshake ::
  "(bytes \<Rightarrow> bytes \<Rightarrow> bytes) \<Rightarrow> ('v, 'c) Config_scheme \<Rightarrow> Reader \<Rightarrow> 's acceptor option \<Rightarrow> Reader \<Rightarrow> Writer \<Rightarrow> 's \<Rightarrow>
   (string \<times> Compressor option) res \<times> Reader \<times> Writer \<times> 's" where
  "serverHandshake hmac cfg rand accept r w st =
     (case handshake_recv cfg r of
        (Inl err, r) \<Rightarrow> (Inl err, r, w, st)
      | (Inr frame, r) \<Rightarrow>
          if Type frame \<noteq> FrameHello
          then (Inl (Errorf_suffix ErrProtocol (''expected hello, got '' @ FrameType_String (Type frame))), r, w, st)
          else
            (case UnmarshalHello (reg_codec cfg) (Payload frame) of
               Inl e \<Rightarrow> (Inl (Errorf_prefix ''decode hello'' e), r, w, st)
             | Inr h \<Rightarrow>
                 (case check_hello cfg h of
                    Some e \<Rightarrow> (Inl e, r, w, st)
                  | None \<Rightarrow> server_admit hmac cfg rand accept h r w st)))"

subsection \<open>Handshake frames on the wire\<close>

definition handshake_data :: "('v, 'c) Config_scheme \<Rightarrow> FrameType \<Rightarrow> bytes \<Rightarrow> bytes res" where
  "handshake_data cfg t payload =
     encodeFrame (cf_mc cfg) (cf_lib cfg) (cf_maxFrameSize cfg) (Some (reg_codec cfg)) None
       (zeroFrame\<lparr>Type := t, Payload := payload\<rparr>)"

text \<open>Two configurations that agree on the wire format.\<close>

definition same_wire :: "('v, 'a) Config_scheme \<Rightarrow> ('v, 'b) Config_scheme \<Rightarrow> bool" where
  "same_wire cfg server \<longleftrightarrow>
     cf_mc server = cf_mc cfg \<and> cf_lib server = cf_lib cfg \<and> cf_maxFrameSize server = cf_maxFrameSize cfg \<and>
     reg_codec server = reg_codec cfg \<and> codec_lawful (reg_codec cfg)"

lemma same_wire_sym: "same_wire cfg server \<Longrightarrow> same_wire server cfg"
  by (simp add: same_wire_def)

lemma same_wire_codec: "same_wire cfg server \<Longrightarrow> reg_codec server = reg_codec cfg"
  by (simp add: same_wire_def)

lemma same_wire_lawful: "same_wire cfg server \<Longrightarrow> codec_lawful (reg_codec cfg)"
  by (simp add: same_wire_def)

lemma handshake_send_eq:
  "w_script w = [] \<Longrightarrow> handshake_send cfg t payload w =
     (case handshake_data cfg t payload of Inl e \<Rightarrow> (Some e, w) | Inr d \<Rightarrow> (None, put_out d w))"
  by (simp add: handshake_send_def handshake_data_def writeFrame_def writeFrameWithCompression_def writeParts_reliable
      split: sum.splits)

definition handshake_type :: "FrameType \<Rightarrow> bool" where
  "handshake_type t \<longleftrightarrow> t \<in> {FrameHello, FrameHelloAck, FrameAuth, FrameAuthAck, FrameError}"

definition handshake_frame :: "FrameType \<Rightarrow> bytes \<Rightarrow> Frame" where
  "handshake_frame t payload = zeroFrame\<lparr>Type := t, Payload := payload, Version := ProtocolVersion\<rparr>"

lemma handshake_frame_simps [simp]:
  "Type (handshake_frame t payload) = t" "Payload (handshake_frame t payload) = payload"
  by (simp_all add: handshake_frame_def)

lemma handshake_recv_sent:
  assumes "same_wire cfg server" "handshake_data cfg t payload = Inr d" "handshake_type t" "r_data r = framed d @ rest"
  shows "handshake_recv server r = (Inr (handshake_frame t payload), r\<lparr>r_data := rest\<rparr>)"
proof -
  let ?f = "zeroFrame\<lparr>Type := t, Payload := payload\<rparr>"
  have v: "Frame_valid ?f"
    using assms(3) unfolding Frame_valid_def zeroFrame_def handshake_type_def
    by (auto simp: other_kind_roundtrip MaxInt64_def intro!: FrameType_of_byte_byte [simplified])
  have "readFrameWithCompression (cf_mc cfg) (cf_lib cfg) r (cf_maxFrameSize cfg) (Some (reg_codec cfg)) None =
      (Inr (?f\<lparr>Version := ProtocolVersion\<rparr>), r\<lparr>r_data := rest\<rparr>)"
    using assms(1,2,4) v
    by (intro read_written [of _ _ _ None ?f _ d]) (simp_all add: same_wire_def handshake_data_def defaultCodec_def
        normalizeCompressor_def zeroFrame_def)
  with assms(1) show ?thesis
    by (simp add: handshake_recv_def readFrame_def same_wire_def handshake_frame_def zeroFrame_def)
qed

subsection \<open>What a successful side has done\<close>

text \<open>On a transport that takes every byte, a step that writes a handshake frame either adds the
  whole frame or fails.\<close>

lemma handshake_send_None:
  "handshake_send cfg t payload w = (None, w') \<Longrightarrow> w_script w = [] \<Longrightarrow>
   \<exists>d. handshake_data cfg t payload = Inr d \<and> w' = put_out d w"
  by (auto simp: handshake_send_eq split: sum.splits)

lemma clientHandshake_Inr:
  assumes "clientHandshake hmac cfg name r w = (Inr fc, r', w')" "w_script w = []"
  obtains payload d frame r1 ack where
    "MarshalHello (reg_codec cfg) (client_hello cfg name) = Inr payload" "handshake_data cfg FrameHello payload = Inr d"
    "handshake_recv cfg r = (Inr frame, r1)" "Type frame = FrameHelloAck"
    "UnmarshalHelloAck (reg_codec cfg) (Payload frame) = Inr ack" "check_helloAck cfg ack = None"
    "fc \<longleftrightarrow> a_Capabilities ack \<noteq> []"
    "if a_AuthRequired ack then clientAuth hmac cfg name ack r1 (put_out d w) = (None, r', w')
     else r' = r1 \<and> w' = put_out d w"
  using assms
  by (auto simp: clientHandshake_def handshake_send_eq split: sum.splits prod.splits option.splits if_splits)

lemma clientAuth_None:
  assumes "clientAuth hmac cfg name ack r w = (None, r', w')" "w_script w = []"
  obtains payload d where
    "enabledAuth (cf_auth cfg)" "a_AuthMethod ack = auth_method (cf_auth cfg)"
    "MarshalAuthRequest (reg_codec cfg) \<lparr>ar_Method = auth_method (cf_auth cfg), ar_Signature =
       auth_sign hmac (cf_auth cfg) (a_AuthChallenge ack) (a_ProtocolVersion ack) (a_Codec ack) name (a_Capabilities ack)\<rparr> =
       Inr payload" "handshake_data cfg FrameAuth payload = Inr d" "w' = put_out d w"
  using assms
  by (auto simp: clientAuth_def Let_def handshake_send_eq
      split: sum.splits prod.splits option.splits if_splits FrameType.splits)

lemma readAuth_None:
  assumes "readAuth hmac cfg h challenge caps r w = (None, r', w')"
  obtains frame request where
    "handshake_recv cfg r = (Inr frame, r')" "Type frame = FrameAuth" "w' = w"
    "UnmarshalAuthRequest (reg_codec cfg) (Payload frame) = Inr request" "ar_Method request = auth_method (cf_auth cfg)"
    "auth_verify hmac (cf_auth cfg) challenge (h_ProtocolVersion h) (h_Codec h) (h_ClientName h) (ar_Signature request) caps"
  using assms by (auto simp: readAuth_def Let_def split: sum.splits prod.splits if_splits)

lemma run_accept_None:
  "run_accept cfg accept n z fl w st = (None, w', st') \<Longrightarrow>
   w' = w \<and> (case accept of None \<Rightarrow> st' = st | Some acc \<Rightarrow> acc n z fl st = (None, st'))"
  by (auto simp: run_accept_def split: option.splits prod.splits)

lemma writeHelloAck_None:
  "writeHelloAck cfg ack w = (None, w') \<Longrightarrow> w_script w = [] \<Longrightarrow>
   \<exists>payload d. MarshalHelloAck (reg_codec cfg) ack = Inr payload \<and> handshake_data cfg FrameHelloAck payload = Inr d \<and>
     w' = put_out d w"
  by (auto simp: writeHelloAck_def dest: handshake_send_None split: sum.splits)

lemma writeAuthAck_None:
  "writeAuthAck cfg w = (None, w') \<Longrightarrow> w_script w = [] \<Longrightarrow>
   \<exists>payload d. MarshalAuthAck (reg_codec cfg) \<lparr>aa_OK = True\<rparr> = Inr payload \<and> handshake_data cfg FrameAuthAck payload = Inr d \<and>
     w' = put_out d w"
  by (auto simp: writeAuthAck_def dest: handshake_send_None split: sum.splits)

lemma serverHandshake_Inr:
  assumes "serverHandshake hmac server rand accept r w st = (Inr (n, z), r', w', st')" "w_script w = []"
  obtains frame r1 h ch ack payload d rest where
    "handshake_recv server r = (Inr frame, r1)" "Type frame = FrameHello"
    "UnmarshalHello (reg_codec server) (Payload frame) = Inr h" "check_hello server h = None"
    "n = h_ClientName h" "z = (if h_Compression h \<noteq> '''' then cf_compressor server else None)"
    "ack = server_ack server h ch" "enabledAuth (cf_auth server) \<longleftrightarrow> ch \<noteq> None"
    "MarshalHelloAck (reg_codec server) ack = Inr payload" "handshake_data server FrameHelloAck payload = Inr d"
    "w_out w' = w_out w @ framed d @ rest"
    "case accept of None \<Rightarrow> st' = st | Some acc \<Rightarrow> acc n z (a_Capabilities ack \<noteq> []) st = (None, st')"
    "\<And>c. ch = Some c \<Longrightarrow> (\<exists>rnd'. auth_challenge rand = (Inr c, rnd')) \<and>
       (\<exists>w1. readAuth hmac server h c (a_Capabilities ack) r1 w1 = (None, r', w1))"
proof (cases "enabledAuth (cf_auth server)")
  case True
  with assms(1) obtain frame r1 h c rnd' w1 w2 w3 where s:
    "handshake_recv server r = (Inr frame, r1)" "Type frame = FrameHello"
    "UnmarshalHello (reg_codec server) (Payload frame) = Inr h" "check_hello server h = None"
    "n = h_ClientName h" "z = (if h_Compression h \<noteq> '''' then cf_compressor server else None)"
    "auth_challenge rand = (Inr c, rnd')" "writeHelloAck server (server_ack server h (Some c)) w = (None, w1)"
    "readAuth hmac server h c (a_Capabilities (server_ack server h (Some c))) r1 w1 = (None, r', w2)"
    "run_accept server accept n z (a_Capabilities (server_ack server h (Some c)) \<noteq> []) w2 st = (None, w3, st')"
    "writeAuthAck server w3 = (None, w')"
    by (auto simp: serverHandshake_def server_admit_def Let_def split: sum.splits prod.splits option.splits if_splits)
  obtain payload d where d: "MarshalHelloAck (reg_codec server) (server_ack server h (Some c)) = Inr payload"
    "handshake_data server FrameHelloAck payload = Inr d" "w1 = put_out d w"
    using writeHelloAck_None [OF s(8) assms(2)] by blast
  have w2: "w2 = w1" using readAuth_None [OF s(9)] by metis
  note acc = run_accept_None [OF s(10)]
  with d w2 assms(2) have "w_script w3 = []" by simp
  from writeAuthAck_None [OF s(11) this] acc d w2 obtain d' where "w_out w' = w_out w @ framed d @ framed d'" by auto
  with that [OF s(1-6), of _ "Some c", OF refl _ d(1,2)] s(7,9) acc w2 True show ?thesis by auto
next
  case False
  with assms(1) obtain frame r1 h w1 where s:
    "handshake_recv server r = (Inr frame, r1)" "Type frame = FrameHello"
    "UnmarshalHello (reg_codec server) (Payload frame) = Inr h" "check_hello server h = None"
    "n = h_ClientName h" "z = (if h_Compression h \<noteq> '''' then cf_compressor server else None)"
    "run_accept server accept n z (a_Capabilities (server_ack server h None) \<noteq> []) w st = (None, w1, st')"
    "writeHelloAck server (server_ack server h None) w1 = (None, w')"
    by (auto simp: serverHandshake_def server_admit_def Let_def split: sum.splits prod.splits option.splits if_splits)
  note acc = run_accept_None [OF s(7)]
  with assms(2) have "w_script w1 = []" by simp
  from writeHelloAck_None [OF s(8) this] acc obtain payload d where
    d: "MarshalHelloAck (reg_codec server) (server_ack server h None) = Inr payload"
    "handshake_data server FrameHelloAck payload = Inr d" "w_out w' = w_out w @ framed d @ []" by auto
  from that [OF s(1-6), of _ None, OF refl _ d] acc False show ?thesis by simp
qed

subsection \<open>Agreement\<close>

definition signed_request :: "(bytes \<Rightarrow> bytes \<Rightarrow> bytes) \<Rightarrow> ('v, 'c) Config_scheme \<Rightarrow> string \<Rightarrow> helloAck \<Rightarrow> authRequest" where
  "signed_request hmac cfg name ack =
     \<lparr>ar_Method = auth_method (cf_auth cfg), ar_Signature =
        auth_sign hmac (cf_auth cfg) (a_AuthChallenge ack) (a_ProtocolVersion ack) (a_Codec ack) name (a_Capabilities ack)\<rparr>"

lemma client_output:
  assumes "if a_AuthRequired ack then clientAuth hmac cfg name ack r1 (put_out d w) = (None, r', w')
     else r' = r1 \<and> w' = put_out d w" "w_script w = []"
  shows "\<exists>more. w_out w' = w_out w @ framed d @ more \<and>
    (a_AuthRequired ack \<longrightarrow> (\<exists>p d3. MarshalAuthRequest (reg_codec cfg) (signed_request hmac cfg name ack) = Inr p \<and>
       handshake_data cfg FrameAuth p = Inr d3 \<and> more = framed d3 \<and> enabledAuth (cf_auth cfg)))"
proof (cases "a_AuthRequired ack")
  case True
  with assms clientAuth_None [of hmac cfg name ack r1 "put_out d w" r' w'] show ?thesis
    by (force simp: signed_request_def)
next
  case False
  with assms show ?thesis by simp
qed

lemma readAuth_verified:
  assumes "same_wire cfg server" "readAuth hmac server h c caps r w = (None, r', w')"
    and "MarshalAuthRequest (reg_codec cfg) q = Inr p" "handshake_data cfg FrameAuth p = Inr d" "r_data r = framed d @ xs"
  shows "auth_verify hmac (cf_auth server) c (h_ProtocolVersion h) (h_Codec h) (h_ClientName h) (ar_Signature q) caps"
proof -
  from handshake_recv_sent [OF assms(1,4) _ assms(5)] obtain f where
    f: "handshake_recv server r = (Inr f, r\<lparr>r_data := xs\<rparr>)" "Payload f = p"
    by (simp add: handshake_type_def)
  from readAuth_None [OF assms(2)] f codec_lawfulD(4) [OF same_wire_lawful [OF assms(1)] assms(3)] same_wire_codec [OF assms(1)]
  show ?thesis by (metis Inr_inject fst_conv)
qed

text \<open>C20. Both sides agree. Suppose the two handshakes run against each other on transports that take
  every byte (each side reads what the other wrote, followed by anything), with the same wire format,
  and both succeed. Then the server knows the client by its name, the two use compressors of the same
  name, both use stream credit, the callback that admits the connection has accepted exactly these
  parameters, and if the server authenticates then so did the client: the two secrets sign the server's
  own 32-byte challenge, the version, the codec, the name and the capability alike.\<close>

theorem handshake_agreement:
  assumes wire: "same_wire cfg server" and scripts: "w_script wc = []" "w_script ws = []"
    and client: "clientHandshake hmac cfg name rc wc = (Inr fc, rc', wc')"
    and srv: "serverHandshake hmac server rand (Some acc) rs ws st = (Inr (n, z), rs', ws', st')"
    and link: "r_data rs = drop (length (w_out wc)) (w_out wc') @ xs" "r_data rc = drop (length (w_out ws)) (w_out ws') @ ys"
  shows "n = name \<and> compressorName z = compressorName (cf_compressor cfg) \<and> fc \<and> acc name z fc st = (None, st') \<and>
    (enabledAuth (cf_auth server) \<longrightarrow> enabledAuth (cf_auth cfg) \<and>
      (\<exists>ch rand'. auth_challenge rand = (Inr ch, rand') \<and> length ch = 32 \<and>
        auth_sign hmac (cf_auth cfg) ch ProtocolVersion (codec_Name (reg_codec cfg)) name [capabilityStreamCredit] =
        auth_sign hmac (cf_auth server) ch ProtocolVersion (codec_Name (reg_codec cfg)) name [capabilityStreamCredit]))"
proof -
  let ?codec = "reg_codec cfg"
  note law = same_wire_lawful [OF wire] and codec = same_wire_codec [OF wire]
  obtain hp d fa r1 ack where c: "MarshalHello ?codec (client_hello cfg name) = Inr hp" "handshake_data cfg FrameHello hp = Inr d"
    "handshake_recv cfg rc = (Inr fa, r1)" "Type fa = FrameHelloAck" "UnmarshalHelloAck ?codec (Payload fa) = Inr ack"
    "check_helloAck cfg ack = None" "fc \<longleftrightarrow> a_Capabilities ack \<noteq> []"
    "if a_AuthRequired ack then clientAuth hmac cfg name ack r1 (put_out d wc) = (None, rc', wc')
     else rc' = r1 \<and> wc' = put_out d wc"
    using clientHandshake_Inr [OF client scripts(1)] by metis
  obtain fh r2 h ch ap d2 rest where s: "handshake_recv server rs = (Inr fh, r2)" "UnmarshalHello ?codec (Payload fh) = Inr h"
    "check_hello server h = None" "n = h_ClientName h" "z = (if h_Compression h \<noteq> '''' then cf_compressor server else None)"
    "enabledAuth (cf_auth server) \<longleftrightarrow> ch \<noteq> None"
    "MarshalHelloAck ?codec (server_ack server h ch) = Inr ap" "handshake_data server FrameHelloAck ap = Inr d2"
    "w_out ws' = w_out ws @ framed d2 @ rest" "acc n z (a_Capabilities (server_ack server h ch) \<noteq> []) st = (None, st')"
    "\<And>c. ch = Some c \<Longrightarrow> (\<exists>rnd'. auth_challenge rand = (Inr c, rnd')) \<and>
       (\<exists>w1. readAuth hmac server h c (a_Capabilities (server_ack server h ch)) r2 w1 = (None, rs', w1))"
    by (rule serverHandshake_Inr [OF srv scripts(2), unfolded codec]) simp
  obtain more where out: "w_out wc' = w_out wc @ framed d @ more"
    "a_AuthRequired ack \<Longrightarrow> \<exists>p d3. MarshalAuthRequest ?codec (signed_request hmac cfg name ack) = Inr p \<and>
       handshake_data cfg FrameAuth p = Inr d3 \<and> more = framed d3 \<and> enabledAuth (cf_auth cfg)"
    using client_output [OF c(8) scripts(1)] by blast
  from out(1) link(1) have "r_data rs = framed d @ more @ xs" by simp
  from handshake_recv_sent [OF wire c(2) _ this] s(1) have fh: "Payload fh = hp" "r2 = rs\<lparr>r_data := more @ xs\<rparr>"
    by (auto simp: handshake_type_def)
  with s(2) codec_lawfulD(2) [OF law c(1)] have h: "h = client_hello cfg name" by simp
  from s(9) link(2) have "r_data rc = framed d2 @ rest @ ys" by simp
  from handshake_recv_sent [OF same_wire_sym [OF wire] s(8) _ this] c(3) have "Payload fa = ap" by (auto simp: handshake_type_def)
  with c(5) codec_lawfulD(3) [OF law s(7)] have a: "ack = server_ack server h ch" by simp
  have caps: "a_Capabilities ack = [capabilityStreamCredit]" by (simp add: a h server_ack_def client_hello_def)
  have comp: "compressorName z = compressorName (cf_compressor cfg)"
    using s(3,5) by (auto simp: h check_hello_def client_hello_def ensureCompressor_def compressorName_def split: option.splits if_splits)
  have auth: "enabledAuth (cf_auth cfg) \<and>
      (\<exists>ch rand'. auth_challenge rand = (Inr ch, rand') \<and> length ch = 32 \<and>
        auth_sign hmac (cf_auth cfg) ch ProtocolVersion (codec_Name ?codec) name [capabilityStreamCredit] =
        auth_sign hmac (cf_auth server) ch ProtocolVersion (codec_Name ?codec) name [capabilityStreamCredit])"
    if "enabledAuth (cf_auth server)"
  proof -
    from that s(6) obtain c0 where c0: "ch = Some c0" by auto
    then have ar: "a_AuthRequired ack" "signed_request hmac cfg name ack = \<lparr>ar_Method = auth_method (cf_auth cfg),
        ar_Signature = auth_sign hmac (cf_auth cfg) c0 ProtocolVersion (codec_Name ?codec) name [capabilityStreamCredit]\<rparr>"
      using caps by (simp_all add: a server_ack_def codec signed_request_def)
    from out(2) [OF ar(1)] obtain p d3 where p: "MarshalAuthRequest ?codec (signed_request hmac cfg name ack) = Inr p"
      "handshake_data cfg FrameAuth p = Inr d3" "more = framed d3" "enabledAuth (cf_auth cfg)" by blast
    from s(11) [OF c0] a caps obtain rnd' w1 where ra: "auth_challenge rand = (Inr c0, rnd')"
      "readAuth hmac server h c0 [capabilityStreamCredit] r2 w1 = (None, rs', w1)" by auto
    from fh(2) p(3) have "r_data r2 = framed d3 @ xs" by simp
    from readAuth_verified [OF wire ra(2) p(1,2) this] p(4) ra(1) auth_challenge_length [OF ra(1)] show ?thesis
      by (auto simp: auth_verify_def h client_hello_def ar(2))
  qed
  show ?thesis
    using s(4,10) comp c(7) caps a auth by (simp add: h client_hello_def)
qed

subsection \<open>Compatible sides\<close>

definition fits :: "('v, 'c) Config_scheme \<Rightarrow> FrameType \<Rightarrow> bytes res \<Rightarrow> bool" where
  "fits cfg t m \<longleftrightarrow> (case m of Inl _ \<Rightarrow> False | Inr payload \<Rightarrow> \<not> isl (handshake_data cfg t payload))"

text \<open>A client and a server that should understand each other: the same wire format; the client
  compresses not at all or with a named compressor the server has; the frames fit; and, where the server
  authenticates (\<open>ch\<close> is the challenge it draws), the same secret.\<close>

definition compatible ::
  "(bytes \<Rightarrow> bytes \<Rightarrow> bytes) \<Rightarrow> ('v, 'a) Config_scheme \<Rightarrow> ('v, 'b) Config_scheme \<Rightarrow> string \<Rightarrow> Reader \<Rightarrow> bytes option \<Rightarrow> bool" where
  "compatible hmac cfg server name rand ch \<longleftrightarrow>
     same_wire cfg server \<and> normalizeCompressor (cf_compressor cfg) = cf_compressor cfg \<and>
     (cf_compressor cfg = None \<or> compressorName (cf_compressor server) = compressorName (cf_compressor cfg)) \<and>
     fits cfg FrameHello (MarshalHello (reg_codec cfg) (client_hello cfg name)) \<and>
     fits server FrameHelloAck (MarshalHelloAck (reg_codec cfg) (server_ack server (client_hello cfg name) ch)) \<and>
     (case ch of
        None \<Rightarrow> \<not> enabledAuth (cf_auth server)
      | Some c \<Rightarrow>
          enabledAuth (cf_auth server) \<and> cf_auth cfg = cf_auth server \<and> fst (auth_challenge rand) = Inr c \<and>
          fits cfg FrameAuth (MarshalAuthRequest (reg_codec cfg)
            (signed_request hmac cfg name (server_ack server (client_hello cfg name) ch))) \<and>
          fits server FrameAuthAck (MarshalAuthAck (reg_codec cfg) \<lparr>aa_OK = True\<rparr>))"

lemma fits_obtain:
  assumes "fits cfg t m"
  obtains payload d where "m = Inr payload" "handshake_data cfg t payload = Inr d"
  using assms by (cases m; cases "handshake_data cfg t (projr m)") (auto simp: fits_def)

definition negotiated :: "('v, 'a) Config_scheme \<Rightarrow> ('v, 'b) Config_scheme \<Rightarrow> Compressor option" where
  "negotiated cfg server = (if cf_compressor cfg = None then None else cf_compressor server)"

lemma compatible_checks:
  assumes "compatible hmac cfg server name rand ch"
  shows "check_hello server (client_hello cfg name) = None"
    and "check_helloAck cfg (server_ack server (client_hello cfg name) ch) = None"
    and "(if h_Compression (client_hello cfg name) \<noteq> '''' then cf_compressor server else None) = negotiated cfg server"
    and "a_Capabilities (server_ack server (client_hello cfg name) ch) = [capabilityStreamCredit]"
  using assms
  by (auto simp: compatible_def same_wire_def check_hello_def check_helloAck_def client_hello_def server_ack_def
      ensureCompressor_def compressorName_def normalizeCompressor_def negotiated_def split: option.splits if_splits)

lemma put_out_two: "put_out b (put_out a w) = w\<lparr>w_out := w_out w @ framed a @ framed b\<rparr>"
  by (cases w) (simp add: put_out_def)

text \<open>Each side up to the point where the other side's frame decides.\<close>

lemma hello_received:
  assumes "same_wire cfg server" "MarshalHello (reg_codec cfg) h = Inr p" "handshake_data cfg FrameHello p = Inr d"
    and "check_hello server h = None" "r_data r = framed d @ rest"
  shows "serverHandshake hmac server rand accept r w st = server_admit hmac server rand accept h (r\<lparr>r_data := rest\<rparr>) w st"
  using handshake_recv_sent [OF assms(1,3) _ assms(5)] codec_lawfulD(2) [OF same_wire_lawful [OF assms(1)] assms(2)]
    same_wire_codec [OF assms(1)] assms(4)
  by (auto simp: serverHandshake_def handshake_type_def)

lemma ack_received:
  assumes "same_wire cfg server" "MarshalHello (reg_codec cfg) (client_hello cfg name) = Inr p" "handshake_data cfg FrameHello p = Inr d"
    and "MarshalHelloAck (reg_codec cfg) ack = Inr p2" "handshake_data server FrameHelloAck p2 = Inr d2"
    and "check_helloAck cfg ack = None" "r_data r = framed d2 @ rest" "w_script w = []"
  shows "clientHandshake hmac cfg name r w =
    (case (if a_AuthRequired ack then clientAuth hmac cfg name ack (r\<lparr>r_data := rest\<rparr>) (put_out d w)
           else (None, r\<lparr>r_data := rest\<rparr>, put_out d w)) of
       (Some e, r, w) \<Rightarrow> (Inl e, r, w)
     | (None, r, w) \<Rightarrow> (Inr (a_Capabilities ack \<noteq> []), r, w))"
  using handshake_recv_sent [OF same_wire_sym [OF assms(1)] assms(5) _ assms(7)]
    codec_lawfulD(3) [OF same_wire_lawful [OF assms(1)] assms(4)] assms(2,3,6,8)
  by (auto simp: clientHandshake_def handshake_type_def handshake_send_eq)

lemma hello_refused:
  assumes "same_wire cfg server" "MarshalHello (reg_codec cfg) (client_hello cfg name) = Inr p" "handshake_data cfg FrameHello p = Inr d"
    and "MarshalRemoteError (reg_codec cfg) re = Inr p2" "handshake_data server FrameError p2 = Inr d2"
    and "r_data r = framed d2 @ rest" "w_script w = []"
  shows "clientHandshake hmac cfg name r w =
    (Inl (handshakeError cfg (handshake_frame FrameError p2)), r\<lparr>r_data := rest\<rparr>, put_out d w)"
  using handshake_recv_sent [OF same_wire_sym [OF assms(1)] assms(5) _ assms(6)] assms(2,3,7)
  by (auto simp: clientHandshake_def handshake_type_def handshake_send_eq)

lemma auth_received:
  assumes "same_wire cfg server" "MarshalAuthRequest (reg_codec cfg) q = Inr p" "handshake_data cfg FrameAuth p = Inr d"
    and "ar_Method q = auth_method (cf_auth server)" "r_data r = framed d @ rest"
    and "auth_verify hmac (cf_auth server) c (h_ProtocolVersion h) (h_Codec h) (h_ClientName h) (ar_Signature q) caps"
  shows "readAuth hmac server h c caps r w = (None, r\<lparr>r_data := rest\<rparr>, w)"
  using handshake_recv_sent [OF assms(1,3) _ assms(5)] codec_lawfulD(4) [OF same_wire_lawful [OF assms(1)] assms(2)]
    same_wire_codec [OF assms(1)] assms(4,6)
  by (auto simp: readAuth_def handshake_type_def Let_def)

text \<open>A conversation: reading S the client writes C, reading C the server writes S, and both stop
  right there, whatever bytes follow.\<close>

definition conversation ::
  "(bytes \<Rightarrow> bytes \<Rightarrow> bytes) \<Rightarrow> ('v, 'a) Config_scheme \<Rightarrow> ('v, 'b) Config_scheme \<Rightarrow> string \<Rightarrow> Reader \<Rightarrow> 's acceptor \<Rightarrow>
   Writer \<Rightarrow> Writer \<Rightarrow> 's \<Rightarrow> bytes \<Rightarrow> bytes \<Rightarrow> bool res \<Rightarrow> (string \<times> Compressor option) res \<Rightarrow> 's \<Rightarrow> bool" where
  "conversation hmac cfg server name rand acc wc ws st C S cres sres st' \<longleftrightarrow>
     (\<forall>ys e. clientHandshake hmac cfg name \<lparr>r_data = S @ ys, r_end = e\<rparr> wc =
        (cres, \<lparr>r_data = ys, r_end = e\<rparr>, wc\<lparr>w_out := w_out wc @ C\<rparr>)) \<and>
     (\<forall>xs e. serverHandshake hmac server rand (Some acc) \<lparr>r_data = C @ xs, r_end = e\<rparr> ws st =
        (sres, \<lparr>r_data = xs, r_end = e\<rparr>, ws\<lparr>w_out := w_out ws @ S\<rparr>, st'))"

lemma conversation_plain:
  assumes "compatible hmac cfg server name rand None" "w_script wc = []" "w_script ws = []"
    and "acc name (negotiated cfg server) True st = (None, st')"
  shows "\<exists>C S. conversation hmac cfg server name rand acc wc ws st C S (Inr True) (Inr (name, negotiated cfg server)) st'"
proof -
  let ?h = "client_hello cfg name" let ?a = "server_ack server ?h None"
  note c = compatible_checks [OF assms(1)]
  have wire: "same_wire cfg server" "\<not> enabledAuth (cf_auth server)" using assms(1) by (simp_all add: compatible_def)
  obtain p d where p: "MarshalHello (reg_codec cfg) ?h = Inr p" "handshake_data cfg FrameHello p = Inr d"
    using assms(1) fits_obtain unfolding compatible_def by blast
  obtain p2 d2 where p2: "MarshalHelloAck (reg_codec cfg) ?a = Inr p2" "handshake_data server FrameHelloAck p2 = Inr d2"
    using assms(1) fits_obtain unfolding compatible_def by blast
  have a: "\<not> a_AuthRequired ?a" "h_ClientName ?h = name" by (simp_all add: server_ack_def client_hello_def)
  have client: "clientHandshake hmac cfg name \<lparr>r_data = framed d2 @ ys, r_end = e\<rparr> wc =
      (Inr True, \<lparr>r_data = ys, r_end = e\<rparr>, put_out d wc)" for ys e
    using ack_received [OF wire(1) p p2 c(2), of "\<lparr>r_data = framed d2 @ ys, r_end = e\<rparr>" ys wc] assms(2) a(1) c(4) by simp
  have "server_admit hmac server rand (Some acc) ?h r ws st = (Inr (name, negotiated cfg server), r, put_out d2 ws, st')" for r
    using wire(2) assms(3,4) c(4) p2 same_wire_codec [OF wire(1)]
    by (simp add: server_admit_def c(3) a(2) run_accept_def writeHelloAck_def handshake_send_eq)
  then have "serverHandshake hmac server rand (Some acc) \<lparr>r_data = framed d @ xs, r_end = e\<rparr> ws st =
      (Inr (name, negotiated cfg server), \<lparr>r_data = xs, r_end = e\<rparr>, put_out d2 ws, st')" for xs e
    by (simp add: hello_received [OF wire(1) p c(1)])
  with client have "conversation hmac cfg server name rand acc wc ws st (framed d) (framed d2) (Inr True)
      (Inr (name, negotiated cfg server)) st'" by (simp add: conversation_def put_out_def)
  then show ?thesis by blast
qed

text \<open>With authentication, up to the last frame of the server: \<open>t\<close> and \<open>p4\<close> are its type and payload.\<close>

lemma conversation_signed:
  assumes "compatible hmac cfg server name rand (Some c)" "w_script wc = []" "w_script ws = []"
    and "handshake_data server t p4 = Inr d4" "handshake_type t"
  obtains C S d2 where
    "\<And>ys e. clientHandshake hmac cfg name \<lparr>r_data = S @ ys, r_end = e\<rparr> wc =
       (case t of
          FrameAuthAck \<Rightarrow>
            (case UnmarshalAuthAck (reg_codec cfg) p4 of
               Inl x \<Rightarrow> Inl (Errorf_prefix ''decode auth ack'' x)
             | Inr aa \<Rightarrow> if \<not> aa_OK aa then Inl (Sentinel ErrAuthentication) else Inr True)
        | FrameError \<Rightarrow> Inl (handshakeError cfg (handshake_frame FrameError p4))
        | t \<Rightarrow> Inl (Errorf_suffix ErrProtocol (''expected auth_ack, got '' @ FrameType_String t)),
        \<lparr>r_data = ys, r_end = e\<rparr>, wc\<lparr>w_out := w_out wc @ C\<rparr>)"
    "\<And>xs e. serverHandshake hmac server rand (Some acc) \<lparr>r_data = C @ xs, r_end = e\<rparr> ws st =
       (case run_accept server (Some acc) name (negotiated cfg server) True (put_out d2 ws) st of
          (Some x, w, st) \<Rightarrow> (Inl x, \<lparr>r_data = xs, r_end = e\<rparr>, w, st)
        | (None, w, st) \<Rightarrow>
            (case writeAuthAck server w of
               (Some x, w) \<Rightarrow> (Inl x, \<lparr>r_data = xs, r_end = e\<rparr>, w, st)
             | (None, w) \<Rightarrow> (Inr (name, negotiated cfg server), \<lparr>r_data = xs, r_end = e\<rparr>, w, st)))"
    "put_out d4 (put_out d2 ws) = ws\<lparr>w_out := w_out ws @ S\<rparr>"
proof -
  let ?h = "client_hello cfg name" let ?a = "server_ack server ?h (Some c)"
  let ?q = "signed_request hmac cfg name ?a"
  note k = compatible_checks [OF assms(1)]
  have wire: "same_wire cfg server" "enabledAuth (cf_auth server)" "cf_auth cfg = cf_auth server" "fst (auth_challenge rand) = Inr c"
    using assms(1) by (simp_all add: compatible_def)
  obtain rand' where ch: "auth_challenge rand = (Inr c, rand')" using wire(4) by (metis prod.collapse)
  have ne: "c \<noteq> []" using auth_challenge_length [OF ch] by auto
  obtain p d where p: "MarshalHello (reg_codec cfg) ?h = Inr p" "handshake_data cfg FrameHello p = Inr d"
    using assms(1) fits_obtain unfolding compatible_def by blast
  obtain p2 d2 where p2: "MarshalHelloAck (reg_codec cfg) ?a = Inr p2" "handshake_data server FrameHelloAck p2 = Inr d2"
    using assms(1) fits_obtain unfolding compatible_def by blast
  have "fits cfg FrameAuth (MarshalAuthRequest (reg_codec cfg) ?q)" using assms(1) by (simp add: compatible_def)
  with fits_obtain obtain p3 d3 where p3: "MarshalAuthRequest (reg_codec cfg) ?q = Inr p3" "handshake_data cfg FrameAuth p3 = Inr d3"
    by metis
  have a: "a_AuthRequired ?a" "a_AuthMethod ?a = auth_method (cf_auth cfg)" "a_AuthChallenge ?a \<noteq> []" "h_ClientName ?h = name"
    using wire(3) ne by (simp_all add: server_ack_def client_hello_def)
  have en: "enabledAuth (cf_auth cfg)" and sc: "w_script (put_out d wc) = []" using wire(2,3) assms(2) by simp_all
  have f: "handshake_recv cfg \<lparr>r_data = framed d4 @ ys, r_end = e\<rparr> = (Inr (handshake_frame t p4), \<lparr>r_data = ys, r_end = e\<rparr>)"
    for ys e by (simp add: handshake_recv_sent [OF same_wire_sym [OF wire(1)] assms(4,5)])
  have client: "clientHandshake hmac cfg name \<lparr>r_data = (framed d2 @ framed d4) @ ys, r_end = e\<rparr> wc =
      (case clientAuth hmac cfg name ?a \<lparr>r_data = framed d4 @ ys, r_end = e\<rparr> (put_out d wc) of
         (Some e, r, w) \<Rightarrow> (Inl e, r, w) | (None, r, w) \<Rightarrow> (Inr True, r, w))" for ys e
    using ack_received [OF wire(1) p p2 k(2), of "\<lparr>r_data = (framed d2 @ framed d4) @ ys, r_end = e\<rparr>" "framed d4 @ ys" wc]
      assms(2) a(1) k(4) by (auto split: prod.splits option.splits)
  have "readAuth hmac server ?h c [capabilityStreamCredit] \<lparr>r_data = framed d3 @ xs, r_end = e\<rparr> w =
      (None, \<lparr>r_data = xs, r_end = e\<rparr>, w)" for w xs e
    using auth_received [OF wire(1) p3, of "\<lparr>r_data = framed d3 @ xs, r_end = e\<rparr>" xs hmac c ?h "[capabilityStreamCredit]"]
      wire(3) same_wire_codec [OF wire(1)] by (simp add: signed_request_def auth_verify_def server_ack_def client_hello_def)
  moreover have "serverHandshake hmac server rand (Some acc) \<lparr>r_data = (framed d @ framed d3) @ xs, r_end = e\<rparr> ws st =
      server_admit hmac server rand (Some acc) ?h \<lparr>r_data = framed d3 @ xs, r_end = e\<rparr> ws st" for xs e
    by (simp add: hello_received [OF wire(1) p k(1)])
  ultimately have srv: "serverHandshake hmac server rand (Some acc) \<lparr>r_data = (framed d @ framed d3) @ xs, r_end = e\<rparr> ws st =
       (case run_accept server (Some acc) name (negotiated cfg server) True (put_out d2 ws) st of
          (Some x, w, st) \<Rightarrow> (Inl x, \<lparr>r_data = xs, r_end = e\<rparr>, w, st)
        | (None, w, st) \<Rightarrow>
            (case writeAuthAck server w of
               (Some x, w) \<Rightarrow> (Inl x, \<lparr>r_data = xs, r_end = e\<rparr>, w, st)
             | (None, w) \<Rightarrow> (Inr (name, negotiated cfg server), \<lparr>r_data = xs, r_end = e\<rparr>, w, st)))" for xs e
    using wire(2) assms(3) k(4) p2 ch same_wire_codec [OF wire(1)]
    unfolding server_admit_def Let_def k(3) a(4) by (simp add: writeHelloAck_def handshake_send_eq)
  show thesis
    by (rule that [OF _ srv put_out_two])
      (use client assms(5) f en sc a(2,3) p3 in \<open>auto simp: clientAuth_def handshake_send_eq put_out_two
        signed_request_def [symmetric] handshake_type_def split: FrameType.splits sum.splits\<close>)
qed

lemma conversation_exists:
  assumes "compatible hmac cfg server name rand ch" "w_script wc = []" "w_script ws = []"
    and "acc name (negotiated cfg server) True st = (None, st')"
  shows "\<exists>C S. conversation hmac cfg server name rand acc wc ws st C S (Inr True) (Inr (name, negotiated cfg server)) st'"
proof (cases ch)
  case None
  with assms show ?thesis by (simp add: conversation_plain)
next
  case (Some c)
  with assms(1) have wire: "same_wire cfg server" and "fits server FrameAuthAck (MarshalAuthAck (reg_codec cfg) \<lparr>aa_OK = True\<rparr>)"
    by (simp_all add: compatible_def)
  from fits_obtain [OF this(2)] obtain p4 d4 where p4: "MarshalAuthAck (reg_codec cfg) \<lparr>aa_OK = True\<rparr> = Inr p4"
    "handshake_data server FrameAuthAck p4 = Inr d4" by metis
  note un = codec_lawfulD(5) [OF same_wire_lawful [OF wire] p4(1)]
  have ack: "w_script w = [] \<Longrightarrow> writeAuthAck server w = (None, put_out d4 w)" for w
    using p4 same_wire_codec [OF wire] by (simp add: writeAuthAck_def handshake_send_eq)
  show ?thesis
    by (rule conversation_signed [OF assms(1) [unfolded Some] assms(2,3) p4(2), where acc = acc and st = st])
      (use assms(3,4) un ack in \<open>auto simp: handshake_type_def conversation_def run_accept_def\<close>)
qed

text \<open>C21. Compatible sides always connect. There are byte sequences C and S such that the client
  writes C and succeeds when it reads S, and the server writes S and succeeds when it reads C, provided
  the callback admits the connection; both stop right after the handshake, so that nothing of what
  follows is lost, and both know the same name and compressor and use stream credit. This covers a
  server without and with a shared secret.\<close>

theorem handshake_completes:
  assumes "compatible hmac cfg server name rand ch" "w_script wc = []" "w_script ws = []"
    and "acc name (negotiated cfg server) True st = (None, st')"
  shows "\<exists>C S. conversation hmac cfg server name rand acc wc ws st C S (Inr True) (Inr (name, negotiated cfg server)) st'"
  using assms by (rule conversation_exists)

definition peer_error :: "gerror \<Rightarrow> RemoteError" where
  "peer_error err =
     NewRemoteError (if errors_Is err ErrPeerConnected then ErrorCodePeerConnected
       else if errors_Is err ErrPeerIdentityRequired \<or> errors_Is err ErrPeerSelfConnection then ErrorCodeUnauthorized
       else ErrorCodeUnavailable) (error_text err) []"

definition refusal_class :: "gerror \<Rightarrow> sentinel" where
  "refusal_class err =
     (if errors_Is err ErrPeerConnected then ErrPeerConnected
      else if errors_Is err ErrPeerIdentityRequired \<or> errors_Is err ErrPeerSelfConnection then ErrAuthentication
      else ErrUnavailable)"

lemma writePeerHandshakeError_sends:
  assumes "MarshalRemoteError (reg_codec cfg) (peer_error err) = Inr p" "handshake_data cfg FrameError p = Inr d" "w_script w = []"
  shows "writePeerHandshakeError cfg err w = (None, put_out d w)"
  using assms by (simp add: writePeerHandshakeError_def peer_error_def [symmetric] writeHandshakeError_def handshake_send_eq)

lemma handshakeError_class:
  assumes "codec_lawful (reg_codec cfg)" "MarshalRemoteError (reg_codec cfg) (peer_error err) = Inr p"
  shows "errors_Is (handshakeError cfg (handshake_frame FrameError p)) (refusal_class err)"
  using codec_lawfulD(6) [OF assms]
  by (auto simp: handshakeError_def peer_error_def refusal_class_def NewRemoteError_def ErrorCodePeerConnected_def
      ErrorCodeUnauthorized_def ErrorCodeUnavailable_def Errorf_suffix_def)

text \<open>C23. A refusal reaches the dialing side with its reason. If the callback of the server refuses a
  compatible client, then the server fails with that error, the client receives the error frame in place
  of the last acknowledgement and fails too, and its error is of the class that stands for the reason: the
  peer is already connected; the identity is missing or the server's own, which counts as a failed
  authentication; or the server is unavailable.\<close>

theorem handshake_refused:
  assumes "compatible hmac cfg server name rand ch" "w_script wc = []" "w_script ws = []"
    and "acc name (negotiated cfg server) True st = (Some err, st')"
    and "fits server FrameError (MarshalRemoteError (reg_codec cfg) (peer_error err))"
  shows "\<exists>C S x. conversation hmac cfg server name rand acc wc ws st C S (Inl x) (Inl err) st' \<and> errors_Is x (refusal_class err)"
proof -
  have wire: "same_wire cfg server" using assms(1) by (simp add: compatible_def)
  obtain p d where p: "MarshalRemoteError (reg_codec cfg) (peer_error err) = Inr p" "handshake_data server FrameError p = Inr d"
    using fits_obtain [OF assms(5)] by metis
  have refuse: "run_accept server (Some acc) name (negotiated cfg server) True w st = (Some err, put_out d w, st')"
    if "w_script w = []" for w
    using that assms(4) p same_wire_codec [OF wire] writePeerHandshakeError_sends [of server err p d w]
    by (simp add: run_accept_def)
  let ?x = "handshakeError cfg (handshake_frame FrameError p)"
  have "\<exists>C S. conversation hmac cfg server name rand acc wc ws st C S (Inl ?x) (Inl err) st'"
  proof (cases ch)
    case None
    let ?h = "client_hello cfg name"
    note c = compatible_checks [OF assms(1)]
    have name: "h_ClientName ?h = name" by (simp add: client_hello_def)
    from assms(1) None obtain q d1 where q: "MarshalHello (reg_codec cfg) ?h = Inr q" "handshake_data cfg FrameHello q = Inr d1"
      using fits_obtain unfolding compatible_def by blast
    have "server_admit hmac server rand (Some acc) ?h r ws st = (Inl err, r, put_out d ws, st')" for r
      using assms(1,3) None refuse c(4) name
      unfolding server_admit_def Let_def c(3) name by (simp add: compatible_def)
    then have "conversation hmac cfg server name rand acc wc ws st (framed d1) (framed d) (Inl ?x) (Inl err) st'"
      by (simp add: conversation_def put_out_def hello_refused [OF wire q p _ assms(2)] hello_received [OF wire q c(1)])
    then show ?thesis by blast
  next
    case (Some c)
    show ?thesis
      by (rule conversation_signed [OF assms(1) [unfolded Some] assms(2,3) p(2), where acc = acc and st = st])
        (use assms(3) refuse in \<open>auto simp: handshake_type_def conversation_def\<close>)
  qed
  with handshakeError_class [OF same_wire_lawful [OF wire] p(1)] show ?thesis by blast
qed

subsection \<open>Authentication\<close>

text \<open>What the bytes of the peer must contain: a hello, then a signature over the challenge that this
  handshake drew, made with the server's secret for that hello.\<close>

definition verified_peer :: "(bytes \<Rightarrow> bytes \<Rightarrow> bytes) \<Rightarrow> ('v, 'c) Config_scheme \<Rightarrow> Reader \<Rightarrow> Reader \<Rightarrow> bool" where
  "verified_peer hmac server rand r =
     (case handshake_recv server r of
        (Inl _, _) \<Rightarrow> False
      | (Inr f, r) \<Rightarrow>
          (case (UnmarshalHello (reg_codec server) (Payload f), fst (auth_challenge rand), handshake_recv server r) of
             (Inr h, Inr challenge, Inr g, _) \<Rightarrow>
               (case UnmarshalAuthRequest (reg_codec server) (Payload g) of
                  Inl _ \<Rightarrow> False
                | Inr q \<Rightarrow>
                    Type f = FrameHello \<and> check_hello server h = None \<and> Type g = FrameAuth \<and>
                    ar_Signature q = auth_sign hmac (cf_auth server) challenge ProtocolVersion (codec_Name (reg_codec server))
                      (h_ClientName h)
                      (if capabilityStreamCredit \<in> set (h_Capabilities h) then [capabilityStreamCredit] else []))
           | _ \<Rightarrow> False))"

lemma check_hello_None:
  "check_hello cfg h = None \<Longrightarrow> h_ProtocolVersion h = ProtocolVersion \<and> h_Codec h = codec_Name (reg_codec cfg)"
  by (simp add: check_hello_def split: if_splits)

lemma readAuth_refuses:
  assumes "\<not> verified_peer hmac server rand r"
    and h: "handshake_recv server r = (Inr f, r1)" "Type f = FrameHello" "UnmarshalHello (reg_codec server) (Payload f) = Inr h"
      "check_hello server h = None" and c: "auth_challenge rand = (Inr c, rand')"
  shows "\<exists>e r2 w2. readAuth hmac server h c (a_Capabilities (server_ack server h (Some c))) r1 w = (Some e, r2, w2)"
proof (rule ccontr)
  assume "\<not> ?thesis"
  then obtain r2 w2 where "readAuth hmac server h c (a_Capabilities (server_ack server h (Some c))) r1 w = (None, r2, w2)"
    by (metis option.exhaust prod_cases3)
  then obtain g q where "handshake_recv server r1 = (Inr g, r2)" "Type g = FrameAuth"
    "UnmarshalAuthRequest (reg_codec server) (Payload g) = Inr q"
    "auth_verify hmac (cf_auth server) c (h_ProtocolVersion h) (h_Codec h) (h_ClientName h) (ar_Signature q)
       (a_Capabilities (server_ack server h (Some c)))" by (elim readAuth_None)
  with h c check_hello_None [OF h(4)] have "verified_peer hmac server rand r"
    by (simp add: verified_peer_def auth_verify_def server_ack_def)
  with assms(1) show False by simp
qed

lemma server_admit_unverified:
  assumes "enabledAuth (cf_auth server)"
    and "\<And>c rand' w. auth_challenge rand = (Inr c, rand') \<Longrightarrow>
      \<exists>e r2 w2. readAuth hmac server h c (a_Capabilities (server_ack server h (Some c))) r w = (Some e, r2, w2)"
    and "server_admit hmac server rand accept h r w st = (res, r', w', st')"
  shows "isl res \<and> st' = st"
proof (cases "auth_challenge rand")
  case (Pair x rand')
  show ?thesis
  proof (cases x)
    case (Inl e)
    with assms(1,3) Pair show ?thesis by (auto simp: server_admit_def Let_def)
  next
    case (Inr c)
    obtain oe w1 where wa: "writeHelloAck server (server_ack server h (Some c)) w = (oe, w1)" by fastforce
    from assms(2) [of c rand' w1] Pair Inr obtain e r2 w2 where
      "readAuth hmac server h c (a_Capabilities (server_ack server h (Some c))) r w1 = (Some e, r2, w2)" by auto
    with Pair Inr assms(1,3) wa show ?thesis
      by (cases oe) (auto simp: server_admit_def Let_def)
  qed
qed

text \<open>C22. Nobody is admitted without proof of the secret. With authentication enabled, whatever bytes
  arrive: unless they hold a valid signature over the challenge drawn for this very handshake, the
  handshake fails and the callback that admits a connection has not run (whatever the callback does to the
  state, the state is unchanged).\<close>

theorem serverHandshake_authenticates:
  assumes "enabledAuth (cf_auth server)" "\<not> verified_peer hmac server rand r"
    and "serverHandshake hmac server rand accept r w st = (res, r', w', st')"
  shows "isl res \<and> st' = st"
proof -
  have "isl res \<and> st' = st"
    if h: "handshake_recv server r = (Inr f, r1)" "Type f = FrameHello" "UnmarshalHello (reg_codec server) (Payload f) = Inr h"
      "check_hello server h = None" and s: "server_admit hmac server rand accept h r1 w st = (res, r', w', st')" for f r1 h
    by (rule server_admit_unverified [OF assms(1) _ s]) (rule readAuth_refuses [OF assms(2) h])
  with assms(3) show ?thesis
    by (auto simp: serverHandshake_def split: sum.splits prod.splits option.splits if_splits)
qed

subsection \<open>Serving a connection\<close>

text \<open>\<^verbatim>\<open>serveConn\<close>: the connection is registered, negotiated, announced, read until it fails, and
  closed. The callbacks \<^verbatim>\<open>onConnect\<close> and \<^verbatim>\<open>onDisconnect\<close> are recorded where they are called. What the
  source asks of its peer manager is a parameter (\<open>None\<close> where the server has none), with a state of type
  \<open>'p\<close>. Handlers, closing and calls of the application act on the connection while it is served; their
  interleavings are the runs of \<open>conn_run\<close>.\<close>

record ('v, 'p) peer_hooks =
  ph_acceptInbound :: "'v Conn \<Rightarrow> 'p \<Rightarrow> gerror option \<times> 'p"
  ph_connected :: "'v Conn \<Rightarrow> 'p \<Rightarrow> gerror option \<times> 'p"
  ph_disconnected :: "'v Conn \<Rightarrow> 'p \<Rightarrow> 'p"

datatype lifecycle = OnConnect | OnDisconnect | ConnEvents "event list"

definition accept_conn :: "('v, 'p) peer_hooks option \<Rightarrow> ('v Conn \<times> 'p) acceptor" where
  "accept_conn hooks clientName compressor flowControl st =
     (case st of (c, p) \<Rightarrow>
        (let c = c\<lparr>c_clientName := clientName, e_compressor := compressor, c_flowControl := flowControl\<rparr> in
         case hooks of
           None \<Rightarrow> (None, c, p)
         | Some h \<Rightarrow> (case ph_acceptInbound h c p of (err, p) \<Rightarrow> (err, c, p))))"

definition peer_gone :: "('v, 'p) peer_hooks option \<Rightarrow> 'v Conn \<Rightarrow> 'p \<Rightarrow> 'p" where
  "peer_gone hooks c p = (case hooks of None \<Rightarrow> p | Some h \<Rightarrow> ph_disconnected h c p)"

definition serve_negotiated ::
  "('v, 'c) Config_scheme \<Rightarrow> ('v, 'p) peer_hooks option \<Rightarrow> Reader \<Rightarrow> 'v Conn \<Rightarrow> 'p \<Rightarrow> 'v Conn \<times> lifecycle list \<times> 'p" where
  "serve_negotiated server hooks r c p =
     (let (err, p) = (case hooks of None \<Rightarrow> (None, p) | Some h \<Rightarrow> ph_connected h c p) in
      if err \<noteq> None
      then (let p = peer_gone hooks c p; (c, evs) = Conn_close c in (c, [ConnEvents evs], p))
      else
        (let c = c\<lparr>c_ready := True\<rparr>;
             (c, evs) = Conn_readLoop server r c;
             p = peer_gone hooks c p;
             (c, evs') = Conn_close c
         in (c, [OnConnect, ConnEvents evs, OnDisconnect, ConnEvents evs'], p)))"

definition serveConn ::
  "(bytes \<Rightarrow> bytes \<Rightarrow> bytes) \<Rightarrow> Reader \<Rightarrow> ('v, 'p) peer_hooks option \<Rightarrow> nat \<Rightarrow> u64 \<Rightarrow> Reader \<Rightarrow> Writer \<Rightarrow> 'v Server \<Rightarrow> 'p \<Rightarrow>
   'v Conn \<times> lifecycle list \<times> 'v Server \<times> 'p" where
  "serveConn hmac rand hooks i counter r w s p =
     (let c = newConn s w counter in
      case addConn i c s of
        (False, s) \<Rightarrow> (case Conn_close c of (c, evs) \<Rightarrow> (c, [ConnEvents evs], s, p))
      | (True, s) \<Rightarrow>
          (case serverHandshake hmac s rand (Some (accept_conn hooks)) r w (c, p) of
             (Inl err, r, w, c, p) \<Rightarrow>
               (let c = c\<lparr>e_writer := w\<rparr>; p = peer_gone hooks c p; (c, evs) = Conn_close c
                in (c, [ConnEvents evs], removeConn i s, p))
           | (Inr _, r, w, c, p) \<Rightarrow>
               (case serve_negotiated s hooks r (c\<lparr>e_writer := w\<rparr>) p of
                  (c, evs, p) \<Rightarrow> (c, evs, removeConn i s, p))))"

lemma Conn_closeWithError_extension: "Conn_closeWithError err c = (c', evs) \<Longrightarrow> extension c' = extension c"
  by (auto simp: Conn_closeWithError_fail_all dest: fail_all_keeps(3) split: if_splits prod.splits)

lemma Conn_handleWriteError_extension: "Conn_handleWriteError err c = (c', evs) \<Longrightarrow> extension c' = extension c"
  by (auto simp: Conn_handleWriteError_def dest: Conn_closeWithError_extension split: if_splits)

text \<open>Nothing that runs on a connection changes its name, its negotiated settings or its identity.\<close>

interpretation conn_named: endpoint_link "conn_link server" "cf_backpressure server" "\<lambda>e. extension e = x"
proof unfold_locales
  show "same_tables e e' \<and> (extension e = x \<longrightarrow> extension e' = x)" if "lk_newID (conn_link server) e = (i, e')" for e i e'
    using that by (auto simp: conn_link_def Conn_nextRequestID_def same_tables_def)
  show "same_tables e e' \<and> (extension e = x \<longrightarrow> extension e' = x) \<and> (\<forall>i. delivered i evs = 0)"
    if "lk_write (conn_link server) f e = (r, e', evs)" for f e r e' evs
    using conn.writing [OF that] that
    by (auto simp: conn_link_def Conn_write_def Let_def split: if_splits prod.splits)
  show "endpoint_ok (cf_backpressure server) e' \<and> extension e' = x \<and> answered e [] evs e' \<and> (e_closed e \<longrightarrow> e_closed e')"
    if "lk_onWriteError (conn_link server) err e = (e', evs)" "endpoint_ok (cf_backpressure server) e" "extension e = x"
    for err e e' evs
    using conn.failed [OF that(1,2)] Conn_handleWriteError_extension [of err e e' evs] that by (simp add: conn_link_def)
  show "endpoint_ok (cf_backpressure server) e' \<and> extension e' = x \<and> e_pending e' = e_pending e \<and> e_closed e' = e_closed e"
    if "lk_track (conn_link server) i k e = (ok, e')" "endpoint_ok (cf_backpressure server) e" "extension e = x"
    for i k e ok e'
    using conn.track [OF that(1,2)] that by (auto simp: conn_link_def Conn_trackRequest_def split: if_splits)
  show "endpoint_ok (cf_backpressure server) e' \<and> extension e' = x \<and> e_pending e' = e_pending e \<and> e_closed e' = e_closed e"
    if "lk_untrack (conn_link server) i e = e'" "endpoint_ok (cf_backpressure server) e" "extension e = x" for i e e'
    using conn.untrack [OF that(1,2)] that by (auto simp: conn_link_def Conn_untrackRequest_def)
qed simp

lemma Conn_readLoop_kept:
  "Conn_readLoop server r c = (c', evs) \<Longrightarrow> endpoint_ok (cf_backpressure server) c \<Longrightarrow>
   endpoint_ok (cf_backpressure server) c' \<and> extension c' = extension c"
proof (induction server r c arbitrary: c' evs rule: Conn_readLoop.induct)
  case (1 server r c)
  obtain x r1 where rd: "readFrameWithCompression (cf_mc server) (cf_lib server) r (cf_maxFrameSize server)
      (Some (reg_codec server)) (e_compressor c) = (x, r1)" by fastforce
  show ?case
  proof (cases x)
    case (Inl err)
    with "1.prems" rd Conn_closeWithError_kept Conn_closeWithError_extension show ?thesis
      by (fastforce simp: Conn_readLoop.simps [of server r c] kept_def)
  next
    case (Inr f)
    obtain b c1 ev where d: "Conn_dispatch server f c = (b, c1, ev)" by (metis prod_cases3)
    have k: "endpoint_ok (cf_backpressure server) c1 \<and> extension c1 = extension c"
      using conn_named.quiet_kept [OF dispatch_steps [OF d [unfolded Conn_dispatch_def]] "1.prems"(2) refl] by (simp add: kept_def)
    show ?thesis
    proof (cases b)
      case True
      obtain c2 ev2 where "Conn_readLoop server r1 c1 = (c2, ev2)" by fastforce
      with "1.IH" [OF rd [symmetric] Inr d [symmetric] _ refl] k True "1.prems" rd Inr d show ?thesis
        by (auto simp: Conn_readLoop.simps [of server r c])
    next
      case False
      with k "1.prems" rd Inr d show ?thesis by (simp add: Conn_readLoop.simps [of server r c])
    qed
  qed
qed

definition conn_ended :: "'v Conn \<Rightarrow> bool" where
  "conn_ended c \<longleftrightarrow> e_closed c \<and> e_pending c = [] \<and> e_streams c = [] \<and> e_requests c = []"

lemma Conn_close_ends:
  assumes "Conn_close c = (c', evs)" "endpoint_ok bp c"
  shows "conn_ended c' \<and> extension c' = extension c"
  using Conn_closeWithError_kept [OF assms(1) [unfolded Conn_close_def] assms(2)]
    Conn_closeWithError_extension [OF assms(1) [unfolded Conn_close_def]]
  by (simp add: conn_ended_def kept_def endpoint_ok_def closed_ok_def)

lemma endpoint_ok_writer [simp]: "endpoint_ok bp (e\<lparr>e_writer := w\<rparr>) = endpoint_ok bp e"
  by (simp add: endpoint_ok_def tables_ok_def closed_ok_def streams_ok_def limits_ok_def)

lemma endpoint_ok_ready [simp]: "endpoint_ok bp (c\<lparr>c_ready := b\<rparr>) = endpoint_ok bp c" for c :: "'v Conn"
  by (simp add: endpoint_ok_def tables_ok_def closed_ok_def streams_ok_def limits_ok_def)

lemma conn_fields:
  fixes c c' :: "'v Conn"
  assumes "extension c' = extension c"
  shows "c_ready c' = c_ready c" "c_clientName c' = c_clientName c" "c_flowControl c' = c_flowControl c"
    "c_generation c' = c_generation c"
  using assms by (cases c; cases c'; simp)+

abbreviation announcements :: "lifecycle list \<Rightarrow> lifecycle list" where
  "announcements \<equiv> filter (\<lambda>e. e = OnConnect \<or> e = OnDisconnect)"

lemma serve_negotiated_ends:
  assumes "serve_negotiated server hooks r c p = (c', evs, p')" "endpoint_ok (cf_backpressure server) c" "\<not> c_ready c"
  shows "conn_ended c' \<and> c_clientName c' = c_clientName c \<and> c_flowControl c' = c_flowControl c \<and>
    c_generation c' = c_generation c \<and> announcements evs = (if c_ready c' then [OnConnect, OnDisconnect] else []) \<and>
    (\<forall>h. hooks = Some h \<longrightarrow> (\<exists>c0 p0. c_generation c0 = c_generation c \<and> p' = ph_disconnected h c0 p0))"
proof -
  obtain err p1 where h: "(case hooks of None \<Rightarrow> (None, p) | Some h \<Rightarrow> ph_connected h c p) = (err, p1)" by fastforce
  show ?thesis
  proof (cases err)
    case (Some x)
    obtain c1 ev where "Conn_close c = (c1, ev)" by fastforce
    with assms h Some Conn_close_ends [OF this assms(2)] conn_fields [of c1 c] show ?thesis
      by (auto simp: serve_negotiated_def peer_gone_def; blast)
  next
    case None
    let ?c = "c\<lparr>c_ready := True\<rparr>"
    obtain c1 ev where l: "Conn_readLoop server r ?c = (c1, ev)" by fastforce
    obtain c2 ev2 where cl: "Conn_close c1 = (c2, ev2)" by fastforce
    from Conn_readLoop_kept [OF l] assms(2) have k: "endpoint_ok (cf_backpressure server) c1" "extension c1 = extension ?c" by simp_all
    from Conn_close_ends [OF cl k(1)] conn_fields [OF k(2)] conn_fields [of c2 c1] assms(1) h None l cl show ?thesis
      by (auto simp: serve_negotiated_def peer_gone_def; metis)
  qed
qed

lemma serverHandshake_accepting:
  assumes "serverHandshake hmac server rand (Some acc) r w st = (res, r', w', st')"
  shows "st' = st \<and> isl res \<or>
    (\<exists>n z fl err. acc n z fl st = (err, st') \<and> (\<forall>v. res = Inr v \<longrightarrow> err = None \<and> v = (n, z)))"
  using assms
  by (auto simp: serverHandshake_def server_admit_def run_accept_def Let_def
      split: sum.splits prod.splits option.splits if_splits)

lemma accept_conn_result:
  assumes "accept_conn hooks n z fl (c, p) = (err, c', p')" "endpoint_ok bp c"
  shows "endpoint_ok bp c' \<and> c_clientName c' = n \<and> c_flowControl c' = fl \<and> c_generation c' = c_generation c \<and>
    c_ready c' = c_ready c"
  using assms same_tables_ok [of c "c\<lparr>c_clientName := n, e_compressor := z, c_flowControl := fl\<rparr>" bp]
  by (auto simp: accept_conn_def Let_def same_tables_def split: option.splits prod.splits)

text \<open>C24. The life of an accepted connection. Whatever bytes the peer sends, serving it comes to an end
  with the connection closed and its tables empty, and no longer registered, while the other
  connections of the server are the same. The two callbacks are called in order, once each, if the
  connection became ready, and not at all otherwise; it becomes ready only after a successful handshake,
  under the name that was negotiated. A peer manager hears of the disconnection on every path that told
  it, or could have told it, of the connection.\<close>

theorem serveConn_life:
  assumes "serveConn hmac rand hooks i counter r w s p = (c, evs, s', p')"
  shows "conn_ended c \<and> c_generation c = nextConnectionGeneration counter \<and>
    sv_conns s' = (if sv_shuttingDown s then sv_conns s else tbl_del i (sv_conns s)) \<and>
    announcements evs = (if c_ready c then [OnConnect, OnDisconnect] else []) \<and>
    (c_ready c \<longrightarrow> \<not> sv_shuttingDown s \<and>
      (\<exists>z r' w' st. serverHandshake hmac (snd (addConn i (newConn s w counter) s)) rand (Some (accept_conn hooks)) r w
         (newConn s w counter, p) = (Inr (c_clientName c, z), r', w', st))) \<and>
    (\<forall>h. hooks = Some h \<and> \<not> sv_shuttingDown s \<longrightarrow>
      (\<exists>c0 p0. c_generation c0 = c_generation c \<and> p' = ph_disconnected h c0 p0))"
proof (cases "sv_shuttingDown s")
  case True
  obtain c1 ev where "Conn_close (newConn s w counter) = (c1, ev)" by fastforce
  with True assms Conn_close_ends [OF this newConn_ok] conn_fields [of c1 "newConn s w counter"] show ?thesis
    by (auto simp: serveConn_def addConn_def Let_def newConn_def)
next
  case False
  let ?c = "newConn s w counter" let ?s = "s\<lparr>sv_conns := tbl_put i ?c (sv_conns s)\<rparr>"
  have add: "addConn i ?c s = (True, ?s)" using False by (simp add: addConn_def)
  have bp: "cf_backpressure ?s = cf_backpressure s" by simp
  have rm: "sv_conns (removeConn i ?s) = tbl_del i (sv_conns s)" by (simp add: removeConn_def tbl_del_def tbl_put_def)
  have new: "c_generation ?c = nextConnectionGeneration counter" "\<not> c_ready ?c" by (simp_all add: newConn_def)
  obtain res r1 w1 c1 p1 where h: "serverHandshake hmac ?s rand (Some (accept_conn hooks)) r w (?c, p) = (res, r1, w1, c1, p1)"
    by (metis prod_cases5)
  have st: "endpoint_ok (cf_backpressure s) c1 \<and> c_generation c1 = nextConnectionGeneration counter \<and> \<not> c_ready c1 \<and>
      (\<forall>v. res = Inr v \<longrightarrow> c_clientName c1 = fst v)"
    using serverHandshake_accepting [OF h] accept_conn_result [OF _ newConn_ok, of hooks _ _ _ s w counter p] new newConn_ok
    by (auto simp: isl_def)
  show ?thesis
  proof (cases res)
    case (Inl err)
    obtain c2 ev where cl: "Conn_close (c1\<lparr>e_writer := w1\<rparr>) = (c2, ev)" by fastforce
    from Inl st assms add h rm cl Conn_close_ends [OF cl, of "cf_backpressure s"] conn_fields [of c2 "c1\<lparr>e_writer := w1\<rparr>"]
    have "conn_ended c \<and> c_generation c = nextConnectionGeneration counter \<and> sv_conns s' = tbl_del i (sv_conns s) \<and>
        evs = [ConnEvents ev] \<and> \<not> c_ready c \<and> p' = peer_gone hooks (c1\<lparr>e_writer := w1\<rparr>) p1"
      by (auto simp: serveConn_def Let_def)
    moreover have "c_generation (c1\<lparr>e_writer := w1\<rparr>) = nextConnectionGeneration counter" using st by simp
    ultimately obtain cw where "c_generation cw = nextConnectionGeneration counter" "p' = peer_gone hooks cw p1"
      "conn_ended c \<and> c_generation c = nextConnectionGeneration counter \<and> sv_conns s' = tbl_del i (sv_conns s) \<and>
        evs = [ConnEvents ev] \<and> \<not> c_ready c" by metis
    then show ?thesis using False by (auto simp: peer_gone_def)
  next
    case (Inr v)
    obtain c2 ev p2 where n: "serve_negotiated ?s hooks r1 (c1\<lparr>e_writer := w1\<rparr>) p1 = (c2, ev, p2)" by (metis prod_cases3)
    from assms add h Inr n rm have r: "c = c2" "evs = ev" "sv_conns s' = tbl_del i (sv_conns s)" "p' = p2"
      by (auto simp: serveConn_def Let_def)
    from serve_negotiated_ends [OF n] st bp have e: "conn_ended c2" "c_clientName c2 = c_clientName c1"
      "c_generation c2 = nextConnectionGeneration counter" "announcements ev = (if c_ready c2 then [OnConnect, OnDisconnect] else [])"
      "\<forall>h. hooks = Some h \<longrightarrow> (\<exists>c0 p0. c_generation c0 = nextConnectionGeneration counter \<and> p2 = ph_disconnected h c0 p0)"
      by simp_all
    have "res = Inr (c_clientName c2, snd v)" using Inr st e(2) by simp
    with h have "\<exists>z r' w' st. serverHandshake hmac ?s rand (Some (accept_conn hooks)) r w (?c, p) =
        (Inr (c_clientName c2, z), r', w', st)" by blast
    with e r False add show ?thesis by simp
  qed
qed

subsection \<open>What serving asks of a peer manager\<close>

text \<open>The contract of the three calls. \<open>held name g p\<close> says that the connection with generation \<open>g\<close> is
  admitted under \<open>name\<close> if at all, \<open>free g p\<close> that it is not admitted. It is enough for a server that has
  one to leave nothing admitted behind, whichever way a connection goes.\<close>

locale peer_service =
  fixes hooks :: "('v, 'p) peer_hooks" and held :: "string \<Rightarrow> u64 \<Rightarrow> 'p \<Rightarrow> bool" and free :: "u64 \<Rightarrow> 'p \<Rightarrow> bool"
  assumes free_held: "free g p \<Longrightarrow> held name g p"
    and accepting: "ph_acceptInbound hooks c p = (err, p') \<Longrightarrow> free (c_generation c) p \<Longrightarrow>
      held (c_clientName c) (c_generation c) p'"
    and connecting: "ph_connected hooks c p = (err, p') \<Longrightarrow> held (c_clientName c) (c_generation c) p \<Longrightarrow>
      held (c_clientName c) (c_generation c) p'"
    and disconnecting: "held (c_clientName c) (c_generation c) p \<Longrightarrow> free (c_generation c) (ph_disconnected hooks c p)"
begin

lemma negotiated_frees:
  assumes "serve_negotiated server (Some hooks) r c p = (c', evs, p')" "endpoint_ok (cf_backpressure server) c"
    "held (c_clientName c) (c_generation c) p"
  shows "free (c_generation c) p'"
proof -
  obtain err p1 where h: "ph_connected hooks c p = (err, p1)" by fastforce
  then have held: "held (c_clientName c) (c_generation c) p1" using assms(3) by (rule connecting)
  show ?thesis
  proof (cases err)
    case (Some x)
    with assms(1) h disconnecting [OF held] show ?thesis
      by (simp add: serve_negotiated_def peer_gone_def split: prod.splits)
  next
    case None
    obtain c1 ev where l: "Conn_readLoop server r (c\<lparr>c_ready := True\<rparr>) = (c1, ev)" by fastforce
    from Conn_readLoop_kept [OF l] assms(2) have "extension c1 = extension (c\<lparr>c_ready := True\<rparr>)" by simp
    from conn_fields [OF this] held disconnecting [of c1 p1] have "free (c_generation c) (ph_disconnected hooks c1 p1)" by simp
    with assms(1) h None l show ?thesis by (simp add: serve_negotiated_def peer_gone_def split: prod.splits)
  qed
qed

lemma handshake_holds:
  assumes "serverHandshake hmac server rand (Some (accept_conn (Some hooks))) r w (c, p) = (res, r', w', c', p')"
    "free (c_generation c) p"
  shows "held (c_clientName c') (c_generation c') p' \<and> c_generation c' = c_generation c"
proof -
  consider "c' = c" "p' = p" | n z fl err where "accept_conn (Some hooks) n z fl (c, p) = (err, c', p')"
    using serverHandshake_accepting [OF assms(1)] by blast
  then show ?thesis
  proof cases
    case 1
    with assms(2) show ?thesis by (simp add: free_held)
  next
    case (2 n z fl err)
    then have "ph_acceptInbound hooks c' p = (err, p')" "c_generation c' = c_generation c"
      by (auto simp: accept_conn_def Let_def split: prod.splits)
    with accepting [OF this(1)] assms(2) show ?thesis by simp
  qed
qed

lemma serving_frees:
  assumes "serveConn hmac rand (Some hooks) i counter r w s p = (c, evs, s', p')"
    "free (nextConnectionGeneration counter) p"
  shows "free (nextConnectionGeneration counter) p'"
proof (cases "sv_shuttingDown s")
  case True
  with assms show ?thesis by (auto simp: serveConn_def addConn_def Let_def split: prod.splits)
next
  case False
  let ?c = "newConn s w counter" let ?s = "s\<lparr>sv_conns := tbl_put i ?c (sv_conns s)\<rparr>"
  have add: "addConn i ?c s = (True, ?s)" using False by (simp add: addConn_def)
  have g: "c_generation ?c = nextConnectionGeneration counter" by (simp add: newConn_def)
  obtain res r1 w1 c1 p1 where
    h: "serverHandshake hmac ?s rand (Some (accept_conn (Some hooks))) r w (?c, p) = (res, r1, w1, c1, p1)"
    by (metis prod_cases5)
  have held: "held (c_clientName c1) (c_generation c1) p1" "c_generation c1 = nextConnectionGeneration counter"
    using handshake_holds [OF h] assms(2) g by auto
  show ?thesis
  proof (cases res)
    case (Inl err)
    with assms(1) add h have "p' = ph_disconnected hooks (c1\<lparr>e_writer := w1\<rparr>) p1"
      by (auto simp: serveConn_def Let_def peer_gone_def split: prod.splits)
    with held disconnecting [of "c1\<lparr>e_writer := w1\<rparr>" p1] show ?thesis by simp
  next
    case (Inr v)
    obtain c2 ev p2 where n: "serve_negotiated ?s (Some hooks) r1 (c1\<lparr>e_writer := w1\<rparr>) p1 = (c2, ev, p2)" by (metis prod_cases3)
    have "endpoint_ok (cf_backpressure s) c1"
      using serverHandshake_accepting [OF h] accept_conn_result [OF _ newConn_ok, of "Some hooks" _ _ _ s w counter p] newConn_ok
      by auto
    with negotiated_frees [OF n] held assms(1) add h Inr n show ?thesis by (auto simp: serveConn_def Let_def)
  qed
qed

end

subsection \<open>Witnesses\<close>

definition sampleSecret :: "bytes Config" where
  "sampleSecret = sampleConfig\<lparr>cf_auth := \<lparr>sharedSecret = [1, 2], auth_enabled = True\<rparr>\<rparr>"

definition sampleMac :: "bytes \<Rightarrow> bytes \<Rightarrow> bytes" where
  "sampleMac key m = take 3 (rev m) @ key"

definition sampleRandom :: Reader where
  "sampleRandom = \<lparr>r_data = replicate 32 7, r_end = Sentinel IoEOF\<rparr>"

lemma sampleSecret_wire: "same_wire sampleSecret sampleSecret"
  by (simp add: same_wire_def sampleSecret_def sampleConfig_def sampleCodec_lawful)

lemma sample_handshake_fits:
  "fits sampleSecret FrameHello (MarshalHello (reg_codec sampleSecret) (client_hello sampleSecret ''worker'')) \<and>
   fits sampleSecret FrameHelloAck (MarshalHelloAck (reg_codec sampleSecret)
     (server_ack sampleSecret (client_hello sampleSecret ''worker'') (Some (replicate 32 7)))) \<and>
   fits sampleSecret FrameAuth (MarshalAuthRequest (reg_codec sampleSecret) (signed_request sampleMac sampleSecret ''worker''
     (server_ack sampleSecret (client_hello sampleSecret ''worker'') (Some (replicate 32 7))))) \<and>
   fits sampleSecret FrameAuthAck (MarshalAuthAck (reg_codec sampleSecret) \<lparr>aa_OK = True\<rparr>) \<and>
   fits sampleSecret FrameError (MarshalRemoteError (reg_codec sampleSecret) (peer_error (Sentinel ErrPeerConnected)))"
  by code_simp

lemma sampleSecret_compatible: "compatible sampleMac sampleSecret sampleSecret ''worker'' sampleRandom (Some (replicate 32 7))"
proof -
  have "fst (auth_challenge sampleRandom) = Inr (replicate 32 7)"
    by (simp add: auth_challenge_def sampleRandom_def io_ReadFull_def)
  moreover have "cf_compressor sampleSecret = None" "enabledAuth (cf_auth sampleSecret)"
    by (simp_all add: sampleSecret_def sampleConfig_def enabledAuth_def)
  ultimately show ?thesis
    using sample_handshake_fits sampleSecret_wire by (simp add: compatible_def normalizeCompressor_def)
qed

lemma sampleSecret_negotiated: "negotiated sampleSecret sampleSecret = None"
  by (simp add: negotiated_def sampleSecret_def sampleConfig_def)

lemma emptyWriter_reliable: "w_script emptyWriter = []" "w_out emptyWriter = []"
  by (simp_all add: emptyWriter_def)

theorem handshake_completes_witness:
  "\<exists>C S. conversation sampleMac sampleSecret sampleSecret ''worker'' sampleRandom (\<lambda>n z fl st. (None, (n, fl) # st))
     emptyWriter emptyWriter [] C S (Inr True) (Inr (''worker'', None)) [(''worker'', True)]"
  using handshake_completes [OF sampleSecret_compatible emptyWriter_reliable(1) emptyWriter_reliable(1),
      of "\<lambda>n z fl st. (None, (n, fl) # st)" "[]" "[(''worker'', True)]"] sampleSecret_negotiated by simp

theorem handshake_refused_witness:
  "\<exists>C S x. conversation sampleMac sampleSecret sampleSecret ''worker'' sampleRandom
     (\<lambda>n z fl st. (Some (Sentinel ErrPeerConnected), st)) emptyWriter emptyWriter () C S
     (Inl x) (Inl (Sentinel ErrPeerConnected)) () \<and> errors_Is x ErrPeerConnected"
  using handshake_refused [OF sampleSecret_compatible emptyWriter_reliable(1) emptyWriter_reliable(1),
      of "\<lambda>n z fl st. (Some (Sentinel ErrPeerConnected), st)" "()" "Sentinel ErrPeerConnected" "()"] sample_handshake_fits
  by (simp add: refusal_class_def)

theorem handshake_agreement_witness:
  "\<exists>C S rc' rs' wc' ws' st'.
     clientHandshake sampleMac sampleSecret ''worker'' \<lparr>r_data = S, r_end = Sentinel IoEOF\<rparr> emptyWriter = (Inr True, rc', wc') \<and>
     serverHandshake sampleMac sampleSecret sampleRandom (Some (\<lambda>n z fl st. (None, (n, fl) # st)))
       \<lparr>r_data = C, r_end = Sentinel IoEOF\<rparr> emptyWriter [] = (Inr (''worker'', None), rs', ws', st') \<and> st' = [(''worker'', True)]"
proof -
  let ?acc = "\<lambda>n (z :: Compressor option) fl st. (None, (n, fl) # st)"
  obtain C S where cv: "conversation sampleMac sampleSecret sampleSecret ''worker'' sampleRandom ?acc emptyWriter emptyWriter [] C S
      (Inr True) (Inr (''worker'', None)) [(''worker'', True)]"
    using conversation_exists [OF sampleSecret_compatible emptyWriter_reliable(1) emptyWriter_reliable(1),
        of ?acc "[]" "[(''worker'', True)]"] sampleSecret_negotiated by auto
  have c: "clientHandshake sampleMac sampleSecret ''worker'' \<lparr>r_data = S, r_end = Sentinel IoEOF\<rparr> emptyWriter =
      (Inr True, \<lparr>r_data = [], r_end = Sentinel IoEOF\<rparr>, emptyWriter\<lparr>w_out := C\<rparr>)"
    using cv emptyWriter_reliable(2) unfolding conversation_def by (metis append_Nil append_Nil2)
  have s: "serverHandshake sampleMac sampleSecret sampleRandom (Some ?acc) \<lparr>r_data = C, r_end = Sentinel IoEOF\<rparr> emptyWriter [] =
      (Inr (''worker'', None), \<lparr>r_data = [], r_end = Sentinel IoEOF\<rparr>, emptyWriter\<lparr>w_out := S\<rparr>, [(''worker'', True)])"
    using cv emptyWriter_reliable(2) unfolding conversation_def by (metis append_Nil append_Nil2)
  have "?acc ''worker'' None True [] = (None, [(''worker'', True)])"
    using handshake_agreement [OF sampleSecret_wire emptyWriter_reliable(1) emptyWriter_reliable(1) c s, of "[]" "[]"]
      emptyWriter_reliable(2) by simp
  with c s show ?thesis by blast
qed

theorem serverHandshake_authenticates_witness:
  "snd (snd (snd (serverHandshake sampleMac sampleSecret sampleRandom (Some (\<lambda>n z fl st. (None, Suc st)))
     \<lparr>r_data = [0, 0], r_end = Sentinel IoEOF\<rparr> emptyWriter 0))) = 0"
proof -
  let ?r = "\<lparr>r_data = [0, 0], r_end = Sentinel IoEOF\<rparr>"
  have "enabledAuth (cf_auth sampleSecret)" by (simp add: sampleSecret_def enabledAuth_def)
  moreover have "\<not> verified_peer sampleMac sampleSecret sampleRandom ?r"
    by (simp add: verified_peer_def handshake_recv_def readFrame_def readFrameWithCompression_def io_ReadFull_def)
  ultimately show ?thesis
    using serverHandshake_authenticates [of sampleSecret sampleMac sampleRandom ?r _ emptyWriter 0]
    by (metis prod.collapse)
qed

theorem serveConn_life_witness:
  "conn_ended (fst (serveConn sampleMac sampleRandom (None :: (bytes, unit) peer_hooks option) 9 0
     \<lparr>r_data = [0, 0], r_end = Sentinel IoEOF\<rparr> emptyWriter sampleServer ()))"
proof -
  let ?h = "serveConn sampleMac sampleRandom (None :: (bytes, unit) peer_hooks option) 9 0
     \<lparr>r_data = [0, 0], r_end = Sentinel IoEOF\<rparr> emptyWriter sampleServer ()"
  obtain c evs s' p' where h: "?h = (c, evs, s', p')" by (metis prod_cases4)
  from serveConn_life [OF h] h show ?thesis by simp
qed

end
