(* ===== verification/Reconnect.thy ===== *)
theory Reconnect
  imports Handshake Complex_Main
begin

text \<open>
  Connecting and reconnecting (\<^verbatim>\<open>client.go\<close>): the timing options and their defaults, the delays between
  attempts, the first connection (\<^verbatim>\<open>Connect\<close>, \<^verbatim>\<open>connectUntilReady\<close>) and the background loop
  (\<^verbatim>\<open>reconnectLoop\<close>). A \<^verbatim>\<open>time.Duration\<close> is its count of nanoseconds, an \<open>int\<close> in the range of 64 bits.
  What the environment contributes is a list: for every attempt what the context was and what dialing and
  the handshake gave, and how the wait after a failed attempt ended. A loop on a list that runs out is still
  waiting, which is the result \<open>None\<close>.
\<close>

type_synonym duration = int

definition Millisecond :: duration where "Millisecond = 1000000"
definition Second :: duration where "Second = 1000 * Millisecond"

definition DefaultDialTimeout :: duration where "DefaultDialTimeout = 5 * Second"
definition DefaultWriteTimeout :: duration where "DefaultWriteTimeout = 10 * Second"
definition DefaultReconnectMinDelay :: duration where "DefaultReconnectMinDelay = 100 * Millisecond"
definition DefaultReconnectMaxDelay :: duration where "DefaultReconnectMaxDelay = 5 * Second"
definition DefaultPingInterval :: duration where "DefaultPingInterval = 10 * Second"
definition DefaultPingTimeout :: duration where "DefaultPingTimeout = 3 * Second"
definition DefaultHandshakeTimeout :: duration where "DefaultHandshakeTimeout = 5 * Second"

text \<open>The values of \<^verbatim>\<open>float64\<close> as far as comparisons tell them apart.\<close>

datatype float64 = NaN | NegInf | Finite rat | PosInf

definition DefaultReconnectJitter :: float64 where "DefaultReconnectJitter = Finite (1 / 5)"

subsection \<open>Options\<close>

definition normalizeDialTimeout :: "duration \<Rightarrow> duration" where
  "normalizeDialTimeout timeout = (if timeout < 0 then 0 else if timeout = 0 then DefaultDialTimeout else timeout)"

definition normalizeWriteTimeout :: "duration \<Rightarrow> duration" where
  "normalizeWriteTimeout timeout = (if timeout < 0 then 0 else if timeout = 0 then DefaultWriteTimeout else timeout)"

definition normalizeReconnectMinDelay :: "duration \<Rightarrow> duration" where
  "normalizeReconnectMinDelay delay = (if delay < 0 then 0 else if delay = 0 then DefaultReconnectMinDelay else delay)"

definition normalizeReconnectMaxDelay :: "duration \<Rightarrow> duration" where
  "normalizeReconnectMaxDelay delay = (if delay < 0 then 0 else if delay = 0 then DefaultReconnectMaxDelay else delay)"

definition normalizePingInterval :: "duration \<Rightarrow> duration" where
  "normalizePingInterval interval = (if interval < 0 then 0 else if interval = 0 then DefaultPingInterval else interval)"

definition normalizePingTimeout :: "duration \<Rightarrow> duration" where
  "normalizePingTimeout timeout = (if timeout < 0 then 0 else if timeout = 0 then DefaultPingTimeout else timeout)"

definition normalizeHandshakeTimeout :: "duration \<Rightarrow> duration" where
  "normalizeHandshakeTimeout timeout = (if timeout < 0 then 0 else if timeout = 0 then DefaultHandshakeTimeout else timeout)"

fun normalizeReconnectJitter :: "float64 \<Rightarrow> float64" where
  "normalizeReconnectJitter NaN = NaN"
| "normalizeReconnectJitter NegInf = Finite 0"
| "normalizeReconnectJitter PosInf = Finite 1"
| "normalizeReconnectJitter (Finite j) =
     (if j < 0 then Finite 0 else if j = 0 then DefaultReconnectJitter else if j > 1 then Finite 1 else Finite j)"

text \<open>The timing fields of \<^verbatim>\<open>ClientOptions\<close> and of the client \<^verbatim>\<open>NewClient\<close> builds from them.\<close>

record timing =
  t_handshakeTimeout :: duration
  t_dialTimeout :: duration
  t_writeTimeout :: duration
  t_reconnectMinDelay :: duration
  t_reconnectMaxDelay :: duration
  t_reconnectJitter :: float64
  t_pingInterval :: duration
  t_pingTimeout :: duration

definition NewClient_timing :: "timing \<Rightarrow> timing" where
  "NewClient_timing opts =
     \<lparr>t_handshakeTimeout = normalizeHandshakeTimeout (t_handshakeTimeout opts),
      t_dialTimeout = normalizeDialTimeout (t_dialTimeout opts),
      t_writeTimeout = normalizeWriteTimeout (t_writeTimeout opts),
      t_reconnectMinDelay = normalizeReconnectMinDelay (t_reconnectMinDelay opts),
      t_reconnectMaxDelay = normalizeReconnectMaxDelay (t_reconnectMaxDelay opts),
      t_reconnectJitter = normalizeReconnectJitter (t_reconnectJitter opts),
      t_pingInterval = normalizePingInterval (t_pingInterval opts),
      t_pingTimeout = normalizePingTimeout (t_pingTimeout opts)\<rparr>"

subsection \<open>Delays\<close>

definition nextReconnectDelay :: "duration \<Rightarrow> duration \<Rightarrow> duration" where
  "nextReconnectDelay delay maxDelay =
     (if delay \<le> 0 then maxDelay
      else if maxDelay \<le> 0 then delay
      else (let next_delay = wrap_i64 (delay * 2) in
            if next_delay > maxDelay \<or> next_delay < delay then maxDelay else next_delay))"

fun float_pos :: "float64 \<Rightarrow> bool" where
  "float_pos NaN = True"
| "float_pos NegInf = False"
| "float_pos PosInf = True"
| "float_pos (Finite j) = (j > 0)"

text \<open>\<open>scaled d j\<close> stands for \<^verbatim>\<open>time.Duration(float64(d) * j)\<close> and \<open>now\<close> for \<^verbatim>\<open>time.Now().UnixNano()\<close>;
  \<open>float_pos\<close> is the negation of \<^verbatim>\<open>j <= 0\<close>, true of a NaN. Go's remainder truncates: it has the sign of the
  dividend.\<close>

definition go_rem :: "int \<Rightarrow> int \<Rightarrow> int" where
  "go_rem n m = (if n < 0 then - ((- n) mod m) else n mod m)"

definition jitterReconnectDelay :: "(duration \<Rightarrow> float64 \<Rightarrow> duration) \<Rightarrow> float64 \<Rightarrow> int \<Rightarrow> duration \<Rightarrow> duration" where
  "jitterReconnectDelay scaled jitter now delay =
     (if delay \<le> 0 \<or> \<not> float_pos jitter then delay
      else
        (let maxOffset = scaled delay jitter in
         if maxOffset \<le> 0 then delay
         else
           (let span = wrap_i64 (wrap_i64 (maxOffset * 2) + 1) in
            if span \<le> 0 then delay
            else
              (let n = (if now < 0 then wrap_i64 (- now) else now);
                   result = wrap_i64 (delay + wrap_i64 (go_rem n span - maxOffset))
               in if result < 0 then 0 else result))))"

text \<open>The delay before the attempt after \<open>k\<close> failures.\<close>

definition delay_after :: "timing \<Rightarrow> nat \<Rightarrow> duration" where
  "delay_after t k = ((\<lambda>d. nextReconnectDelay d (t_reconnectMaxDelay t)) ^^ k) (t_reconnectMinDelay t)"

subsection \<open>The delays are a bounded exponential backoff\<close>

lemma wrap_double:
  assumes "0 < d" "d \<le> MaxInt64"
  shows "wrap_i64 (d * 2) = (if d * 2 \<le> MaxInt64 then d * 2 else d * 2 - 2 ^ 64)"
proof (cases "d * 2 \<le> MaxInt64")
  case True
  with assms show ?thesis by (simp add: wrap_i64_id MaxInt64_def)
next
  case False
  have "wrap_i64 (d * 2) = wrap_i64 (d * 2 - 2 ^ 64)"
    by (simp add: wrap_i64_def signed_take_bit_eq_take_bit_shift take_bit_eq_mod mod_eq_dvd_iff)
  also have "\<dots> = d * 2 - 2 ^ 64" using assms False by (intro wrap_i64_id) (simp_all add: MaxInt64_def)
  finally show ?thesis using False by simp
qed

lemma nextReconnectDelay_eq:
  assumes "0 < d" "d \<le> MaxInt64" "0 < m" "m \<le> MaxInt64"
  shows "nextReconnectDelay d m = min m (d * 2)"
  using assms by (auto simp: nextReconnectDelay_def wrap_double Let_def MaxInt64_def)

text \<open>The exponential backoff from \<open>lo\<close> up to \<open>hi\<close>, over the integers.\<close>

definition backoff :: "duration \<Rightarrow> duration \<Rightarrow> nat \<Rightarrow> duration" where
  "backoff lo hi k = min hi (lo * 2 ^ k)"

lemma delay_after_0: "delay_after t 0 = t_reconnectMinDelay t"
  by (simp add: delay_after_def)

lemma delay_after_Suc: "delay_after t (Suc k) = nextReconnectDelay (delay_after t k) (t_reconnectMaxDelay t)"
  by (simp add: delay_after_def)

lemma delay_after_backoff:
  assumes "0 < t_reconnectMinDelay t" "t_reconnectMinDelay t \<le> MaxInt64" "0 < t_reconnectMaxDelay t" "t_reconnectMaxDelay t \<le> MaxInt64"
  shows "delay_after t (Suc k) = backoff (t_reconnectMinDelay t) (t_reconnectMaxDelay t) (Suc k)"
proof (induction k)
  case 0
  from nextReconnectDelay_eq [OF assms] show ?case by (simp add: delay_after_Suc delay_after_0 backoff_def)
next
  case (Suc k)
  let ?b = "backoff (t_reconnectMinDelay t) (t_reconnectMaxDelay t) (Suc k)"
  have "0 < ?b" "?b \<le> MaxInt64" using assms by (auto simp: backoff_def)
  from nextReconnectDelay_eq [OF this assms(3,4)] assms(3) show ?case
    unfolding delay_after_Suc [of t "Suc k"] Suc.IH by (auto simp: backoff_def min_def)
qed

lemma delay_after_no_max: "t_reconnectMaxDelay t = 0 \<Longrightarrow> 0 \<le> t_reconnectMinDelay t \<Longrightarrow> delay_after t k = t_reconnectMinDelay t"
  by (induction k) (auto simp: delay_after_0 delay_after_Suc nextReconnectDelay_def)

lemma delay_after_no_min:
  assumes "t_reconnectMinDelay t = 0" "0 \<le> t_reconnectMaxDelay t" "t_reconnectMaxDelay t \<le> MaxInt64"
  shows "delay_after t (Suc k) = t_reconnectMaxDelay t"
proof (induction k)
  case 0
  from assms(1) show ?case by (simp add: delay_after_0 delay_after_Suc nextReconnectDelay_def)
next
  case (Suc k)
  then show ?case using assms nextReconnectDelay_eq [of "t_reconnectMaxDelay t" "t_reconnectMaxDelay t"]
    by (cases "t_reconnectMaxDelay t = 0") (simp_all add: delay_after_Suc [of t "Suc k"] nextReconnectDelay_def)
qed

text \<open>C27. The delays between attempts, computed with 64-bit arithmetic, for all settings NewClient can produce. The first
  delay is the minimum, even one above the maximum. With a minimum and a maximum set, every later delay is the
  exponential backoff over the integers, the minimum doubled for each failure and clamped to the maximum; where the
  minimum does not exceed the maximum this holds of the first delay too, so all of them lie between the two. A
  negative option switches a bound off (it becomes 0): without a maximum the delay stays at the minimum, without a
  minimum it is 0 and then the maximum. No overflow ever makes a delay negative or larger than both bounds.\<close>

theorem reconnect_backoff:
  assumes "t = NewClient_timing opts" "t_reconnectMinDelay opts \<le> MaxInt64" "t_reconnectMaxDelay opts \<le> MaxInt64"
  defines "lo \<equiv> t_reconnectMinDelay t" and "hi \<equiv> t_reconnectMaxDelay t"
  shows "delay_after t 0 = lo \<and>
    (0 < lo \<and> 0 < hi \<longrightarrow> delay_after t (Suc k) = backoff lo hi (Suc k)) \<and>
    (0 < lo \<and> lo \<le> hi \<longrightarrow> delay_after t k = backoff lo hi k \<and> lo \<le> delay_after t k \<and> delay_after t k \<le> hi) \<and>
    (hi = 0 \<longrightarrow> delay_after t k = lo) \<and>
    (lo = 0 \<longrightarrow> delay_after t (Suc k) = hi) \<and>
    0 \<le> delay_after t k \<and> delay_after t k \<le> max lo hi"
proof -
  have r: "0 \<le> lo" "lo \<le> MaxInt64" "0 \<le> hi" "hi \<le> MaxInt64"
    using assms by (auto simp: NewClient_timing_def normalizeReconnectMinDelay_def normalizeReconnectMaxDelay_def
        DefaultReconnectMinDelay_def DefaultReconnectMaxDelay_def Second_def Millisecond_def MaxInt64_def)
  have first: "delay_after t 0 = lo" by (simp add: delay_after_0 lo_def)
  have later: "delay_after t (Suc k) = backoff lo hi (Suc k)" if "0 < lo" "0 < hi" for k
    using delay_after_backoff [of t k] that r by (simp add: lo_def hi_def)
  have no_max: "delay_after t k = lo" if "hi = 0" for k using delay_after_no_max [of t k] that r by (simp add: lo_def hi_def)
  have no_min: "delay_after t (Suc k) = hi" if "lo = 0" for k using delay_after_no_min [of t k] that r by (simp add: lo_def hi_def)
  have "lo \<le> lo * 2 ^ k" for k using r(1) by (metis one_le_numeral one_le_power mult.right_neutral mult_left_mono)
  then have b: "0 \<le> backoff lo hi k" "backoff lo hi k \<le> hi" "lo \<le> hi \<longrightarrow> lo \<le> backoff lo hi k" for k
    using r by (auto simp: backoff_def)
  have all: "delay_after t k = backoff lo hi k" if "0 < lo" "lo \<le> hi" for k
    using that first later by (cases k) (auto simp: backoff_def)
  have "0 \<le> delay_after t k \<and> delay_after t k \<le> max lo hi"
  proof (cases k)
    case 0
    with first r show ?thesis by simp
  next
    case (Suc n)
    consider "lo = 0" | "hi = 0" | "0 < lo" "0 < hi" using r by linarith
    then show ?thesis using later [of n] no_max [of k] no_min [of n] b [of k] r by cases (simp_all add: Suc le_max_iff_disj)
  qed
  with first later no_max no_min all b show ?thesis by simp
qed

text \<open>C28. Jitter in 64-bit arithmetic, for every delay, every offset and every time of the clock but the smallest. The
  delay is unchanged if it or the jitter option is not positive, if the offset is not positive, or if the span of
  random values would overflow. Otherwise the result is the delay moved by a number between minus the offset and
  the offset that the clock picks, or 0 where that is negative or overflows. It is never negative, and it is
  further from the delay than the offset only if it is 0 and the offset is larger than the delay or the sum can
  overflow.\<close>

theorem jitterReconnectDelay_bounds:
  assumes "0 \<le> d" "d \<le> MaxInt64" "- MaxInt64 \<le> now" "now \<le> MaxInt64" and "scaled d j \<le> MaxInt64"
  defines "m \<equiv> scaled d j" and "r \<equiv> jitterReconnectDelay scaled j now d"
  shows "(d = 0 \<or> \<not> float_pos j \<or> m \<le> 0 \<or> MaxInt64 < 2 * m + 1 \<longrightarrow> r = d) \<and>
    (0 < d \<and> float_pos j \<and> 0 < m \<and> 2 * m + 1 \<le> MaxInt64 \<longrightarrow>
      (let x = d + (\<bar>now\<bar> mod (2 * m + 1) - m) in r = (if 0 \<le> x \<and> x \<le> MaxInt64 then x else 0))) \<and>
    0 \<le> r \<and> (\<bar>r - d\<bar> \<le> max 0 m \<or> r = 0 \<and> (d < m \<or> MaxInt64 < d + m))"
proof (cases "d \<le> 0 \<or> \<not> float_pos j \<or> m \<le> 0")
  case True
  with assms(1) show ?thesis by (auto simp: r_def m_def jitterReconnectDelay_def Let_def)
next
  case False
  then have m: "0 < d" "0 < m" "m \<le> MaxInt64" "float_pos j" using assms by auto
  show ?thesis
  proof (cases "MaxInt64 < 2 * m + 1")
    case True
    have "2 * m \<noteq> MaxInt64" unfolding MaxInt64_def by presburger
    with True m have w: "wrap_i64 (m * 2) = m * 2 - 2 ^ 64" by (subst wrap_double) (auto simp: MaxInt64_def)
    have "wrap_i64 (m * 2 - 2 ^ 64 + 1) = m * 2 - 2 ^ 64 + 1"
      using True m by (intro wrap_i64_id) (simp_all add: MaxInt64_def)
    with w m have "r = d" by (simp add: r_def jitterReconnectDelay_def Let_def m_def [symmetric] MaxInt64_def)
    with True m show ?thesis by auto
  next
    case small: False
    have span: "wrap_i64 (wrap_i64 (m * 2) + 1) = 2 * m + 1"
      using small m by (simp add: wrap_i64_id MaxInt64_def)
    have n: "(if now < 0 then wrap_i64 (- now) else now) = \<bar>now\<bar>" using assms by (auto simp: wrap_i64_id)
    define q where "q = \<bar>now\<bar> mod (2 * m + 1)"
    have q: "0 \<le> q" "q \<le> 2 * m" using m pos_mod_bound [of "2 * m + 1" "\<bar>now\<bar>"] by (simp_all add: q_def)
    have "wrap_i64 (q - m) = q - m" using q m by (intro wrap_i64_id) (simp_all add: MaxInt64_def)
    then have r: "r = (let x = wrap_i64 (d + (q - m)) in if x < 0 then 0 else x)"
      using m by (simp add: r_def jitterReconnectDelay_def Let_def m_def [symmetric] span n go_rem_def q_def [symmetric])
    have "wrap_i64 (d + (q - m)) = (if d + (q - m) \<le> MaxInt64 then d + (q - m) else d + (q - m) - 2 ^ 64)"
    proof (cases "d + (q - m) \<le> MaxInt64")
      case True
      with q m show ?thesis by (simp add: wrap_i64_id MaxInt64_def)
    next
      case over: False
      have "wrap_i64 (d + (q - m)) = wrap_i64 (d + (q - m) - 2 ^ 64)"
        by (simp add: wrap_i64_def signed_take_bit_eq_take_bit_shift take_bit_eq_mod mod_eq_dvd_iff)
      also have "\<dots> = d + (q - m) - 2 ^ 64"
        using over q m small assms(2) by (intro wrap_i64_id) (simp_all add: MaxInt64_def)
      finally show ?thesis using over by simp
    qed
    then have "r = (let x = d + (q - m) in if 0 \<le> x \<and> x \<le> MaxInt64 then x else 0)"
      using q m small assms(2) by (auto simp: r Let_def MaxInt64_def)
    with q m small show ?thesis unfolding q_def [symmetric] by (auto simp: Let_def)
  qed
qed

subsection \<open>Attempts\<close>

text \<open>One attempt: the context as it is when the attempt starts, what dialing returned (the connection with
  its two directions), the error of the attempt's context after the handshake, the generation drawn and
  the time.\<close>

record attempt =
  at_ctx :: ctx
  at_net :: "(nat \<times> Reader \<times> Writer) res"
  at_ctxErr :: "gerror option"
  at_generation :: u64
  at_now :: int

record client_env =
  ce_hmac :: "bytes \<Rightarrow> bytes \<Rightarrow> bytes"
  ce_name :: string
  ce_timing :: timing

definition dial_and_negotiate :: "('v, 'c) Config_scheme \<Rightarrow> client_env \<Rightarrow> attempt \<Rightarrow> (nat \<times> Writer \<times> bool res) res" where
  "dial_and_negotiate cfg env a =
     (case at_net a of
        Inl e \<Rightarrow> Inl e
      | Inr (conn, r, w) \<Rightarrow> (case clientHandshake (ce_hmac env) cfg (ce_name env) r w of (h, _, w) \<Rightarrow> Inr (conn, w, h)))"

text \<open>\<^verbatim>\<open>connectOnce\<close>; \<open>None\<close> while another attempt holds the gate.\<close>

definition connectOnce ::
  "('v, 'c) Config_scheme \<Rightarrow> client_env \<Rightarrow> attempt \<Rightarrow> 'v Client \<Rightarrow> (gerror option \<times> 'v Client \<times> event list) option" where
  "connectOnce cfg env a c =
     (case connectOnce_begin (at_ctx a) c of
        (ConnectReturn err, c) \<Rightarrow> Some (err, c, [])
      | (ConnectWait, c) \<Rightarrow> None
      | (ConnectDial, c) \<Rightarrow>
          Some (connectOnce_end (at_ctxErr a) (dial_and_negotiate cfg env a) (at_generation a) (at_now a) c))"

definition isPermanentInitialConnectError :: "gerror \<Rightarrow> bool" where
  "isPermanentInitialConnectError err \<longleftrightarrow>
     errors_Is err ErrAuthentication \<or> errors_Is err ErrProtocol \<or> errors_Is err ErrPeerConnected"

text \<open>How the wait after a failed attempt ends: the context is done with \<^verbatim>\<open>ctx.Err()\<close>, another goroutine
  closed the client with an error, or the time has passed.\<close>

datatype wait = WaitContext sentinel | WaitClosed gerror | WaitTimer

text \<open>The last component collects the delays that were waited for, before jitter.\<close>

fun connectUntilReady ::
  "('v, 'c) Config_scheme \<Rightarrow> client_env \<Rightarrow> (attempt \<times> wait) list \<Rightarrow> duration \<Rightarrow> 'v Client \<Rightarrow>
   (gerror option \<times> 'v Client \<times> event list \<times> duration list) option" where
  "connectUntilReady cfg env [] delay c = None"
| "connectUntilReady cfg env ((a, w) # rest) delay c =
     (case connectOnce cfg env a c of
        None \<Rightarrow> None
      | Some (None, c, evs) \<Rightarrow> Some (None, c, evs, [])
      | Some (Some err, c, evs) \<Rightarrow>
          if isPermanentInitialConnectError err then Some (Some err, c, evs, [])
          else
            (case w of
               WaitContext s \<Rightarrow> Some (Some (Errorf_suffix s (error_text err)), c, evs, [])
             | WaitClosed x \<Rightarrow>
                 (case Client_closeWithError (Some x) c of
                    (c, evs') \<Rightarrow> Some (Some (closedError c), c, evs @ evs', []))
             | WaitTimer \<Rightarrow>
                 map_option (\<lambda>(e, c, evs', ds). (e, c, evs @ evs', delay # ds))
                   (connectUntilReady cfg env rest
                      (nextReconnectDelay delay (t_reconnectMaxDelay (ce_timing env))) c)))"

text \<open>\<^verbatim>\<open>Connect\<close>; the first component of the result says whether \<^verbatim>\<open>startReconnectLoop\<close> has been called.\<close>

definition Connect ::
  "('v, 'c) Config_scheme \<Rightarrow> client_env \<Rightarrow> (attempt \<times> wait) list \<Rightarrow> 'v Client option \<Rightarrow>
   (bool \<times> gerror option \<times> 'v Client option \<times> event list) option" where
  "Connect cfg env ts co =
     (case co of
        None \<Rightarrow> Some (False, Some (Sentinel ErrClosed), None, [])
      | Some c \<Rightarrow>
          if currentConnWithGeneration c \<noteq> None then Some (True, None, Some c, [])
          else
            map_option (\<lambda>(err, c, evs, _). (err = None, err, Some c, evs))
              (connectUntilReady cfg env ts (t_reconnectMinDelay (ce_timing env)) c))"

definition WaitReady :: "ctx option \<Rightarrow> 'v Client \<Rightarrow> gerror option outcome" where
  "WaitReady ctx c =
     (case waitConn (normalizeContext ctx) c of
        Blocked \<Rightarrow> Blocked
      | Return (Inl err) \<Rightarrow> Return (Some err)
      | Return (Inr _) \<Rightarrow> Return None)"

text \<open>The inner loop of \<^verbatim>\<open>reconnectLoop\<close>: \<open>Some x\<close> in a pair says that the client was closed with \<open>x\<close> during
  the wait, \<open>None\<close> that the time passed. The result says whether the outer loop goes on.\<close>

fun reconnect_attempts ::
  "('v, 'c) Config_scheme \<Rightarrow> client_env \<Rightarrow> (attempt \<times> gerror option) list \<Rightarrow> duration \<Rightarrow> 'v Client \<Rightarrow>
   (bool \<times> 'v Client \<times> event list \<times> duration list) option" where
  "reconnect_attempts cfg env [] delay c = (if e_closed c then Some (False, c, [], []) else None)"
| "reconnect_attempts cfg env ((a, w) # rest) delay c =
     (if e_closed c then Some (False, c, [], [])
      else
        (case connectOnce cfg env (a\<lparr>at_ctx := backgroundContext\<rparr>) c of
           None \<Rightarrow> None
         | Some (None, c, evs) \<Rightarrow> Some (True, c, evs, [])
         | Some (Some err, c, evs) \<Rightarrow>
             (case w of
                Some x \<Rightarrow> (case Client_closeWithError (Some x) c of (c, evs') \<Rightarrow> Some (False, c, evs @ evs', []))
              | None \<Rightarrow>
                  map_option (\<lambda>(b, c, evs', ds). (b, c, evs @ evs', delay # ds))
                    (reconnect_attempts cfg env rest
                       (nextReconnectDelay delay (t_reconnectMaxDelay (ce_timing env))) c))))"

definition reconnectLoop_round ::
  "('v, 'c) Config_scheme \<Rightarrow> client_env \<Rightarrow> (attempt \<times> gerror option) list \<Rightarrow> 'v Client \<Rightarrow>
   (bool \<times> 'v Client \<times> event list \<times> duration list) option" where
  "reconnectLoop_round cfg env ts c =
     (if e_closed c then Some (False, c, [], [])
      else if cl_reconnectCh c
      then reconnect_attempts cfg env ts (t_reconnectMinDelay (ce_timing env)) (c\<lparr>cl_reconnectCh := False\<rparr>)
      else None)"

subsection \<open>What an attempt does\<close>

definition attempt_error :: "('v, 'c) Config_scheme \<Rightarrow> client_env \<Rightarrow> attempt \<Rightarrow> gerror option" where
  "attempt_error cfg env a =
     (case dial_and_negotiate cfg env a of
        Inl e \<Rightarrow> Some e
      | Inr (_, _, h) \<Rightarrow>
          (case at_ctxErr a of
             Some e \<Rightarrow> Some e
           | None \<Rightarrow> (case h of Inl e \<Rightarrow> Some e | Inr _ \<Rightarrow> None)))"

text \<open>An open client without a connection that nobody is connecting.\<close>

definition idle :: "'v Client \<Rightarrow> bool" where
  "idle c \<longleftrightarrow> \<not> e_closed c \<and> cl_conn c = None \<and> \<not> cl_connecting c \<and> client_ok c"

text \<open>The client after an attempt that succeeded: connected by the new connection, which has carried
  nothing but the handshake, and otherwise as before.\<close>

definition connected_by :: "('v, 'c) Config_scheme \<Rightarrow> client_env \<Rightarrow> attempt \<Rightarrow> 'v Client \<Rightarrow> 'v Client \<Rightarrow> bool" where
  "connected_by cfg env a c c' \<longleftrightarrow>
     (\<exists>conn r w r' w' flow. at_net a = Inr (conn, r, w) \<and>
        clientHandshake (ce_hmac env) cfg (ce_name env) r w = (Inr flow, r', w') \<and>
        c' = c\<lparr>cl_conn := Some conn, cl_generation := at_generation a, cl_flowControl := flow,
               cl_lastFrame := at_now a, e_writer := w', cl_readyClosed := True\<rparr>)"

lemma connectOnce_idle:
  assumes "idle c" "ctx_err (at_ctx a) = None"
  shows "\<exists>evs. case attempt_error cfg env a of
      Some e \<Rightarrow> connectOnce cfg env a c = Some (Some e, c, evs)
    | None \<Rightarrow> (\<exists>c'. connectOnce cfg env a c = Some (None, c', evs) \<and> connected_by cfg env a c c')"
proof -
  have c: "c\<lparr>cl_connecting := True, cl_connecting := False\<rparr> = c" "\<not> cl_readyClosed c"
    using assms(1) by (simp_all add: idle_def client_ok_def)
  have start: "connectOnce_begin (at_ctx a) c = (ConnectDial, c\<lparr>cl_connecting := True\<rparr>)"
    using assms by (simp add: connectOnce_begin_def idle_def)
  have open': "\<not> e_closed c" "\<not> cl_connecting c" using assms(1) by (simp_all add: idle_def)
  show ?thesis
    using c open' unfolding attempt_error_def connectOnce_def start dial_and_negotiate_def
    by (auto simp: connectOnce_end_def setConn_def connected_by_def Let_def split: sum.splits prod.splits option.splits)
qed

lemma connected_by_ready:
  assumes "connected_by cfg env a c c'" "idle c" "at_generation a \<noteq> 0"
  shows "client_ok c' \<and> cl_conn c' \<noteq> None \<and> cl_readyClosed c' \<and> \<not> e_closed c' \<and> cl_generation c' = at_generation a \<and>
    e_pending c' = e_pending c \<and> e_streams c' = e_streams c \<and> cl_reconnectCh c' = cl_reconnectCh c"
proof -
  obtain conn flow w' where "c' = c\<lparr>cl_conn := Some conn, cl_generation := at_generation a, cl_flowControl := flow,
      cl_lastFrame := at_now a, e_writer := w', cl_readyClosed := True\<rparr>" using assms(1) unfolding connected_by_def by blast
  moreover have "\<not> e_closed c" "\<not> cl_connecting c" "\<not> cl_panicked c" using assms(2) by (simp_all add: idle_def client_ok_def)
  ultimately show ?thesis using assms(3) by (simp add: client_ok_def)
qed

definition transient :: "('v, 'c) Config_scheme \<Rightarrow> client_env \<Rightarrow> attempt \<Rightarrow> bool" where
  "transient cfg env a \<longleftrightarrow> ctx_err (at_ctx a) = None \<and>
     (case attempt_error cfg env a of None \<Rightarrow> False | Some e \<Rightarrow> \<not> isPermanentInitialConnectError e)"

definition next_delay :: "client_env \<Rightarrow> duration \<Rightarrow> duration" where
  "next_delay env d = nextReconnectDelay d (t_reconnectMaxDelay (ce_timing env))"

lemma delay_after_next: "delay_after (ce_timing env) k = (next_delay env ^^ k) (t_reconnectMinDelay (ce_timing env))"
  by (simp add: delay_after_def next_delay_def [abs_def])

lemma funpow_upt: "x # map (\<lambda>k. (f ^^ k) (f x)) [0..<n] = map (\<lambda>k. (f ^^ k) x) [0..<Suc n]"
  by (simp add: funpow_swap1 upt_conv_Cons map_Suc_upt [symmetric] del: upt_Suc)

lemma closing_idle:
  assumes "idle c"
  shows "\<exists>c' evs. Client_closeWithError (Some x) c = (c', evs) \<and> closedError c' = x \<and> e_closed c' \<and> cl_conn c' = None"
proof -
  let ?c = "c\<lparr>e_closeErr := Some x, e_closed := True, cl_conn := None, cl_generation := 0, cl_readyClosed := True\<rparr>"
  obtain c' evs where f: "fail_all x ?c = (c', evs)" by fastforce
  note k = fail_all_keeps [OF f]
  have "cl_conn c' = cl_conn ?c" using k(3) by (cases c; cases c') simp
  moreover obtain evs' where "Client_closeWithError (Some x) c = (c', evs')"
    using f assms by (simp add: Client_closeWithError_fail_all idle_def)
  ultimately show ?thesis using k(1,2) by (auto simp: closedError_def)
qed

lemma connectUntilReady_fails:
  assumes "idle c" "\<forall>a \<in> set fails. transient cfg env a"
  shows "\<exists>evs. connectUntilReady cfg env (map (\<lambda>a. (a, WaitTimer)) fails @ rest) delay c =
    map_option (\<lambda>(e, c, evs', ds). (e, c, evs @ evs', map (\<lambda>k. (next_delay env ^^ k) delay) [0..<length fails] @ ds))
      (connectUntilReady cfg env rest ((next_delay env ^^ length fails) delay) c)"
  using assms(2)
proof (induction fails arbitrary: delay)
  case Nil
  show ?case by (intro exI [of _ "[]"]) (simp add: option.map_ident split_def)
next
  case (Cons a fails)
  then obtain e where e: "attempt_error cfg env a = Some e" "\<not> isPermanentInitialConnectError e" "ctx_err (at_ctx a) = None"
    by (auto simp: transient_def split: option.splits)
  with connectOnce_idle [OF assms(1), of a cfg env] obtain evs where o: "connectOnce cfg env a c = Some (Some e, c, evs)" by auto
  from Cons obtain evs2 where i: "connectUntilReady cfg env (map (\<lambda>a. (a, WaitTimer)) fails @ rest) (next_delay env delay) c =
      map_option (\<lambda>(e, c, evs', ds). (e, c, evs2 @ evs',
          map (\<lambda>k. (next_delay env ^^ k) (next_delay env delay)) [0..<length fails] @ ds))
        (connectUntilReady cfg env rest ((next_delay env ^^ length fails) (next_delay env delay)) c)"
    by (metis list.set_intros(2))
  have s: "(next_delay env ^^ length (a # fails)) delay = (next_delay env ^^ length fails) (next_delay env delay)"
    by (simp add: funpow_swap1)
  show ?case
    using o e(2) i unfolding s
    by (intro exI [of _ "evs @ evs2"])
      (cases "connectUntilReady cfg env rest ((next_delay env ^^ length fails) (next_delay env delay)) c";
        simp add: split_def funpow_upt [of delay "next_delay env", symmetric] next_delay_def [symmetric] del: upt_Suc)
qed

text \<open>C26. The first connection. Attempts that fail for a passing reason are repeated after the delays of
  the backoff and leave the client as it was. The first attempt that succeeds ends it: the client is
  connected by it. An authentication, protocol or peer-connected error ends it at once with that error,
  without another attempt. If the context ends during a wait the result is the context's error with the last
  error in its text, and if the client is closed it is the error it was closed with.\<close>

theorem connectUntilReady_outcome:
  assumes "idle c" "\<forall>a \<in> set fails. transient cfg env a" "ctx_err (at_ctx a) = None"
    and "transient cfg env a \<Longrightarrow> w \<noteq> WaitTimer"
  shows "\<exists>evs. let r = connectUntilReady cfg env (map (\<lambda>a. (a, WaitTimer)) fails @ (a, w) # rest)
        (t_reconnectMinDelay (ce_timing env)) c;
      delays = map (delay_after (ce_timing env)) [0..<length fails] in
    case attempt_error cfg env a of
      None \<Rightarrow> \<exists>c'. r = Some (None, c', evs, delays) \<and> connected_by cfg env a c c'
    | Some e \<Rightarrow>
        if isPermanentInitialConnectError e then r = Some (Some e, c, evs, delays)
        else (case w of
            WaitContext s \<Rightarrow> r = Some (Some (Errorf_suffix s (error_text e)), c, evs, delays)
          | WaitClosed x \<Rightarrow> \<exists>c'. r = Some (Some x, c', evs, delays) \<and> e_closed c' \<and> cl_conn c' = None
          | WaitTimer \<Rightarrow> False)"
proof -
  let ?min = "t_reconnectMinDelay (ce_timing env)"
  obtain evs1 where f: "connectUntilReady cfg env (map (\<lambda>a. (a, WaitTimer)) fails @ (a, w) # rest) ?min c =
      map_option (\<lambda>(e, c, evs', ds). (e, c, evs1 @ evs', map (delay_after (ce_timing env)) [0..<length fails] @ ds))
        (connectUntilReady cfg env ((a, w) # rest) (delay_after (ce_timing env) (length fails)) c)"
    using connectUntilReady_fails [OF assms(1,2), of "(a, w) # rest" ?min] unfolding delay_after_next [symmetric, abs_def]
    by blast
  obtain evs2 where o: "case attempt_error cfg env a of
      Some e \<Rightarrow> connectOnce cfg env a c = Some (Some e, c, evs2)
    | None \<Rightarrow> (\<exists>c'. connectOnce cfg env a c = Some (None, c', evs2) \<and> connected_by cfg env a c c')"
    using connectOnce_idle [OF assms(1,3), of cfg env] by blast
  show ?thesis
  proof (cases "attempt_error cfg env a")
    case None
    with o f show ?thesis by (auto simp: Let_def)
  next
    case (Some e)
    with o have oo: "connectOnce cfg env a c = Some (Some e, c, evs2)" by simp
    show ?thesis
    proof (cases "isPermanentInitialConnectError e")
      case True
      with f oo Some show ?thesis by (simp add: Let_def)
    next
      case False
      with Some assms(3,4) have w: "w \<noteq> WaitTimer" by (simp add: transient_def)
      show ?thesis
      proof (cases w)
        case (WaitContext s)
        with f oo Some False show ?thesis by (simp add: Let_def)
      next
        case (WaitClosed x)
        from closing_idle [OF assms(1), of x] obtain c' evs3 where
          "Client_closeWithError (Some x) c = (c', evs3)" "closedError c' = x" "e_closed c'" "cl_conn c' = None" by blast
        with f oo Some False WaitClosed show ?thesis by (simp add: Let_def)
      qed (use w in simp)
    qed
  qed
qed

subsection \<open>The background loop\<close>

text \<open>A failed attempt of the background loop, for whatever reason.\<close>

definition fails_in_background :: "('v, 'c) Config_scheme \<Rightarrow> client_env \<Rightarrow> attempt \<Rightarrow> bool" where
  "fails_in_background cfg env a \<longleftrightarrow> attempt_error cfg env a \<noteq> None"

lemma attempt_error_ctx [simp]: "attempt_error cfg env (a\<lparr>at_ctx := x\<rparr>) = attempt_error cfg env a"
  by (simp add: attempt_error_def dial_and_negotiate_def split: sum.split prod.split option.split)

lemma connected_by_ctx [simp]: "connected_by cfg env (a\<lparr>at_ctx := x\<rparr>) c c' = connected_by cfg env a c c'"
  by (simp add: connected_by_def)

lemma connectOnce_background:
  assumes "idle c"
  shows "\<exists>evs. case attempt_error cfg env a of
      Some e \<Rightarrow> connectOnce cfg env (a\<lparr>at_ctx := backgroundContext\<rparr>) c = Some (Some e, c, evs)
    | None \<Rightarrow> (\<exists>c'. connectOnce cfg env (a\<lparr>at_ctx := backgroundContext\<rparr>) c = Some (None, c', evs) \<and> connected_by cfg env a c c')"
proof -
  have "ctx_err (at_ctx (a\<lparr>at_ctx := backgroundContext\<rparr>)) = None" by (simp add: backgroundContext_def)
  from connectOnce_idle [OF assms this, of cfg env] show ?thesis unfolding attempt_error_ctx connected_by_ctx .
qed

lemma reconnect_attempts_fails:
  assumes "idle c" "\<forall>a \<in> set fails. fails_in_background cfg env a"
  shows "\<exists>evs. reconnect_attempts cfg env (map (\<lambda>a. (a, None)) fails @ rest) delay c =
    map_option (\<lambda>(b, c, evs', ds). (b, c, evs @ evs', map (\<lambda>k. (next_delay env ^^ k) delay) [0..<length fails] @ ds))
      (reconnect_attempts cfg env rest ((next_delay env ^^ length fails) delay) c)"
  using assms(2)
proof (induction fails arbitrary: delay)
  case Nil
  show ?case by (intro exI [of _ "[]"]) (simp add: option.map_ident split_def)
next
  case (Cons a fails)
  then obtain e where e: "attempt_error cfg env a = Some e" by (auto simp: fails_in_background_def)
  with connectOnce_background [OF assms(1), of cfg env a] obtain evs where
    o: "connectOnce cfg env (a\<lparr>at_ctx := backgroundContext\<rparr>) c = Some (Some e, c, evs)" by auto
  from Cons obtain evs2 where i: "reconnect_attempts cfg env (map (\<lambda>a. (a, None)) fails @ rest) (next_delay env delay) c =
      map_option (\<lambda>(e, c, evs', ds). (e, c, evs2 @ evs',
          map (\<lambda>k. (next_delay env ^^ k) (next_delay env delay)) [0..<length fails] @ ds))
        (reconnect_attempts cfg env rest ((next_delay env ^^ length fails) (next_delay env delay)) c)"
    by (metis list.set_intros(2))
  have s: "(next_delay env ^^ length (a # fails)) delay = (next_delay env ^^ length fails) (next_delay env delay)"
    by (simp add: funpow_swap1)
  have "\<not> e_closed c" using assms(1) by (simp add: idle_def)
  with o i show ?case
    unfolding s
    by (intro exI [of _ "evs @ evs2"])
      (cases "reconnect_attempts cfg env rest ((next_delay env ^^ length fails) (next_delay env delay)) c";
        simp add: split_def funpow_upt [of delay "next_delay env", symmetric] next_delay_def [symmetric] del: upt_Suc)
qed

lemma Client_closeWithError_closed: "Client_closeWithError err c = (c', evs) \<Longrightarrow> e_closed c'"
  using fail_all_keeps(1) by (fastforce simp: Client_closeWithError_fail_all Let_def split: if_splits prod.splits)

lemma reconnect_attempts_ends:
  "reconnect_attempts cfg env ts delay c = Some (False, c', evs, ds) \<Longrightarrow> e_closed c'"
proof (induction cfg env ts delay c arbitrary: c' evs ds rule: reconnect_attempts.induct)
  case (2 cfg env a w rest delay c)
  show ?case
  proof (cases "e_closed c")
    case True
    with "2.prems" show ?thesis by simp
  next
    case False
    with "2.prems" obtain r where r: "connectOnce cfg env (a\<lparr>at_ctx := backgroundContext\<rparr>) c = Some r"
      by (auto split: option.splits)
    obtain err c1 ev where r': "r = (err, c1, ev)" by (metis prod_cases3)
    show ?thesis
    proof (cases err)
      case None
      with "2.prems" False r r' show ?thesis by simp
    next
      case (Some e)
      note fresh = False r [unfolded r' Some]
      show ?thesis
      proof (cases w)
        case None
        with "2.prems" fresh obtain ev' ds' where
          "reconnect_attempts cfg env rest (nextReconnectDelay delay (t_reconnectMaxDelay (ce_timing env))) c1 = Some (False, c', ev', ds')"
          by auto
        with "2.IH" [OF False r r' [symmetric] Some refl] None show ?thesis by blast
      next
        case (Some x)
        with "2.prems" fresh obtain ev' where "Client_closeWithError (Some x) c1 = (c', ev')" by (auto split: prod.splits)
        then show ?thesis by (rule Client_closeWithError_closed)
      qed
    qed
  qed
qed (simp split: if_splits)

text \<open>C25. The background loop recovers the connection and gives up only when the client is closed. On an
  open client without a connection that has been signalled: any number of failed attempts, for whatever
  reasons (also those that are final for the first connection), followed by one that succeeds, leave the
  client connected by the new connection under its new generation, with the ready channel closed once and
  the signal consumed; the waits in between are the backoff from its start. Nothing is replayed: the tables
  are the same and the new transport has carried the handshake only. The loop ends only on a closed client,
  and without a signal it waits.\<close>

theorem reconnectLoop_recovers:
  assumes "idle c" "cl_reconnectCh c" "\<forall>a \<in> set fails. fails_in_background cfg env a"
    and "\<not> fails_in_background cfg env a" "at_generation a \<noteq> 0"
  shows "(\<exists>c' evs. reconnectLoop_round cfg env (map (\<lambda>a. (a, None)) fails @ (a, w) # rest) c =
        Some (True, c', evs, map (delay_after (ce_timing env)) [0..<length fails]) \<and>
      connected_by cfg env a (c\<lparr>cl_reconnectCh := False\<rparr>) c' \<and> client_ok c' \<and> cl_conn c' \<noteq> None \<and> cl_readyClosed c' \<and>
      cl_generation c' = at_generation a \<and> e_pending c' = e_pending c \<and> e_streams c' = e_streams c \<and> \<not> cl_reconnectCh c') \<and>
    (\<forall>ts d c' evs ds. reconnectLoop_round cfg env ts d = Some (False, c', evs, ds) \<longrightarrow> e_closed c') \<and>
    (\<forall>ts. reconnectLoop_round cfg env ts (c\<lparr>cl_reconnectCh := False\<rparr>) = None)"
proof -
  let ?c = "c\<lparr>cl_reconnectCh := False\<rparr>" let ?min = "t_reconnectMinDelay (ce_timing env)"
  have idle: "idle ?c" "\<not> e_closed c" using assms(1) by (simp_all add: idle_def client_ok_signal)
  obtain evs1 where f: "reconnect_attempts cfg env (map (\<lambda>a. (a, None)) fails @ (a, w) # rest) ?min ?c =
      map_option (\<lambda>(b, c, evs', ds). (b, c, evs1 @ evs', map (delay_after (ce_timing env)) [0..<length fails] @ ds))
        (reconnect_attempts cfg env ((a, w) # rest) (delay_after (ce_timing env) (length fails)) ?c)"
    using reconnect_attempts_fails [OF idle(1) assms(3), of "(a, w) # rest" ?min] unfolding delay_after_next [symmetric, abs_def]
    by blast
  from connectOnce_background [OF idle(1), of cfg env a] assms(4) obtain evs2 c' where
    o: "connectOnce cfg env (a\<lparr>at_ctx := backgroundContext\<rparr>) ?c = Some (None, c', evs2)" "connected_by cfg env a ?c c'"
    by (auto simp: fails_in_background_def)
  have "reconnectLoop_round cfg env (map (\<lambda>a. (a, None)) fails @ (a, w) # rest) c =
      Some (True, c', evs1 @ evs2, map (delay_after (ce_timing env)) [0..<length fails])"
    using f o(1) idle(2) assms(2) by (simp add: reconnectLoop_round_def)
  moreover have "client_ok c' \<and> cl_conn c' \<noteq> None \<and> cl_readyClosed c' \<and> cl_generation c' = at_generation a \<and>
      e_pending c' = e_pending c \<and> e_streams c' = e_streams c \<and> \<not> cl_reconnectCh c'"
    using connected_by_ready [OF o(2) idle(1) assms(5)] by simp
  ultimately show ?thesis
    using o(2) idle(2) reconnect_attempts_ends [of cfg env]
    by (auto simp: reconnectLoop_round_def split: if_splits)
qed

subsection \<open>Witnesses\<close>

definition sampleTiming :: timing where
  "sampleTiming = \<lparr>t_handshakeTimeout = 0, t_dialTimeout = 0, t_writeTimeout = 0, t_reconnectMinDelay = 0,
     t_reconnectMaxDelay = 0, t_reconnectJitter = Finite 0, t_pingInterval = 0, t_pingTimeout = 0\<rparr>"

definition sampleEnv :: client_env where
  "sampleEnv = \<lparr>ce_hmac = sampleMac, ce_name = ''worker'', ce_timing = NewClient_timing sampleTiming\<rparr>"

definition sampleRefused :: attempt where
  "sampleRefused = \<lparr>at_ctx = backgroundContext, at_net = Inl (Opaque ''connection refused''), at_ctxErr = None,
     at_generation = 0, at_now = 0\<rparr>"

definition sampleDialed :: "bytes \<Rightarrow> attempt" where
  "sampleDialed S = \<lparr>at_ctx = backgroundContext, at_net = Inr (4, \<lparr>r_data = S, r_end = Sentinel IoEOF\<rparr>, emptyWriter),
     at_ctxErr = None, at_generation = 1, at_now = 0\<rparr>"

abbreviation sampleNew :: "bytes Client" where
  "sampleNew \<equiv> newClientState sampleSecret (\<lambda>_. ('''', ''''))"

lemma sampleNew_idle: "idle sampleNew" "idle (sampleNew\<lparr>cl_reconnectCh := True\<rparr>)"
  by (simp_all add: idle_def newClientState_ok client_ok_signal) (simp_all add: newClientState_def)

lemma sampleRefused_fails: "transient sampleSecret sampleEnv sampleRefused" "fails_in_background sampleSecret sampleEnv sampleRefused"
  by (simp_all add: transient_def fails_in_background_def attempt_error_def dial_and_negotiate_def sampleRefused_def
      isPermanentInitialConnectError_def backgroundContext_def)

lemma sampleDialed_succeeds:
  obtains S where "attempt_error sampleSecret sampleEnv (sampleDialed S) = None"
proof -
  obtain C S where "conversation sampleMac sampleSecret sampleSecret ''worker'' sampleRandom (\<lambda>_ _ _ st. (None, st))
      emptyWriter emptyWriter () C S (Inr True) (Inr (''worker'', negotiated sampleSecret sampleSecret)) ()"
    using conversation_exists [OF sampleSecret_compatible emptyWriter_reliable(1) emptyWriter_reliable(1),
        of "\<lambda>_ _ _ st. (None, st)" "()" "()"] by auto
  then have "clientHandshake sampleMac sampleSecret ''worker'' \<lparr>r_data = S, r_end = Sentinel IoEOF\<rparr> emptyWriter =
      (Inr True, \<lparr>r_data = [], r_end = Sentinel IoEOF\<rparr>, emptyWriter\<lparr>w_out := C\<rparr>)"
    using emptyWriter_reliable(2) unfolding conversation_def by (metis append_Nil append_Nil2)
  then show thesis
    by (intro that [of S]) (simp add: attempt_error_def dial_and_negotiate_def sampleDialed_def sampleEnv_def)
qed

theorem reconnect_backoff_witness:
  "map (delay_after (NewClient_timing sampleTiming)) [0, 3, 40] = [100000000, 800000000, 5000000000]"
  using reconnect_backoff [OF refl, of sampleTiming 0] reconnect_backoff [OF refl, of sampleTiming 3]
    reconnect_backoff [OF refl, of sampleTiming 40]
  by (simp add: sampleTiming_def NewClient_timing_def normalizeReconnectMinDelay_def normalizeReconnectMaxDelay_def
      DefaultReconnectMinDelay_def DefaultReconnectMaxDelay_def Second_def Millisecond_def backoff_def MaxInt64_def)

theorem jitterReconnectDelay_bounds_witness:
  "\<bar>jitterReconnectDelay (\<lambda>d _. d div 5) (Finite (1 / 5)) 123456789 100000000 - 100000000\<bar> \<le> 20000000 \<and>
   jitterReconnectDelay (\<lambda>d _. d) (Finite 1) 123456789 (2 ^ 62) = 2 ^ 62 \<and>
   jitterReconnectDelay (\<lambda>d _. 2 ^ 61) (Finite (1 / 2)) MaxInt64 MaxInt64 = 0"
  using jitterReconnectDelay_bounds [of 100000000 123456789 "\<lambda>d _. d div 5" "Finite (1 / 5)"]
    jitterReconnectDelay_bounds [of "2 ^ 62" 123456789 "\<lambda>d _. d" "Finite 1"]
    jitterReconnectDelay_bounds [of MaxInt64 MaxInt64 "\<lambda>d _. 2 ^ 61" "Finite (1 / 2)"]
  by (simp add: MaxInt64_def Let_def)

theorem connectUntilReady_outcome_witness:
  "\<exists>S evs c'. connectUntilReady sampleSecret sampleEnv [(sampleRefused, WaitTimer), (sampleDialed S, WaitTimer)]
      (t_reconnectMinDelay (ce_timing sampleEnv)) sampleNew = Some (None, c', evs, [delay_after (ce_timing sampleEnv) 0]) \<and>
     connected_by sampleSecret sampleEnv (sampleDialed S) sampleNew c'"
proof -
  obtain S where S: "attempt_error sampleSecret sampleEnv (sampleDialed S) = None" by (rule sampleDialed_succeeds)
  have "\<forall>a \<in> set [sampleRefused]. transient sampleSecret sampleEnv a" "ctx_err (at_ctx (sampleDialed S)) = None"
    "transient sampleSecret sampleEnv (sampleDialed S) \<Longrightarrow> WaitTimer \<noteq> WaitTimer"
    using sampleRefused_fails S by (simp_all add: sampleDialed_def backgroundContext_def transient_def)
  note o = connectUntilReady_outcome [OF sampleNew_idle(1) this, of "[]"]
  have m: "map (\<lambda>a. (a, WaitTimer)) [sampleRefused] @ [(sampleDialed S, WaitTimer)] =
      [(sampleRefused, WaitTimer), (sampleDialed S, WaitTimer)]"
    "map (delay_after (ce_timing sampleEnv)) [0..<length [sampleRefused]] = [delay_after (ce_timing sampleEnv) 0]" by simp_all
  from o show ?thesis unfolding m Let_def S option.case(1) by blast
qed

theorem reconnectLoop_recovers_witness:
  "\<exists>S c' evs. reconnectLoop_round sampleSecret sampleEnv [(sampleRefused, None), (sampleDialed S, None)]
      (sampleNew\<lparr>cl_reconnectCh := True\<rparr>) = Some (True, c', evs, [delay_after (ce_timing sampleEnv) 0]) \<and> cl_conn c' \<noteq> None"
proof -
  obtain S where S: "attempt_error sampleSecret sampleEnv (sampleDialed S) = None" by (rule sampleDialed_succeeds)
  have "cl_reconnectCh (sampleNew\<lparr>cl_reconnectCh := True\<rparr>)" "\<forall>a \<in> set [sampleRefused]. fails_in_background sampleSecret sampleEnv a"
    "\<not> fails_in_background sampleSecret sampleEnv (sampleDialed S)" "at_generation (sampleDialed S) \<noteq> 0"
    using sampleRefused_fails S by (simp_all add: sampleDialed_def fails_in_background_def)
  note r = conjunct1 [OF reconnectLoop_recovers [OF sampleNew_idle(2) this, of None "[]"]]
  have m: "map (\<lambda>a. (a, None)) [sampleRefused] @ [(sampleDialed S, None)] = [(sampleRefused, None), (sampleDialed S, None)]"
    "map (delay_after (ce_timing sampleEnv)) [0..<length [sampleRefused]] = [delay_after (ce_timing sampleEnv) 0]" by simp_all
  from r show ?thesis unfolding m by blast
qed

end
