(* ===== verification/Peers.thy ===== *)
theory Peers
  imports Reconnect "HOL-Library.Char_ord" "HOL-Library.List_Lexorder"
begin

text \<open>
  Managed peers (\<^verbatim>\<open>peer.go\<close>): one logical relationship per name over at most one physical connection,
  in either direction. An accepted connection is known by its generation, a client by a number; \<^verbatim>\<open>ready\<close> is
  the number of the channel and whether it is closed (closing it twice, which panics in Go, sets \<open>p_panicked\<close>),
  \<^verbatim>\<open>dialDone\<close> the number of the dial. What an operation does to others (cancel the dial, start one, close a client or a
  connection) is in its list of events. The table of clients and accepted connections that routed calls
  work on is the record \<open>world\<close>. Names are ASCII strings.
\<close>

subsection \<open>Names\<close>

definition is_space :: "char \<Rightarrow> bool" where
  "is_space c \<longleftrightarrow> c = CHR '' '' \<or> (of_char c :: nat) \<in> {9..13}"

definition TrimSpace :: "string \<Rightarrow> string" where
  "TrimSpace s = rev (dropWhile is_space (rev (dropWhile is_space s)))"

definition lower :: "char \<Rightarrow> char" where
  "lower c = (if (of_char c :: nat) \<in> {65..90} then char_of ((of_char c :: nat) + 32) else c)"

definition ToLower :: "string \<Rightarrow> string" where
  "ToLower = map lower"

definition normalizePeerName :: "string \<Rightarrow> string" where
  "normalizePeerName value = ToLower (TrimSpace value)"

definition preferOutbound :: "string \<Rightarrow> string \<Rightarrow> bool" where
  "preferOutbound localName peerName \<longleftrightarrow> normalizePeerName localName < normalizePeerName peerName"

subsection \<open>One peer\<close>

datatype PeerDirection = PeerDirectionInbound | PeerDirectionOutbound

record peerLink =
  l_direction :: PeerDirection
  l_client :: "nat option"
  l_conn :: "u64 option"
  l_ready :: bool
  l_connectedAt :: int

text \<open>\<open>dc_options\<close> are the client options and the function that registers the handlers.\<close>

record 'o peerDialConfig =
  dc_network :: string
  dc_address :: string
  dc_options :: 'o

record 'o Peer =
  p_name :: string
  p_key :: string
  p_active :: "peerLink option"
  p_ready :: nat
  p_readyClosed :: bool
  p_dialConfig :: "'o peerDialConfig option"
  p_dialing :: bool
  p_dialCancel :: bool
  p_dialDone :: "nat option"
  p_lastDialErr :: "gerror option"
  p_leases :: nat
  p_peerClosed :: bool
  p_nextDone :: nat
  p_panicked :: bool

datatype 'o peer_event = CancelDial | SpawnDial "'o peerDialConfig" nat | CloseClient nat | CloseConn u64

definition newPeer :: "string \<Rightarrow> string \<Rightarrow> 'o Peer" where
  "newPeer name key =
     \<lparr>p_name = name, p_key = key, p_active = None, p_ready = 0, p_readyClosed = False, p_dialConfig = None, p_dialing = False,
      p_dialCancel = False, p_dialDone = None, p_lastDialErr = None, p_leases = 0, p_peerClosed = False,
      p_nextDone = 0, p_panicked = False\<rparr>"

definition close_ready :: "'o Peer \<Rightarrow> 'o Peer" where
  "close_ready p = (if p_readyClosed p then p\<lparr>p_panicked := True\<rparr> else p\<lparr>p_readyClosed := True\<rparr>)"

definition ensureDial :: "'o Peer \<Rightarrow> 'o Peer \<times> 'o peer_event list" where
  "ensureDial p =
     (case p_dialConfig p of
        None \<Rightarrow> (p, [])
      | Some config \<Rightarrow>
          if p_peerClosed p \<or> p_leases p = 0 \<or> p_active p \<noteq> None \<or> p_dialing p then (p, [])
          else (p\<lparr>p_dialing := True, p_dialCancel := True, p_dialDone := Some (p_nextDone p), p_lastDialErr := None,
                  p_nextDone := p_nextDone p + 1\<rparr>,
                [SpawnDial config (p_nextDone p)]))"

text \<open>\<^verbatim>\<open>acquire\<close>: the section under the lock, and after it \<^verbatim>\<open>ensureDial\<close>, which takes the lock again.\<close>

definition acquire_lease :: "'o peerDialConfig \<Rightarrow> 'o Peer \<Rightarrow> gerror option \<times> 'o Peer" where
  "acquire_lease config p =
     (if p_peerClosed p then (Some (Sentinel ErrClosed), p)
      else
        (let other = (case p_dialConfig p of
               None \<Rightarrow> None
             | Some d \<Rightarrow> if dc_network d \<noteq> dc_network config \<or> dc_address d \<noteq> dc_address config then Some d else None) in
         case (other, p_leases p > 0) of
           (Some d, True) \<Rightarrow>
             (Some (Errorf_suffix ErrPeerConfiguration
                (''peer '' @ p_name p @ '' is already configured at '' @ dc_network d @ '' '' @ dc_address d)), p)
         | _ \<Rightarrow>
             (let p = (if other \<noteq> None \<or> p_dialConfig p = None then p\<lparr>p_dialConfig := Some config\<rparr> else p)
              in (None, p\<lparr>p_leases := p_leases p + 1, p_lastDialErr := None\<rparr>))))"

definition acquire :: "'o peerDialConfig \<Rightarrow> 'o Peer \<Rightarrow> gerror option \<times> 'o Peer \<times> 'o peer_event list" where
  "acquire config p =
     (case acquire_lease config p of
        (Some err, p) \<Rightarrow> (Some err, p, [])
      | (None, p) \<Rightarrow> (None, ensureDial p))"

definition release :: "'o Peer \<Rightarrow> 'o Peer \<times> 'o peer_event list" where
  "release p =
     (let p = p\<lparr>p_leases := p_leases p - 1\<rparr> in
      if p_leases p = 0 then
        (let cancel = (if p_dialCancel p then [CancelDial] else []) in
         case p_active p of
           Some l \<Rightarrow>
             if l_direction l = PeerDirectionOutbound
             then (p\<lparr>p_active := None, p_ready := p_ready p + 1, p_readyClosed := False\<rparr>,
                   cancel @ (case l_client l of None \<Rightarrow> [] | Some k \<Rightarrow> [CloseClient k]))
             else (p, cancel)
         | None \<Rightarrow> (p, cancel))
      else (p, []))"

text \<open>\<^verbatim>\<open>runDial\<close> from the result of registering the handlers and of \<^verbatim>\<open>Connect\<close> on: \<open>k\<close> is the client it has
  created, \<open>d\<close> its \<^verbatim>\<open>done\<close> channel.\<close>

definition runDial_end :: "gerror option \<Rightarrow> nat \<Rightarrow> int \<Rightarrow> nat \<Rightarrow> 'o Peer \<Rightarrow> bool \<times> 'o Peer \<times> 'o peer_event list" where
  "runDial_end err k now d p =
     (if p_dialDone p = Some d then
        (let p = p\<lparr>p_dialing := False, p_dialCancel := False, p_dialDone := None\<rparr> in
         if err = None \<and> \<not> p_peerClosed p \<and> p_leases p > 0 \<and> p_active p = None
         then (True,
               close_ready (p\<lparr>p_active := Some \<lparr>l_direction = PeerDirectionOutbound, l_client = Some k, l_conn = None,
                                               l_ready = True, l_connectedAt = now\<rparr>, p_lastDialErr := None\<rparr>), [])
         else
           (False,
            (case err of
               Some e \<Rightarrow>
                 if \<not> errors_Is e ContextCanceled \<and> \<not> errors_Is e ErrPeerConnected
                 then p\<lparr>p_lastDialErr := Some e\<rparr> else p
             | None \<Rightarrow> p), [CloseClient k]))
      else (False, p, [CloseClient k]))"

text \<open>\<open>up k\<close> is \<^verbatim>\<open>clientReady\<close> of client \<open>k\<close>.\<close>

definition acceptInbound ::
  "(nat \<Rightarrow> bool) \<Rightarrow> string \<Rightarrow> u64 \<Rightarrow> 'o Peer \<Rightarrow> gerror option \<times> 'o Peer \<times> 'o peer_event list" where
  "acceptInbound up localName conn p =
     (let admit = (\<lambda>closing p.
            if p_dialing p \<and> preferOutbound localName (p_name p) then (Some (Sentinel ErrPeerConnected), p, [])
            else (None,
              p\<lparr>p_active := Some \<lparr>l_direction = PeerDirectionInbound, l_client = None, l_conn = Some conn,
                                  l_ready = False, l_connectedAt = 0\<rparr>, p_lastDialErr := None\<rparr>,
              (if p_dialCancel p then [CancelDial] else []) @ closing)) in
      if p_peerClosed p then (Some (Sentinel ErrClosed), p, [])
      else
        (case p_active p of
           None \<Rightarrow> admit [] p
         | Some l \<Rightarrow>
             if l_conn l = Some conn then (None, p, [])
             else if l_direction l = PeerDirectionOutbound \<and> \<not> (case l_client l of None \<Rightarrow> False | Some k \<Rightarrow> up k)
             then admit (case l_client l of None \<Rightarrow> [] | Some k \<Rightarrow> [CloseClient k])
                    (p\<lparr>p_active := None, p_ready := p_ready p + 1, p_readyClosed := False\<rparr>)
             else (Some (Sentinel ErrPeerConnected), p, [])))"

definition peer_connected :: "int \<Rightarrow> u64 \<Rightarrow> 'o Peer \<Rightarrow> gerror option \<times> 'o Peer" where
  "peer_connected now conn p =
     (if p_peerClosed p then (Some (Sentinel ErrClosed), p)
      else
        (case p_active p of
           None \<Rightarrow> (Some (Sentinel ErrPeerConnected), p)
         | Some l \<Rightarrow>
             if l_conn l \<noteq> Some conn then (Some (Sentinel ErrPeerConnected), p)
             else if l_ready l then (None, p)
             else (None, close_ready (p\<lparr>p_active := Some (l\<lparr>l_ready := True, l_connectedAt := now\<rparr>)\<rparr>))))"

text \<open>\<^verbatim>\<open>disconnected\<close>: the section under the lock, which says whether to dial, and after it \<^verbatim>\<open>ensureDial\<close>.\<close>

definition peer_unlink :: "u64 \<Rightarrow> 'o Peer \<Rightarrow> bool \<times> 'o Peer" where
  "peer_unlink conn p =
     (case p_active p of
        None \<Rightarrow> (False, p)
      | Some l \<Rightarrow>
          if l_conn l \<noteq> Some conn then (False, p)
          else
            (let p = p\<lparr>p_active := None, p_ready := p_ready p + 1, p_readyClosed := False\<rparr>
             in (\<not> p_peerClosed p \<and> p_leases p > 0 \<and> p_dialConfig p \<noteq> None, p)))"

definition peer_disconnected :: "u64 \<Rightarrow> 'o Peer \<Rightarrow> 'o Peer \<times> 'o peer_event list" where
  "peer_disconnected conn p =
     (case peer_unlink conn p of (shouldDial, p) \<Rightarrow> if shouldDial then ensureDial p else (p, []))"

definition peer_close :: "'o Peer \<Rightarrow> 'o Peer \<times> 'o peer_event list" where
  "peer_close p =
     (if p_peerClosed p then (p, [])
      else
        (p\<lparr>p_peerClosed := True, p_active := None\<rparr>,
         (if p_dialCancel p then [CancelDial] else []) @
         (case p_active p of
            None \<Rightarrow> []
          | Some l \<Rightarrow>
              (case l_client l of None \<Rightarrow> [] | Some k \<Rightarrow> [CloseClient k]) @
              (case l_conn l of None \<Rightarrow> [] | Some g \<Rightarrow> [CloseConn g]))))"

subsection \<open>The manager\<close>

record 'o PeerManager =
  m_localName :: string
  m_peers :: "(string \<times> 'o Peer) list"
  m_closed :: bool

definition NewPeerManager :: "string \<Rightarrow> 'o PeerManager" where
  "NewPeerManager localName = \<lparr>m_localName = TrimSpace localName, m_peers = [], m_closed = False\<rparr>"

text \<open>\<^verbatim>\<open>PeerManager.peer\<close>: the key under which the peer is now known, or \<open>None\<close> where the source returns nil
  without an error.\<close>

definition manager_peer :: "string \<Rightarrow> bool \<Rightarrow> 'o PeerManager \<Rightarrow> string option res \<times> 'o PeerManager" where
  "manager_peer peerName create m =
     (let name = TrimSpace peerName; key = normalizePeerName name in
      if key = '''' then (Inl (Sentinel ErrPeerIdentityRequired), m)
      else if key = normalizePeerName (m_localName m) then (Inl (Sentinel ErrPeerSelfConnection), m)
      else if m_closed m then (Inl (Sentinel ErrClosed), m)
      else
        (case map_of (m_peers m) key of
           Some _ \<Rightarrow> (Inr (Some key), m)
         | None \<Rightarrow>
             if create then (Inr (Some key), m\<lparr>m_peers := tbl_put key (newPeer name key) (m_peers m)\<rparr>)
             else (Inr None, m)))"

definition put_peer :: "string \<Rightarrow> 'o Peer \<Rightarrow> 'o PeerManager \<Rightarrow> 'o PeerManager" where
  "put_peer key p m = m\<lparr>m_peers := tbl_put key p (m_peers m)\<rparr>"

definition the_peer :: "string \<Rightarrow> 'o PeerManager \<Rightarrow> 'o Peer" where
  "the_peer key m = the (map_of (m_peers m) key)"

definition manager_acceptInbound ::
  "(nat \<Rightarrow> bool) \<Rightarrow> 'v Conn \<Rightarrow> 'o PeerManager \<Rightarrow> gerror option \<times> 'o PeerManager \<times> 'o peer_event list" where
  "manager_acceptInbound up conn m =
     (case manager_peer (c_clientName conn) True m of
        (Inl err, m) \<Rightarrow> (Some err, m, [])
      | (Inr None, m) \<Rightarrow> (Some (Sentinel ErrClosed), m, [])
      | (Inr (Some key), m) \<Rightarrow>
          (case acceptInbound up (m_localName m) (c_generation conn) (the_peer key m) of
             (err, p, evs) \<Rightarrow> (err, put_peer key p m, evs)))"

definition manager_connected :: "int \<Rightarrow> 'v Conn \<Rightarrow> 'o PeerManager \<Rightarrow> gerror option \<times> 'o PeerManager" where
  "manager_connected now conn m =
     (case manager_peer (c_clientName conn) False m of
        (Inl err, m) \<Rightarrow> (Some err, m)
      | (Inr None, m) \<Rightarrow> (Some (Sentinel ErrPeerConnected), m)
      | (Inr (Some key), m) \<Rightarrow>
          (case peer_connected now (c_generation conn) (the_peer key m) of (err, p) \<Rightarrow> (err, put_peer key p m)))"

definition manager_disconnected :: "'v Conn \<Rightarrow> 'o PeerManager \<Rightarrow> 'o PeerManager \<times> 'o peer_event list" where
  "manager_disconnected conn m =
     (case manager_peer (c_clientName conn) False m of
        (Inr (Some key), m) \<Rightarrow>
          (case peer_disconnected (c_generation conn) (the_peer key m) of (p, evs) \<Rightarrow> (put_peer key p m, evs))
      | (_, m) \<Rightarrow> (m, []))"

text \<open>\<^verbatim>\<open>PeerManager.Close\<close>: cancelling the manager's context also cancels every dial. The manager's lock is
  released before the peers are closed one by one; here it is one operation. In between, the calls of other
  goroutines find the manager closed and no peer, and a peer that is not closed yet may keep a connection whose
  loss the manager no longer passes on, until it is closed itself.\<close>

definition manager_Close :: "'o PeerManager \<Rightarrow> 'o PeerManager \<times> (string \<times> 'o peer_event list) list" where
  "manager_Close m =
     (if m_closed m then (m, [])
      else (m\<lparr>m_closed := True, m_peers := map (\<lambda>(k, p). (k, fst (peer_close p))) (m_peers m)\<rparr>,
            map (\<lambda>(k, p). (k, snd (peer_close p))) (m_peers m)))"

text \<open>\<^verbatim>\<open>Dial\<close> up to \<^verbatim>\<open>WaitReady\<close>: the key of the peer on which the caller now holds a lease.\<close>

definition Dial_begin ::
  "string \<Rightarrow> 'o peerDialConfig \<Rightarrow> 'o PeerManager \<Rightarrow> string res \<times> 'o PeerManager \<times> 'o peer_event list" where
  "Dial_begin optsPeerName opts m =
     (let peerName = TrimSpace optsPeerName; network = TrimSpace (dc_network opts);
          network = (if network = '''' then ''tcp'' else network); address = TrimSpace (dc_address opts) in
      if peerName = '''' then (Inl (Sentinel ErrPeerIdentityRequired), m, [])
      else if address = '''' then (Inl (Errorf_suffix ErrUnavailable ''peer address is required''), m, [])
      else
        (case manager_peer peerName True m of
           (Inl err, m) \<Rightarrow> (Inl err, m, [])
         | (Inr None, m) \<Rightarrow> (Inl (Sentinel ErrClosed), m, [])
         | (Inr (Some key), m) \<Rightarrow>
             (case acquire (opts\<lparr>dc_network := network, dc_address := address\<rparr>) (the_peer key m) of
                (Some err, p, evs) \<Rightarrow> (Inl err, put_peer key p m, evs)
              | (None, p, evs) \<Rightarrow> (Inr key, put_peer key p m, evs))))"

text \<open>A lease: \<^verbatim>\<open>PeerClient\<close>, with its flag.\<close>

record PeerClient =
  pc_peer :: string
  pc_closed :: bool

definition PeerClient_ensureOpen :: "PeerClient \<Rightarrow> gerror option" where
  "PeerClient_ensureOpen c = (if pc_closed c then Some (Sentinel ErrClosed) else None)"

definition PeerClient_Close :: "PeerClient \<Rightarrow> 'o PeerManager \<Rightarrow> PeerClient \<times> 'o PeerManager \<times> 'o peer_event list" where
  "PeerClient_Close c m =
     (if pc_closed c then (c, m, [])
      else
        (case release (the_peer (pc_peer c) m) of
           (p, evs) \<Rightarrow> (c\<lparr>pc_closed := True\<rparr>, put_peer (pc_peer c) p m, evs)))"

text \<open>\<^verbatim>\<open>Dial\<close> from the result of \<^verbatim>\<open>WaitReady\<close> on.\<close>

definition Dial_end ::
  "string \<Rightarrow> gerror option \<Rightarrow> 'o PeerManager \<Rightarrow> PeerClient res \<times> 'o PeerManager \<times> 'o peer_event list" where
  "Dial_end key waited m =
     (let client = \<lparr>pc_peer = key, pc_closed = False\<rparr> in
      case waited of
        None \<Rightarrow> (Inr client, m, [])
      | Some err \<Rightarrow> (case PeerClient_Close client m of (_, m, evs) \<Rightarrow> (Inl err, m, evs)))"

subsection \<open>Routing\<close>

text \<open>The clients and the accepted connections of the process, with the network of each.\<close>

record 'v world =
  w_clients :: "nat \<Rightarrow> 'v Client"
  w_conns :: "u64 \<Rightarrow> 'v Conn"
  w_network :: "nat + u64 \<Rightarrow> string"

definition clientReady :: "'v world \<Rightarrow> nat \<Rightarrow> bool" where
  "clientReady w k \<longleftrightarrow> currentConnWithGeneration (w_clients w k) \<noteq> None"

text \<open>One pass of \<^verbatim>\<open>Peer.WaitReady\<close>; \<open>stopped\<close> says whether the context of the manager has ended.\<close>

definition Peer_wait :: "bool \<Rightarrow> ctx option \<Rightarrow> 'o Peer \<Rightarrow> gerror option outcome" where
  "Peer_wait stopped ctx p =
     (if \<not> p_dialing p \<and> p_lastDialErr p \<noteq> None then Return (p_lastDialErr p)
      else
        (case ctx_err (normalizeContext ctx) of
           Some err \<Rightarrow> Return (Some err)
         | None \<Rightarrow> if stopped then Return (Some (Sentinel ErrClosed)) else Blocked))"

definition Peer_WaitReady :: "'v world \<Rightarrow> bool \<Rightarrow> ctx option \<Rightarrow> 'o Peer \<Rightarrow> gerror option outcome" where
  "Peer_WaitReady w stopped ctx p =
     (if p_peerClosed p then Return (Some (Sentinel ErrClosed))
      else
        (case p_active p of
           Some l \<Rightarrow>
             if l_ready l
             then (case l_client l of Some k \<Rightarrow> WaitReady ctx (w_clients w k) | None \<Rightarrow> Return None)
             else Peer_wait stopped ctx p
         | None \<Rightarrow> Peer_wait stopped ctx p))"

text \<open>\<^verbatim>\<open>Peer.endpoint\<close>: the endpoint of the active link once \<^verbatim>\<open>WaitReady\<close> succeeds.\<close>

definition Peer_endpoint :: "'v world \<Rightarrow> bool \<Rightarrow> ctx option \<Rightarrow> 'o Peer \<Rightarrow> (nat + u64) res outcome" where
  "Peer_endpoint w stopped ctx p =
     (case Peer_WaitReady w stopped ctx p of
        Blocked \<Rightarrow> Blocked
      | Return (Some err) \<Rightarrow> Return (Inl err)
      | Return None \<Rightarrow>
          (case p_active p of
             None \<Rightarrow> Blocked
           | Some l \<Rightarrow>
               (case (l_client l, l_conn l) of
                  (Some k, _) \<Rightarrow> Return (Inr (Inl k))
                | (None, Some g) \<Rightarrow> Return (Inr (Inr g))
                | (None, None) \<Rightarrow> Blocked)))"

text \<open>A routed operation: \<open>onClient\<close> and \<open>onConn\<close> are the operation of the interface \<^verbatim>\<open>peerEndpoint\<close> on either
  kind of endpoint.\<close>

definition route ::
  "('v Client \<Rightarrow> ('r res \<times> 'v Client \<times> event list) outcome) \<Rightarrow> ('v Conn \<Rightarrow> 'r res \<times> 'v Conn \<times> event list) \<Rightarrow>
   bool \<Rightarrow> ctx option \<Rightarrow> 'o Peer \<Rightarrow> 'v world \<Rightarrow> ('r res \<times> 'v world \<times> event list) outcome" where
  "route onClient onConn stopped ctx p w =
     (case Peer_endpoint w stopped ctx p of
        Blocked \<Rightarrow> Blocked
      | Return (Inl err) \<Rightarrow> Return (Inl err, w, [])
      | Return (Inr (Inl k)) \<Rightarrow>
          (case onClient (w_clients w k) of
             Blocked \<Rightarrow> Blocked
           | Return (r, c, evs) \<Rightarrow> Return (r, w\<lparr>w_clients := (w_clients w)(k := c)\<rparr>, evs))
      | Return (Inr (Inr g)) \<Rightarrow>
          (case onConn (w_conns w g) of
             (r, c, evs) \<Rightarrow> Return (r, w\<lparr>w_conns := (w_conns w)(g := c)\<rparr>, evs)))"

definition Peer_CallContext_begin where
  "Peer_CallContext_begin ccfg scfg ctx function req resp ch =
     route (Client_CallContext_begin ccfg ctx function req resp ch) (Conn_CallContext_begin scfg ctx function req resp ch)"

definition Peer_NotifyContext where
  "Peer_NotifyContext ccfg scfg ctx function req =
     route (Client_sendNotify ccfg ctx function req) (Conn_sendNotify scfg ctx function req)"

definition Peer_openServerStream where
  "Peer_openServerStream ccfg scfg ctx function req opts =
     route (Client_openServerStream ccfg ctx function req opts) (Conn_openServerStream scfg ctx function req opts)"

definition Peer_openClientStream where
  "Peer_openClientStream ccfg scfg ctx function opts ch =
     route (Client_openClientStream ccfg ctx function opts ch) (Conn_openClientStream scfg ctx function opts ch)"

definition Peer_openBidiStream where
  "Peer_openBidiStream ccfg scfg ctx function opts =
     route (Client_openBidiStream ccfg ctx function opts) (Conn_openBidiStream scfg ctx function opts)"

text \<open>Starting an asynchronous call says only whether it was started.\<close>

definition Peer_AsyncCallContext where
  "Peer_AsyncCallContext ccfg scfg ctx function req handler correlationID =
     route
       (\<lambda>c. case Client_AsyncCallContext ccfg ctx function req handler correlationID c of
          Blocked \<Rightarrow> Blocked
        | Return (r, c, evs) \<Rightarrow> Return (map_sum id (\<lambda>_. ()) r, c, evs))
       (\<lambda>c. case Conn_AsyncCallContext scfg ctx function req handler correlationID c of
          (None, c, evs) \<Rightarrow> (Inr (), c, evs)
        | (Some err, c, evs) \<Rightarrow> (Inl err, c, evs))"

text \<open>The methods of a lease check that it is open and go to the peer.\<close>

definition PeerClient_route ::
  "('o Peer \<Rightarrow> 'v world \<Rightarrow> ('r res \<times> 'v world \<times> event list) outcome) \<Rightarrow> PeerClient \<Rightarrow> 'o PeerManager \<Rightarrow> 'v world \<Rightarrow>
   ('r res \<times> 'v world \<times> event list) outcome" where
  "PeerClient_route f c m w =
     (case PeerClient_ensureOpen c of
        Some err \<Rightarrow> Return (Inl err, w, [])
      | None \<Rightarrow> f (the_peer (pc_peer c) m) w)"

definition PeerClient_WaitReady :: "'v world \<Rightarrow> bool \<Rightarrow> ctx option \<Rightarrow> PeerClient \<Rightarrow> 'o PeerManager \<Rightarrow> gerror option outcome" where
  "PeerClient_WaitReady w stopped ctx c m =
     (case PeerClient_ensureOpen c of
        Some err \<Rightarrow> Return (Some err)
      | None \<Rightarrow> Peer_WaitReady w stopped ctx (the_peer (pc_peer c) m))"

definition PeerClient_CallContext_begin where
  "PeerClient_CallContext_begin ccfg scfg ctx function req resp ch stopped =
     PeerClient_route (Peer_CallContext_begin ccfg scfg ctx function req resp ch stopped ctx)"

definition PeerClient_AsyncCallContext where
  "PeerClient_AsyncCallContext ccfg scfg ctx function req handler correlationID stopped =
     PeerClient_route (Peer_AsyncCallContext ccfg scfg ctx function req handler correlationID stopped ctx)"

definition PeerClient_NotifyContext where
  "PeerClient_NotifyContext ccfg scfg ctx function req stopped =
     PeerClient_route (Peer_NotifyContext ccfg scfg ctx function req stopped ctx)"

definition PeerClient_openServerStream where
  "PeerClient_openServerStream ccfg scfg ctx function req opts stopped =
     PeerClient_route (Peer_openServerStream ccfg scfg ctx function req opts stopped ctx)"

definition PeerClient_openClientStream where
  "PeerClient_openClientStream ccfg scfg ctx function opts ch stopped =
     PeerClient_route (Peer_openClientStream ccfg scfg ctx function opts ch stopped ctx)"

definition PeerClient_openBidiStream where
  "PeerClient_openBidiStream ccfg scfg ctx function opts stopped =
     PeerClient_route (Peer_openBidiStream ccfg scfg ctx function opts stopped ctx)"

lemma closed_lease_refuses:
  "pc_closed c \<Longrightarrow> PeerClient_route f c m w = Return (Inl (Sentinel ErrClosed), w, [])"
  "pc_closed c \<Longrightarrow> PeerClient_WaitReady w stopped ctx c m = Return (Some (Sentinel ErrClosed))"
  by (simp_all add: PeerClient_route_def PeerClient_WaitReady_def PeerClient_ensureOpen_def)

definition manager_Peer :: "string \<Rightarrow> 'o PeerManager \<Rightarrow> string option \<times> bool" where
  "manager_Peer peerName m =
     (case manager_peer peerName False m of
        (Inr (Some key), _) \<Rightarrow> (Some key, True)
      | _ \<Rightarrow> (None, False))"

definition manager_Peers :: "'o PeerManager \<Rightarrow> 'o Peer list" where
  "manager_Peers m = map snd (m_peers m)"

subsection \<open>Status and endpoints of one connection\<close>

record PeerStatus =
  ps_PeerName :: string
  ps_Active :: bool
  ps_Direction :: "PeerDirection option"
  ps_Network :: string
  ps_LocalAddress :: string
  ps_RemoteAddress :: string
  ps_ConnectedAt :: int
  ps_ConnectionGeneration :: u64
  ps_StreamFlowControl :: bool
  ps_Dialing :: bool
  ps_LastError :: string

definition Peer_Status :: "'v world \<Rightarrow> 'o Peer \<Rightarrow> PeerStatus" where
  "Peer_Status w p =
     (let st = \<lparr>ps_PeerName = p_name p, ps_Active = False, ps_Direction = None,
                ps_Network = (case p_dialConfig p of None \<Rightarrow> '''' | Some d \<Rightarrow> dc_network d), ps_LocalAddress = '''',
                ps_RemoteAddress = (case p_dialConfig p of None \<Rightarrow> '''' | Some d \<Rightarrow> dc_address d), ps_ConnectedAt = 0,
                ps_ConnectionGeneration = 0, ps_StreamFlowControl = False, ps_Dialing = p_dialing p,
                ps_LastError = (case p_lastDialErr p of None \<Rightarrow> '''' | Some e \<Rightarrow> error_text e)\<rparr> in
      case p_active p of
        None \<Rightarrow> st
      | Some l \<Rightarrow>
          (let st = st\<lparr>ps_Direction := Some (l_direction l), ps_ConnectedAt := l_connectedAt l\<rparr> in
           case l_direction l of
             PeerDirectionInbound \<Rightarrow>
               (case l_conn l of
                  None \<Rightarrow> st
                | Some g \<Rightarrow>
                    st\<lparr>ps_Active := l_ready l,
                       ps_StreamFlowControl := l_ready l \<and> Conn_SupportsStreamFlowControl (Some (w_conns w g)),
                       ps_ConnectionGeneration := c_generation (w_conns w g),
                       ps_LocalAddress := c_localAddr (w_conns w g), ps_RemoteAddress := c_remoteAddr (w_conns w g),
                       ps_Network := w_network w (Inr g)\<rparr>)
           | PeerDirectionOutbound \<Rightarrow>
               (case l_client l of
                  None \<Rightarrow> st
                | Some k \<Rightarrow>
                    (case currentConnWithGeneration (w_clients w k) of
                       None \<Rightarrow> st\<lparr>ps_Active := False\<rparr>
                     | Some (conn, generation) \<Rightarrow>
                         st\<lparr>ps_Active := True, ps_StreamFlowControl := streamFlowControlFor conn (w_clients w k),
                            ps_ConnectionGeneration := generation,
                            ps_LocalAddress := snd (cl_addrs (w_clients w k) conn),
                            ps_RemoteAddress := fst (cl_addrs (w_clients w k) conn),
                            ps_Network := w_network w (Inl k)\<rparr>))))"

record PeerEndpoint =
  pe_generation :: u64
  pe_client :: "(nat \<times> nat) option"
  pe_conn :: "u64 option"

definition EndpointForGeneration :: "'v world \<Rightarrow> u64 \<Rightarrow> 'o Peer option \<Rightarrow> PeerEndpoint option" where
  "EndpointForGeneration w generation po =
     (case po of
        None \<Rightarrow> None
      | Some p \<Rightarrow>
          if generation = 0 then None
          else
            (case p_active p of
               None \<Rightarrow> None
             | Some l \<Rightarrow>
                 if \<not> l_ready l then None
                 else
                   (case l_direction l of
                      PeerDirectionInbound \<Rightarrow>
                        (case l_conn l of
                           None \<Rightarrow> None
                         | Some g \<Rightarrow>
                             if c_generation (w_conns w g) \<noteq> generation \<or> e_closed (w_conns w g) then None
                             else Some \<lparr>pe_generation = generation, pe_client = None, pe_conn = Some g\<rparr>)
                    | PeerDirectionOutbound \<Rightarrow>
                        (case l_client l of
                           None \<Rightarrow> None
                         | Some k \<Rightarrow>
                             (case currentConnWithGeneration (w_clients w k) of
                                None \<Rightarrow> None
                              | Some (conn, current) \<Rightarrow>
                                  if current \<noteq> generation then None
                                  else Some \<lparr>pe_generation = generation, pe_client = Some (k, conn), pe_conn = None\<rparr>)))))"

text \<open>An error of a closed connection is reported as an unavailable one.\<close>

definition hide_closed :: "'r res \<Rightarrow> 'r res" where
  "hide_closed r = (case r of Inl e \<Rightarrow> Inl (if errors_Is e ErrClosed then Sentinel ErrUnavailable else e) | Inr x \<Rightarrow> Inr x)"

definition bound_route ::
  "(nat \<Rightarrow> u64 \<Rightarrow> 'v Client \<Rightarrow> 'r res \<times> 'v Client \<times> event list) \<Rightarrow> ('v Conn \<Rightarrow> 'r res \<times> 'v Conn \<times> event list) \<Rightarrow>
   PeerEndpoint option \<Rightarrow> 'v world \<Rightarrow> 'r res \<times> 'v world \<times> event list" where
  "bound_route onClient onConn eo w =
     (case eo of
        None \<Rightarrow> (Inl (Sentinel ErrClosed), w, [])
      | Some e \<Rightarrow>
          if pe_generation e = 0 then (Inl (Sentinel ErrClosed), w, [])
          else
            (case (pe_conn e, pe_client e) of
               (Some g, _) \<Rightarrow>
                 if c_generation (w_conns w g) \<noteq> pe_generation e \<or> e_closed (w_conns w g)
                 then (Inl (Sentinel ErrUnavailable), w, [])
                 else
                   (case onConn (w_conns w g) of
                      (r, c, evs) \<Rightarrow> (hide_closed r, w\<lparr>w_conns := (w_conns w)(g := c)\<rparr>, evs))
             | (None, None) \<Rightarrow> (Inl (Sentinel ErrClosed), w, [])
             | (None, Some (k, conn)) \<Rightarrow>
                 (case onClient conn (pe_generation e) (w_clients w k) of
                    (r, c, evs) \<Rightarrow> (hide_closed r, w\<lparr>w_clients := (w_clients w)(k := c)\<rparr>, evs))))"

text \<open>A call on the endpoint up to its wait (\<open>ch\<close> is the response channel).\<close>

definition PeerEndpoint_CallContext_begin where
  "PeerEndpoint_CallContext_begin ccfg scfg ctx function req resp ch =
     bound_route
       (\<lambda>conn generation c.
          case validateResponseTarget resp of
            Some e \<Rightarrow> (Inl e, c, [])
          | None \<Rightarrow>
              Client_sendRequestToConnection ccfg (Some (normalizeContext ctx)) (Some conn) generation function req
                (SyncPending ch) c)
       (Conn_CallContext_begin scfg ctx function req resp ch)"

definition PeerEndpoint_NotifyContext where
  "PeerEndpoint_NotifyContext ccfg scfg ctx function req =
     bound_route (\<lambda>conn generation. Client_sendNotifyToConnection ccfg ctx (Some conn) generation function req)
       (Conn_sendNotify scfg ctx function req)"

subsection \<open>A peer and what it has opened\<close>

text \<open>A peer together with the dials that run for it, the clients its dials have left open and the
  connections it has admitted that still live. An event that closes one of these takes effect here; a
  cancelled dial goes on until it ends.\<close>

record 'o peer_sys =
  sy_peer :: "'o Peer"
  sy_dials :: "nat set"
  sy_outbound :: "nat set"
  sy_inbound :: "u64 set"

fun peer_effect :: "'o peer_event \<Rightarrow> 'o peer_sys \<Rightarrow> 'o peer_sys" where
  "peer_effect CancelDial y = y"
| "peer_effect (SpawnDial config d) y = y\<lparr>sy_dials := insert d (sy_dials y)\<rparr>"
| "peer_effect (CloseClient k) y = y\<lparr>sy_outbound := sy_outbound y - {k}\<rparr>"
| "peer_effect (CloseConn g) y = y\<lparr>sy_inbound := sy_inbound y - {g}\<rparr>"

abbreviation peer_effects :: "'o peer_event list \<Rightarrow> 'o peer_sys \<Rightarrow> 'o peer_sys" where
  "peer_effects \<equiv> fold peer_effect"

definition new_sys :: "string \<Rightarrow> string \<Rightarrow> 'o peer_sys" where
  "new_sys name key = \<lparr>sy_peer = newPeer name key, sy_dials = {}, sy_outbound = {}, sy_inbound = {}\<rparr>"

text \<open>The steps: a lease is taken or given back, a server asks to admit a connection that is new, tells that
  it is established or that it is gone, a running dial ends with a client that is new, the peer is closed.
  They come in any order. Taking a lease and losing a connection are steps as a whole and in their two parts, so
  that other steps can come between the section under the lock and \<^verbatim>\<open>ensureDial\<close>.\<close>

inductive peer_step :: "string \<Rightarrow> 'o peer_sys \<Rightarrow> 'o peer_sys \<Rightarrow> bool" for localName where
  step_acquire: "acquire config (sy_peer y) = (r, p, evs) \<Longrightarrow> peer_step localName y (peer_effects evs (y\<lparr>sy_peer := p\<rparr>))"
| step_release: "release (sy_peer y) = (p, evs) \<Longrightarrow> peer_step localName y (peer_effects evs (y\<lparr>sy_peer := p\<rparr>))"
| step_accept: "acceptInbound up localName g (sy_peer y) = (r, p, evs) \<Longrightarrow> g \<notin> sy_inbound y \<Longrightarrow>
    peer_step localName y
      (peer_effects evs (y\<lparr>sy_peer := p, sy_inbound := (if r = None then insert g (sy_inbound y) else sy_inbound y)\<rparr>))"
| step_connected: "peer_connected now g (sy_peer y) = (r, p) \<Longrightarrow> peer_step localName y (y\<lparr>sy_peer := p\<rparr>)"
| step_disconnected: "peer_disconnected g (sy_peer y) = (p, evs) \<Longrightarrow>
    peer_step localName y (peer_effects evs (y\<lparr>sy_peer := p, sy_inbound := sy_inbound y - {g}\<rparr>))"
| step_dialed: "d \<in> sy_dials y \<Longrightarrow> k \<notin> sy_outbound y \<Longrightarrow> runDial_end err k now d (sy_peer y) = (keep, p, evs) \<Longrightarrow>
    peer_step localName y
      (peer_effects evs (y\<lparr>sy_peer := p, sy_dials := sy_dials y - {d},
         sy_outbound := (if keep then insert k (sy_outbound y) else sy_outbound y)\<rparr>))"
| step_lease: "acquire_lease config (sy_peer y) = (r, p) \<Longrightarrow> peer_step localName y (y\<lparr>sy_peer := p\<rparr>)"
| step_unlink: "peer_unlink g (sy_peer y) = (b, p) \<Longrightarrow>
    peer_step localName y (y\<lparr>sy_peer := p, sy_inbound := sy_inbound y - {g}\<rparr>)"
| step_ensureDial: "ensureDial (sy_peer y) = (p, evs) \<Longrightarrow> peer_step localName y (peer_effects evs (y\<lparr>sy_peer := p\<rparr>))"
| step_close: "peer_close (sy_peer y) = (p, evs) \<Longrightarrow> peer_step localName y (peer_effects evs (y\<lparr>sy_peer := p\<rparr>))"

abbreviation peer_run :: "string \<Rightarrow> 'o peer_sys \<Rightarrow> 'o peer_sys \<Rightarrow> bool" where
  "peer_run localName \<equiv> (peer_step localName)\<^sup>*\<^sup>*"

definition link_ok :: "peerLink \<Rightarrow> bool" where
  "link_ok l \<longleftrightarrow>
     (case l_direction l of
        PeerDirectionInbound \<Rightarrow> l_client l = None \<and> l_conn l \<noteq> None
      | PeerDirectionOutbound \<Rightarrow> l_client l \<noteq> None \<and> l_conn l = None \<and> l_ready l)"

definition active_client :: "'o Peer \<Rightarrow> nat set" where
  "active_client p = (case p_active p of None \<Rightarrow> {} | Some l \<Rightarrow> set_option (l_client l))"

definition active_conn :: "'o Peer \<Rightarrow> u64 set" where
  "active_conn p = (case p_active p of None \<Rightarrow> {} | Some l \<Rightarrow> set_option (l_conn l))"

definition active_ready :: "'o Peer \<Rightarrow> bool" where
  "active_ready p \<longleftrightarrow> (case p_active p of None \<Rightarrow> False | Some l \<Rightarrow> l_ready l)"

definition peer_ok :: "'o Peer \<Rightarrow> bool" where
  "peer_ok p \<longleftrightarrow>
     \<not> p_panicked p \<and> (\<not> p_peerClosed p \<longrightarrow> p_readyClosed p = active_ready p) \<and>
     (p_peerClosed p \<longrightarrow> p_active p = None) \<and> (\<forall>l. p_active p = Some l \<longrightarrow> link_ok l) \<and>
     p_dialCancel p = p_dialing p \<and> (p_dialing p \<longleftrightarrow> p_dialDone p \<noteq> None) \<and>
     (p_dialing p \<longrightarrow> active_client p = {})"

definition sys_ok :: "'o peer_sys \<Rightarrow> bool" where
  "sys_ok y \<longleftrightarrow>
     peer_ok (sy_peer y) \<and> sy_dials y = set_option (p_dialDone (sy_peer y)) \<and>
     sy_outbound y = active_client (sy_peer y) \<and> sy_inbound y = active_conn (sy_peer y)"

lemmas peer_defs = peer_ok_def link_ok_def active_client_def active_conn_def active_ready_def

lemma sys_ok_new: "sys_ok (new_sys name key)"
  by (simp add: sys_ok_def new_sys_def newPeer_def peer_defs)

text \<open>What the events of an operation add and close.\<close>

definition spawned :: "'o peer_event list \<Rightarrow> nat set" where
  "spawned evs = {d. \<exists>config. SpawnDial config d \<in> set evs}"

definition closed_clients :: "'o peer_event list \<Rightarrow> nat set" where
  "closed_clients evs = {k. CloseClient k \<in> set evs}"

definition closed_conns :: "'o peer_event list \<Rightarrow> u64 set" where
  "closed_conns evs = {g. CloseConn g \<in> set evs}"

lemma event_sets [simp]:
  "spawned [] = {}" "closed_clients [] = {}" "closed_conns [] = {}"
  "spawned (CancelDial # evs) = spawned evs" "spawned (SpawnDial c d # evs) = insert d (spawned evs)"
  "spawned (CloseClient k # evs) = spawned evs" "spawned (CloseConn g # evs) = spawned evs"
  "closed_clients (CancelDial # evs) = closed_clients evs" "closed_clients (SpawnDial c d # evs) = closed_clients evs"
  "closed_clients (CloseClient k # evs) = insert k (closed_clients evs)" "closed_clients (CloseConn g # evs) = closed_clients evs"
  "closed_conns (CancelDial # evs) = closed_conns evs" "closed_conns (SpawnDial c d # evs) = closed_conns evs"
  "closed_conns (CloseClient k # evs) = closed_conns evs" "closed_conns (CloseConn g # evs) = insert g (closed_conns evs)"
  by (auto simp: spawned_def closed_clients_def closed_conns_def)

lemma peer_effects_eq:
  "peer_effects evs y = y\<lparr>sy_dials := sy_dials y \<union> spawned evs, sy_outbound := sy_outbound y - closed_clients evs,
     sy_inbound := sy_inbound y - closed_conns evs\<rparr>"
proof (induction evs arbitrary: y)
  case Nil
  show ?case by simp
next
  case (Cons e evs)
  show ?case by (cases e) (simp_all add: Cons Diff_insert2 [symmetric] Diff_insert [symmetric])
qed

text \<open>An operation that keeps the account: what the peer refers to afterwards is what it referred to before,
  with what the events add and close.\<close>

definition accounts :: "'o Peer \<Rightarrow> nat set \<Rightarrow> u64 set \<Rightarrow> 'o Peer \<Rightarrow> 'o peer_event list \<Rightarrow> bool" where
  "accounts p clients conns p' evs \<longleftrightarrow>
     peer_ok p' \<and> set_option (p_dialDone p') = set_option (p_dialDone p) \<union> spawned evs \<and>
     active_client p' = clients - closed_clients evs \<and> active_conn p' = conns - closed_conns evs"

lemma ensureDial_accounts:
  "ensureDial p = (p', evs) \<Longrightarrow> peer_ok p \<Longrightarrow> accounts p (active_client p) (active_conn p) p' evs"
  by (auto simp: ensureDial_def accounts_def peer_defs split: option.splits if_splits)

lemma acquire_lease_cases:
  assumes "acquire_lease config p = (r, p')"
  obtains (refused) e where "r = Some e" "p' = p"
    | (taken) dc where "r = None" "\<not> p_peerClosed p"
      "p' = p\<lparr>p_dialConfig := Some dc, p_leases := p_leases p + 1, p_lastDialErr := None\<rparr>"
proof (cases "p_peerClosed p")
  case True
  with assms show thesis by (intro refused [of "Sentinel ErrClosed"]) (simp_all add: acquire_lease_def)
next
  case open': False
  show thesis
  proof (cases "p_dialConfig p")
    case None
    with assms open' show thesis by (intro taken [of config]) (simp_all add: acquire_lease_def)
  next
    case (Some d)
    have same: "p\<lparr>p_dialConfig := Some d, p_leases := n, p_lastDialErr := e\<rparr> = p\<lparr>p_leases := n, p_lastDialErr := e\<rparr>" for n e
      using Some by (cases p) simp
    consider "dc_network d = dc_network config" "dc_address d = dc_address config"
      | "dc_network d \<noteq> dc_network config \<or> dc_address d \<noteq> dc_address config" "p_leases p > 0"
      | "dc_network d \<noteq> dc_network config \<or> dc_address d \<noteq> dc_address config" "p_leases p = 0" by blast
    then show thesis
    proof cases
      case 1
      with assms open' Some show thesis by (intro taken [of d]) (simp_all add: acquire_lease_def same)
    next
      case 2
      with assms open' Some show thesis by (intro refused [of "the r"]) (auto simp: acquire_lease_def Let_def)
    next
      case 3
      with assms open' Some show thesis by (intro taken [of config]) (simp_all add: acquire_lease_def Let_def)
    qed
  qed
qed

lemma acquire_cases:
  assumes "acquire config p = (r, p', evs)"
  obtains (refused) e where "r = Some e" "p' = p" "evs = []"
    | (taken) dc where "r = None" "\<not> p_peerClosed p"
      "ensureDial (p\<lparr>p_dialConfig := Some dc, p_leases := p_leases p + 1, p_lastDialErr := None\<rparr>) = (p', evs)"
proof -
  obtain r1 p1 where l: "acquire_lease config p = (r1, p1)" by fastforce
  from l show thesis
  proof (cases rule: acquire_lease_cases)
    case (refused e)
    with assms l have "r = Some e" "p' = p" "evs = []" by (simp_all add: acquire_def)
    with that(1) show thesis by blast
  next
    case (taken dc)
    with assms l show thesis by (intro that(2) [of dc]) (simp_all add: acquire_def)
  qed
qed

lemma acquire_accounts:
  assumes "acquire config p = (r, p', evs)" "peer_ok p"
  shows "accounts p (active_client p) (active_conn p) p' evs"
  using assms(1)
proof (cases rule: acquire_cases)
  case refused
  with assms(2) show ?thesis by (simp add: accounts_def)
next
  case (taken dc)
  let ?q = "p\<lparr>p_dialConfig := Some dc, p_leases := p_leases p + 1, p_lastDialErr := None\<rparr>"
  have "active_client ?q = active_client p" "active_conn ?q = active_conn p" "active_ready ?q = active_ready p"
    by (simp_all add: active_client_def active_conn_def active_ready_def)
  moreover from this assms(2) have "peer_ok ?q" by (simp add: peer_ok_def)
  ultimately show ?thesis using ensureDial_accounts [OF taken(3)] by (simp add: accounts_def)
qed

lemma release_accounts:
  assumes "release p = (p', evs)" "peer_ok p"
  shows "accounts p (active_client p) (active_conn p) p' evs"
proof (cases "p_leases p - 1 = 0 \<and> (\<exists>l. p_active p = Some l \<and> l_direction l = PeerDirectionOutbound)")
  case True
  then obtain l where l: "p_active p = Some l" "l_direction l = PeerDirectionOutbound" by blast
  with assms(2) obtain k where k: "l_client l = Some k" "l_conn l = None" by (auto simp: peer_defs)
  from True l k assms(1) have "p' = p\<lparr>p_leases := p_leases p - 1, p_active := None, p_ready := p_ready p + 1, p_readyClosed := False\<rparr>"
    "evs = (if p_dialCancel p then [CancelDial] else []) @ [CloseClient k]"
    by (auto simp: release_def Let_def)
  with assms(2) l k show ?thesis by (auto simp: accounts_def peer_defs)
next
  case False
  with assms(1) have "p' = p\<lparr>p_leases := p_leases p - 1\<rparr>" "evs = [] \<or> evs = [CancelDial]"
    by (auto simp: release_def Let_def split: if_splits option.splits)
  with assms(2) show ?thesis by (auto simp: accounts_def peer_defs)
qed

text \<open>The end of the running dial: either its client becomes the connection of the peer, or it is closed.\<close>

lemma runDial_end_cases:
  assumes "runDial_end err k now d p = (keep, p', evs)" "p_dialDone p = Some d"
  obtains (kept) "keep" "evs = []" "err = None" "\<not> p_peerClosed p" "p_active p = None"
      "p' = close_ready (p\<lparr>p_dialing := False, p_dialCancel := False, p_dialDone := None,
         p_active := Some \<lparr>l_direction = PeerDirectionOutbound, l_client = Some k, l_conn = None,
            l_ready = True, l_connectedAt = now\<rparr>, p_lastDialErr := None\<rparr>)"
    | (dropped) e where "\<not> keep" "evs = [CloseClient k]" "e = p_lastDialErr p \<or> e = err"
      "p' = p\<lparr>p_dialing := False, p_dialCancel := False, p_dialDone := None, p_lastDialErr := e\<rparr>"
proof (cases "err = None \<and> \<not> p_peerClosed p \<and> p_leases p > 0 \<and> p_active p = None")
  case True
  with assms show thesis by (intro kept) (simp_all add: runDial_end_def Let_def)
next
  case False
  with assms show thesis
    by (intro dropped [of "p_lastDialErr p'"])
      (auto simp: runDial_end_def Let_def split: option.splits if_splits)
qed

lemma runDial_accounts:
  assumes "runDial_end err k now d p = (keep, p', evs)" "peer_ok p" "p_dialDone p = Some d" "k \<notin> active_client p"
  shows "peer_ok p' \<and> p_dialDone p' = None \<and> spawned evs = {} \<and> closed_conns evs = {} \<and>
    active_client p' = (if keep then insert k (active_client p) else active_client p) - closed_clients evs \<and>
    active_conn p' = active_conn p"
  using assms(1,3)
proof (cases rule: runDial_end_cases)
  case kept
  with assms(2) have "\<not> p_readyClosed p" by (simp add: peer_defs)
  with kept assms(2) show ?thesis by (simp add: close_ready_def peer_defs)
next
  case dropped
  with assms(2,4) show ?thesis by (auto simp: peer_ok_def active_client_def active_conn_def active_ready_def)
qed

lemma acceptInbound_cases:
  assumes "acceptInbound up localName g p = (r, p', evs)" "peer_ok p" "g \<notin> active_conn p"
  obtains (refused) e where "r = Some e" "evs = []" "p' = p"
    | (admitted) p0 closing where "r = None" "p_active p0 = None" "peer_ok p0" "p_dialDone p0 = p_dialDone p"
      "\<not> p_peerClosed p0" "active_client p - closed_clients closing = {}" "active_conn p = {}"
      "spawned closing = {}" "closed_conns closing = {}"
      "evs = (if p_dialCancel p0 then [CancelDial] else []) @ closing"
      "p' = p0\<lparr>p_active := Some \<lparr>l_direction = PeerDirectionInbound, l_client = None, l_conn = Some g, l_ready = False,
         l_connectedAt = 0\<rparr>, p_lastDialErr := None\<rparr>"
proof (cases "p_active p")
  case None
  show thesis
  proof (cases r)
    case None
    with assms \<open>p_active p = None\<close> show thesis
      by (intro admitted [of p "[]"]) (auto simp: acceptInbound_def active_client_def active_conn_def Let_def split: if_splits)
  next
    case (Some e)
    with assms None show thesis by (intro refused) (auto simp: acceptInbound_def Let_def split: if_splits)
  qed
next
  case (Some l)
  with assms(2) have lo: "link_ok l" "\<not> p_peerClosed p" by (auto simp: peer_ok_def)
  from assms(3) Some have lc: "l_conn l \<noteq> Some g" by (auto simp: active_conn_def)
  show thesis
  proof (cases "l_direction l = PeerDirectionOutbound \<and> \<not> (case l_client l of None \<Rightarrow> False | Some k \<Rightarrow> up k)")
    case True
    with lo(1) obtain k where k: "l_client l = Some k" "l_conn l = None" by (auto simp: link_ok_def)
    with assms(2) Some have nd: "\<not> p_dialing p" by (auto simp: peer_ok_def active_client_def)
    let ?p0 = "p\<lparr>p_active := None, p_ready := p_ready p + 1, p_readyClosed := False\<rparr>"
    have "peer_ok ?p0" using assms(2) lo(2) by (simp add: peer_ok_def active_client_def active_ready_def)
    then show thesis
      using assms(1) True k Some lo(2) lc nd
      by (intro admitted [of ?p0 "[CloseClient k]"])
        (auto simp: acceptInbound_def active_client_def active_conn_def Let_def)
  next
    case False
    with assms(1) Some lo(2) lc show thesis by (intro refused) (auto simp: acceptInbound_def)
  qed
qed

lemma acceptInbound_accounts:
  assumes "acceptInbound up localName g p = (r, p', evs)" "peer_ok p" "g \<notin> active_conn p"
  shows "accounts p (active_client p) (if r = None then insert g (active_conn p) else active_conn p) p' evs"
  using assms
proof (cases rule: acceptInbound_cases)
  case refused
  with assms(2) show ?thesis by (simp add: accounts_def)
next
  case (admitted p0 closing)
  have e: "spawned evs = {}" "closed_conns evs = {}" "closed_clients evs = closed_clients closing"
    using admitted by (simp_all split: if_splits)
  have "peer_ok p'" using admitted(2,3,5) by (simp add: admitted(11) peer_defs)
  moreover have "p_dialDone p' = p_dialDone p" using admitted by simp
  moreover have "active_client p' = {}" "active_conn p' = {g}" by (simp_all add: admitted(11) active_client_def active_conn_def)
  ultimately show ?thesis using admitted(1,6,7) e by (simp add: accounts_def)
qed

lemma peer_connected_accounts:
  assumes "peer_connected now g p = (r, p')" "peer_ok p"
  shows "accounts p (active_client p) (active_conn p) p' []"
proof (cases "p' = p")
  case True
  with assms(2) show ?thesis by (simp add: accounts_def)
next
  case False
  with assms(1) obtain l where l: "p_active p = Some l" "l_conn l = Some g" "\<not> l_ready l" "\<not> p_peerClosed p"
    "p' = close_ready (p\<lparr>p_active := Some (l\<lparr>l_ready := True, l_connectedAt := now\<rparr>)\<rparr>)"
    by (auto simp: peer_connected_def split: if_splits option.splits)
  moreover have "\<not> p_readyClosed p" "link_ok l" using assms(2) l by (auto simp: peer_ok_def active_ready_def)
  ultimately show ?thesis using assms(2)
    by (auto simp: accounts_def close_ready_def peer_defs split: PeerDirection.splits)
qed

lemma peer_disconnected_accounts:
  assumes "peer_disconnected g p = (p', evs)" "peer_ok p"
  shows "accounts p (active_client p) (active_conn p - {g}) p' evs"
proof (cases "g \<in> active_conn p")
  case False
  then have "p' = p" "evs = []" using assms(1) by (auto simp: peer_disconnected_def peer_unlink_def active_conn_def split: option.splits if_splits)
  with assms(2) False show ?thesis by (simp add: accounts_def)
next
  case True
  then obtain l where l: "p_active p = Some l" "l_conn l = Some g" by (auto simp: active_conn_def split: option.splits)
  with assms(2) have cl: "l_client l = None" "\<not> p_peerClosed p" by (auto simp: peer_defs split: PeerDirection.splits)
  let ?q = "p\<lparr>p_active := None, p_ready := p_ready p + 1, p_readyClosed := False\<rparr>"
  have q: "peer_ok ?q" "active_client ?q = {}" "active_conn ?q = {}" "p_dialDone ?q = p_dialDone p"
    using assms(2) cl(2) by (simp_all add: peer_ok_def active_client_def active_conn_def active_ready_def)
  have "active_client p = {}" "active_conn p = {g}" using l cl by (simp_all add: active_client_def active_conn_def)
  moreover have "(p', evs) = ensureDial ?q \<or> (p' = ?q \<and> evs = [])"
    using assms(1) l by (auto simp: peer_disconnected_def peer_unlink_def Let_def split: if_splits)
  ultimately show ?thesis using ensureDial_accounts [of ?q p' evs] q by (auto simp: accounts_def)
qed

lemma acquire_lease_accounts:
  assumes "acquire_lease config p = (r, p')" "peer_ok p"
  shows "accounts p (active_client p) (active_conn p) p' []"
  using assms(1)
proof (cases rule: acquire_lease_cases)
  case refused
  with assms(2) show ?thesis by (simp add: accounts_def)
next
  case (taken dc)
  with assms(2) show ?thesis by (simp add: accounts_def peer_ok_def active_client_def active_conn_def active_ready_def)
qed

lemma peer_unlink_accounts:
  assumes "peer_unlink g p = (b, p')" "peer_ok p"
  shows "accounts p (active_client p) (active_conn p - {g}) p' []"
proof (cases "g \<in> active_conn p")
  case False
  then have "p' = p" using assms(1) by (auto simp: peer_unlink_def active_conn_def split: option.splits if_splits)
  with assms(2) False show ?thesis by (simp add: accounts_def)
next
  case True
  then obtain l where l: "p_active p = Some l" "l_conn l = Some g" by (auto simp: active_conn_def split: option.splits)
  with assms(2) have cl: "l_client l = None" "\<not> p_peerClosed p" by (auto simp: peer_defs split: PeerDirection.splits)
  with l assms show ?thesis
    by (auto simp: peer_unlink_def Let_def accounts_def peer_ok_def active_client_def active_conn_def active_ready_def)
qed

lemma peer_close_accounts:
  assumes "peer_close p = (p', evs)" "peer_ok p"
  shows "accounts p (active_client p) (active_conn p) p' evs"
proof (cases "p_peerClosed p")
  case True
  with assms show ?thesis by (simp add: peer_close_def accounts_def)
next
  case False
  with assms(1) have p': "p' = p\<lparr>p_peerClosed := True, p_active := None\<rparr>"
    and evs: "spawned evs = {}" "closed_clients evs = active_client p" "closed_conns evs = active_conn p"
    by (auto simp: peer_close_def active_client_def active_conn_def split: option.splits if_splits)
  from assms(2) have "peer_ok p'" by (simp add: p' peer_ok_def active_client_def)
  with evs show ?thesis by (simp add: accounts_def p' active_client_def active_conn_def)
qed

lemma peer_step_ok: "peer_step localName y y' \<Longrightarrow> sys_ok y \<Longrightarrow> sys_ok y'"
proof (induction rule: peer_step.induct)
  case (step_acquire config y r p evs)
  then show ?case using acquire_accounts [of config "sy_peer y" r p evs] by (simp add: sys_ok_def peer_effects_eq accounts_def)
next
  case (step_release y p evs)
  then show ?case using release_accounts [of "sy_peer y" p evs] by (simp add: sys_ok_def peer_effects_eq accounts_def)
next
  case (step_accept up g y r p evs)
  then show ?case using acceptInbound_accounts [of up localName g "sy_peer y" r p evs]
    by (simp add: sys_ok_def peer_effects_eq accounts_def)
next
  case (step_connected now g y r p)
  then show ?case using peer_connected_accounts [of now g "sy_peer y" r p] by (simp add: sys_ok_def accounts_def)
next
  case (step_disconnected g y p evs)
  then show ?case using peer_disconnected_accounts [of g "sy_peer y" p evs] by (simp add: sys_ok_def peer_effects_eq accounts_def)
next
  case (step_dialed d y k err now keep p evs)
  then have "p_dialDone (sy_peer y) = Some d" by (auto simp: sys_ok_def)
  with step_dialed runDial_accounts [of err k now d "sy_peer y" keep p evs] show ?case
    by (simp add: sys_ok_def peer_effects_eq)
next
  case (step_lease config y r p)
  then show ?case using acquire_lease_accounts [of config "sy_peer y" r p] by (simp add: sys_ok_def accounts_def)
next
  case (step_unlink g y b p)
  then show ?case using peer_unlink_accounts [of g "sy_peer y" b p] by (simp add: sys_ok_def accounts_def)
next
  case (step_ensureDial y p evs)
  then show ?case using ensureDial_accounts [of "sy_peer y" p evs] by (simp add: sys_ok_def peer_effects_eq accounts_def)
next
  case (step_close y p evs)
  then show ?case using peer_close_accounts [of "sy_peer y" p evs] by (simp add: sys_ok_def peer_effects_eq accounts_def)
qed

lemma peer_run_ok: "peer_run localName y y' \<Longrightarrow> sys_ok y \<Longrightarrow> sys_ok y'"
  by (induction rule: rtranclp_induct) (auto intro: peer_step_ok)

subsection \<open>The promises of a peer\<close>

text \<open>C29. One connection per peer. Whatever leases are taken and given back, however many connections are
  offered, and however dials and connections end, in any order: at most one dial runs; the clients that its
  dials left open and the connections it admitted that still live are together at most one, and that one is
  the connection calls are routed over, so none is forgotten open; the ready channel is never closed twice and
  is closed exactly while that connection is established; a closed peer has no connection left.\<close>

theorem peer_life:
  assumes "peer_run localName (new_sys name key) y"
  shows "(\<exists>d. sy_dials y \<subseteq> {d}) \<and> (sy_dials y \<noteq> {} \<longleftrightarrow> p_dialing (sy_peer y)) \<and>
    card (sy_outbound y) + card (sy_inbound y) \<le> 1 \<and>
    sy_outbound y = active_client (sy_peer y) \<and> sy_inbound y = active_conn (sy_peer y) \<and>
    \<not> p_panicked (sy_peer y) \<and> (\<not> p_peerClosed (sy_peer y) \<longrightarrow> p_readyClosed (sy_peer y) = active_ready (sy_peer y)) \<and>
    (p_peerClosed (sy_peer y) \<longrightarrow> sy_outbound y = {} \<and> sy_inbound y = {})"
proof -
  have ok: "sys_ok y" using peer_run_ok [OF assms sys_ok_new] .
  have "card (active_client (sy_peer y)) + card (active_conn (sy_peer y)) \<le> 1"
    using ok by (auto simp: sys_ok_def peer_defs split: option.splits PeerDirection.splits)
  moreover have "p_peerClosed (sy_peer y) \<longrightarrow> active_client (sy_peer y) = {} \<and> active_conn (sy_peer y) = {}"
    using ok by (simp add: sys_ok_def peer_ok_def active_client_def active_conn_def)
  moreover have "sy_dials y = set_option (p_dialDone (sy_peer y))" "p_dialing (sy_peer y) \<longleftrightarrow> p_dialDone (sy_peer y) \<noteq> None"
    using ok by (simp_all add: sys_ok_def peer_ok_def)
  ultimately show ?thesis using ok by (cases "p_dialDone (sy_peer y)") (simp_all add: sys_ok_def peer_ok_def)
qed

theorem peer_life_witness:
  "\<exists>y. peer_run ''zeta'' (new_sys ''alpha'' ''alpha'' :: unit peer_sys) y \<and> sy_outbound y = {7} \<and> sy_inbound y = {} \<and>
     sy_dials y = {} \<and> card (sy_outbound y) + card (sy_inbound y) \<le> 1 \<and> \<not> p_panicked (sy_peer y)"
proof -
  let ?c = "\<lparr>dc_network = ''tcp'', dc_address = ''host:1'', dc_options = ()\<rparr>"
  let ?y0 = "new_sys ''alpha'' ''alpha'' :: unit peer_sys"
  define y1 where "y1 = peer_effects (snd (snd (acquire ?c (sy_peer ?y0)))) (?y0\<lparr>sy_peer := fst (snd (acquire ?c (sy_peer ?y0)))\<rparr>)"
  let ?d = "runDial_end None 7 0 0 (sy_peer y1)"
  define y2 where "y2 = peer_effects (snd (snd ?d)) (y1\<lparr>sy_peer := fst (snd ?d), sy_dials := sy_dials y1 - {0},
      sy_outbound := (if fst ?d then insert 7 (sy_outbound y1) else sy_outbound y1)\<rparr>)"
  have y1: "y1 = ?y0\<lparr>sy_peer := (newPeer ''alpha'' ''alpha'')\<lparr>p_dialConfig := Some ?c, p_leases := 1, p_dialing := True,
      p_dialCancel := True, p_dialDone := Some 0, p_nextDone := 1\<rparr>, sy_dials := {0}\<rparr>"
    by (simp add: y1_def new_sys_def newPeer_def acquire_def acquire_lease_def ensureDial_def)
  have "peer_step ''zeta'' ?y0 y1" unfolding y1_def by (rule step_acquire [of ?c _ "fst (acquire ?c (sy_peer ?y0))"]) simp
  moreover have "peer_step ''zeta'' y1 y2" unfolding y2_def
    by (rule step_dialed [where err = None and now = 0]) (simp_all add: y1 new_sys_def)
  ultimately have run: "peer_run ''zeta'' ?y0 y2" by (meson rtranclp.intros)
  have "sy_outbound y2 = {7}" "sy_inbound y2 = {}" "sy_dials y2 = {}"
    by (simp_all add: y2_def y1 runDial_end_def newPeer_def new_sys_def)
  with run peer_life [OF run] show ?thesis by blast
qed

subsection \<open>Arbitration\<close>

lemma preferOutbound_total:
  "normalizePeerName a \<noteq> normalizePeerName b \<Longrightarrow> preferOutbound a b \<noteq> preferOutbound b a"
  by (auto simp: preferOutbound_def)

definition crossing :: "string \<Rightarrow> nat \<Rightarrow> 'o Peer \<Rightarrow> bool" where
  "crossing remote d p \<longleftrightarrow>
     peer_ok p \<and> \<not> p_peerClosed p \<and> p_active p = None \<and> p_dialDone p = Some d \<and> p_leases p > 0 \<and>
     normalizePeerName (p_name p) = normalizePeerName remote"

lemma crossing_dialing: "crossing remote d p \<Longrightarrow> p_dialing p \<and> p_dialCancel p \<and> \<not> p_readyClosed p"
  by (auto simp: crossing_def peer_ok_def active_ready_def)

text \<open>C30. Two processes that dial each other at the same time keep the same socket. Of two different
  names exactly one prefers its own dial. Let it be that of A. Then A refuses the connection from B with the
  peer-connected error and is not changed by it; B admits the connection from A and cancels its own dial. When
  A's dial succeeds, A uses it. When B is told that the connection is established and its cancelled or refused
  dial ends, before or after that, B closes the client of that dial, uses the connection from A and
  reports no error.\<close>

theorem crossing_dials_keep_one_socket:
  assumes names: "normalizePeerName a < normalizePeerName b" and a: "crossing b da pa" and b: "crossing a db pb"
    and e: "errors_Is e ContextCanceled \<or> errors_Is e ErrPeerConnected"
  shows "preferOutbound a b \<and> \<not> preferOutbound b a \<and>
    acceptInbound up a gb pa = (Some (Sentinel ErrPeerConnected), pa, []) \<and>
    (\<exists>pa'. runDial_end None ka now da pa = (True, pa', []) \<and> active_client pa' = {ka} \<and> active_ready pa') \<and>
    (\<exists>pb1 pb2 pb3. acceptInbound up' b ga pb = (None, pb1, [CancelDial]) \<and> peer_connected now ga pb1 = (None, pb2) \<and>
       runDial_end (Some e) kb now db pb2 = (False, pb3, [CloseClient kb]) \<and>
       active_conn pb3 = {ga} \<and> active_ready pb3 \<and> p_lastDialErr pb3 = None \<and> \<not> p_panicked pb3 \<and>
       (\<exists>pb4. runDial_end (Some e) kb now db pb1 = (False, pb4, [CloseClient kb]) \<and> peer_connected now ga pb4 = (None, pb3)))"
proof -
  note da = crossing_dialing [OF a] and db = crossing_dialing [OF b]
  have pref: "preferOutbound a b" "\<not> preferOutbound b a" using names by (simp_all add: preferOutbound_def)
  have prefp: "preferOutbound a (p_name pa)" "\<not> preferOutbound b (p_name pb)"
    using pref a b by (simp_all add: preferOutbound_def crossing_def)
  have "acceptInbound up a gb pa = (Some (Sentinel ErrPeerConnected), pa, [])"
    using a da prefp by (simp add: acceptInbound_def crossing_def)
  moreover have "\<exists>pa'. runDial_end None ka now da pa = (True, pa', []) \<and> active_client pa' = {ka} \<and> active_ready pa'"
    using a da by (simp add: runDial_end_def crossing_def close_ready_def active_client_def active_ready_def)
  moreover define link where "link = \<lparr>l_direction = PeerDirectionInbound, l_client = None, l_conn = Some ga, l_ready = False,
      l_connectedAt = 0\<rparr>"
  define pb1 where "pb1 = pb\<lparr>p_active := Some link, p_lastDialErr := None\<rparr>"
  define pb2 where "pb2 = pb1\<lparr>p_active := Some (link\<lparr>l_ready := True, l_connectedAt := now\<rparr>), p_readyClosed := True\<rparr>"
  have "acceptInbound up' b ga pb = (None, pb1, [CancelDial])"
    using b db prefp by (simp add: acceptInbound_def crossing_def pb1_def link_def)
  moreover have "peer_connected now ga pb1 = (None, pb2)"
    using b db by (simp add: peer_connected_def crossing_def pb1_def pb2_def link_def close_ready_def)
  moreover have "\<exists>pb3. runDial_end (Some e) kb now db pb2 = (False, pb3, [CloseClient kb]) \<and>
       active_conn pb3 = {ga} \<and> active_ready pb3 \<and> p_lastDialErr pb3 = None \<and> \<not> p_panicked pb3 \<and>
       (\<exists>pb4. runDial_end (Some e) kb now db pb1 = (False, pb4, [CloseClient kb]) \<and> peer_connected now ga pb4 = (None, pb3))"
    using b db e
    by (auto simp: runDial_end_def crossing_def peer_ok_def pb1_def pb2_def link_def peer_connected_def close_ready_def
        active_conn_def active_ready_def Let_def)
  ultimately show ?thesis using pref by blast
qed

text \<open>The peers of the examples: a lease is held on them and their dial runs.\<close>

definition dialing_peer :: "string \<Rightarrow> unit Peer" where
  "dialing_peer name =
     fst (snd (acquire \<lparr>dc_network = ''tcp'', dc_address = ''host:1'', dc_options = ()\<rparr> (newPeer name name)))"

lemma dialing_peer_eq:
  "dialing_peer name = (newPeer name name)\<lparr>p_dialConfig := Some \<lparr>dc_network = ''tcp'', dc_address = ''host:1'', dc_options = ()\<rparr>,
     p_dialing := True, p_dialCancel := True, p_dialDone := Some 0, p_nextDone := 1, p_leases := 1\<rparr>"
  by (simp add: dialing_peer_def acquire_def acquire_lease_def ensureDial_def newPeer_def)

lemma crossing_dialing_peer: "crossing name 0 (dialing_peer name)"
  by (simp add: crossing_def dialing_peer_eq newPeer_def peer_defs)

theorem crossing_dials_keep_one_socket_witness:
  "acceptInbound (\<lambda>_. False) ''alpha'' 3 (dialing_peer ''zeta'') = (Some (Sentinel ErrPeerConnected), dialing_peer ''zeta'', []) \<and>
   (\<exists>pb1. acceptInbound (\<lambda>_. False) ''zeta'' 5 (dialing_peer ''alpha'') = (None, pb1, [CancelDial]))"
proof -
  have "normalizePeerName ''alpha'' < normalizePeerName ''zeta''" by code_simp
  from crossing_dials_keep_one_socket [OF this crossing_dialing_peer crossing_dialing_peer,
      of "Sentinel ErrPeerConnected" "\<lambda>_. False" 3 7 0 "\<lambda>_. False" 5 8]
  show ?thesis by auto
qed

subsection \<open>Leases\<close>

text \<open>C33. Leases. Giving back a lease while others are held changes nothing but their number; giving back
  the last one cancels the dial and closes the outbound client, and leaves an inbound connection alone. Closing
  a lease a second time does nothing. When the connection a server had admitted is lost and no dial runs, one
  dial is started, with the configuration of the peer, if a lease is held, and none otherwise. While a dial still
  runs none is started, leases or not.\<close>

theorem leases_are_independent:
  assumes "peer_ok p" "p_dialConfig p = Some config"
  shows "(p_leases p > 1 \<longrightarrow> release p = (p\<lparr>p_leases := p_leases p - 1\<rparr>, [])) \<and>
    (p_leases p = 1 \<and> release p = (p', evs) \<longrightarrow>
      closed_clients evs = active_client p \<and> (CancelDial \<in> set evs \<longleftrightarrow> p_dialing p) \<and> closed_conns evs = {} \<and>
      active_client p' = {} \<and> active_conn p' = active_conn p) \<and>
    PeerClient_Close (fst (PeerClient_Close c m)) (fst (snd (PeerClient_Close c m))) =
      (fst (PeerClient_Close c m), fst (snd (PeerClient_Close c m)), []) \<and>
    (g \<in> active_conn p \<and> \<not> p_dialing p \<longrightarrow>
      peer_disconnected g p =
        (if p_leases p > 0
         then (p\<lparr>p_active := None, p_ready := p_ready p + 1, p_readyClosed := False, p_dialing := True, p_dialCancel := True,
                 p_dialDone := Some (p_nextDone p), p_lastDialErr := None, p_nextDone := p_nextDone p + 1\<rparr>,
               [SpawnDial config (p_nextDone p)])
         else (p\<lparr>p_active := None, p_ready := p_ready p + 1, p_readyClosed := False\<rparr>, []))) \<and>
    (g \<in> active_conn p \<and> p_dialing p \<longrightarrow>
      peer_disconnected g p = (p\<lparr>p_active := None, p_ready := p_ready p + 1, p_readyClosed := False\<rparr>, []))"
proof -
  have "release p = (p\<lparr>p_leases := p_leases p - 1\<rparr>, [])" if "p_leases p > 1" using that by (simp add: release_def)
  moreover have "closed_clients evs = active_client p \<and> (CancelDial \<in> set evs \<longleftrightarrow> p_dialing p) \<and> closed_conns evs = {} \<and>
      active_client p' = {} \<and> active_conn p' = active_conn p" if "p_leases p = 1" "release p = (p', evs)"
  proof (cases "p_active p")
    case None
    with that assms(1) show ?thesis by (auto simp: release_def peer_ok_def active_client_def active_conn_def)
  next
    case (Some l)
    with assms(1) have "link_ok l" "p_dialCancel p = p_dialing p" by (simp_all add: peer_ok_def)
    with Some that show ?thesis
      by (cases "l_direction l") (auto simp: release_def link_ok_def active_client_def active_conn_def)
  qed
  moreover have "PeerClient_Close (fst (PeerClient_Close c m)) (fst (snd (PeerClient_Close c m))) =
      (fst (PeerClient_Close c m), fst (snd (PeerClient_Close c m)), [])"
    by (simp add: PeerClient_Close_def split: prod.splits)
  moreover have "peer_disconnected g p =
        (if p_leases p > 0
         then (p\<lparr>p_active := None, p_ready := p_ready p + 1, p_readyClosed := False, p_dialing := True, p_dialCancel := True,
                 p_dialDone := Some (p_nextDone p), p_lastDialErr := None, p_nextDone := p_nextDone p + 1\<rparr>,
               [SpawnDial config (p_nextDone p)])
         else (p\<lparr>p_active := None, p_ready := p_ready p + 1, p_readyClosed := False\<rparr>, []))"
    if g: "g \<in> active_conn p" "\<not> p_dialing p"
  proof -
    from g(1) obtain l where l: "p_active p = Some l" "l_conn l = Some g" by (auto simp: active_conn_def split: option.splits)
    with assms(1) have "\<not> p_peerClosed p" by (auto simp: peer_ok_def)
    with l g(2) assms(2) show ?thesis by (simp add: peer_disconnected_def peer_unlink_def ensureDial_def)
  qed
  moreover have "peer_disconnected g p = (p\<lparr>p_active := None, p_ready := p_ready p + 1, p_readyClosed := False\<rparr>, [])"
    if g: "g \<in> active_conn p" "p_dialing p"
  proof -
    from g(1) obtain l where "p_active p = Some l" "l_conn l = Some g" by (auto simp: active_conn_def split: option.splits)
    with g(2) assms(2) show ?thesis by (simp add: peer_disconnected_def peer_unlink_def ensureDial_def)
  qed
  ultimately show ?thesis by blast
qed

theorem leases_are_independent_witness:
  "peer_disconnected 5 ((dialing_peer ''alpha'')\<lparr>p_dialing := False, p_dialCancel := False, p_dialDone := None, p_active :=
       Some \<lparr>l_direction = PeerDirectionInbound, l_client = None, l_conn = Some 5, l_ready = False, l_connectedAt = 0\<rparr>\<rparr>) =
     ((dialing_peer ''alpha'')\<lparr>p_ready := 1, p_dialDone := Some 1, p_nextDone := 2\<rparr>,
      [SpawnDial \<lparr>dc_network = ''tcp'', dc_address = ''host:1'', dc_options = ()\<rparr> 1])"
proof -
  define p where "p = (dialing_peer ''alpha'')\<lparr>p_dialing := False, p_dialCancel := False, p_dialDone := None, p_active :=
       Some \<lparr>l_direction = PeerDirectionInbound, l_client = None, l_conn = Some 5, l_ready = False, l_connectedAt = 0\<rparr>\<rparr>"
  have "peer_ok p" "p_dialConfig p = Some \<lparr>dc_network = ''tcp'', dc_address = ''host:1'', dc_options = ()\<rparr>" "5 \<in> active_conn p"
    "\<not> p_dialing p" "p_leases p = 1" "p_nextDone p = 1"
    by (simp_all add: p_def dialing_peer_eq newPeer_def peer_defs)
  note p = this
  have "peer_disconnected 5 p = (p\<lparr>p_active := None, p_ready := p_ready p + 1, p_readyClosed := False, p_dialing := True, p_dialCancel := True,
      p_dialDone := Some 1, p_lastDialErr := None, p_nextDone := 2\<rparr>,
      [SpawnDial \<lparr>dc_network = ''tcp'', dc_address = ''host:1'', dc_options = ()\<rparr> 1])"
    using leases_are_independent [OF p(1,2), of p "[]" "\<lparr>pc_peer = ''alpha'', pc_closed = True\<rparr>"
        "NewPeerManager ''zeta'' :: unit PeerManager" 5] p(3-6) by (simp add: numeral_2_eq_2)
  then show ?thesis unfolding p_def by (simp add: dialing_peer_eq newPeer_def)
qed

definition stranded :: "'o Peer \<Rightarrow> bool" where
  "stranded p \<longleftrightarrow> p_leases p > 0 \<and> \<not> p_peerClosed p \<and> p_active p = None \<and> \<not> p_dialing p \<and> p_lastDialErr p = None"

lemma stranded_waits: "stranded p \<Longrightarrow> Peer_WaitReady w False None p = Blocked"
  by (simp add: stranded_def Peer_WaitReady_def Peer_wait_def normalizeContext_def backgroundContext_def)

text \<open>C34. A dial that was cancelled can leave a leased peer without any: the redial is lost. Let a peer
  hold a lease while its dial runs. If it admits an inbound connection, the dial is cancelled; if that connection
  is lost before the cancelled dial has ended, no new dial is started, because one still runs; and when it
  ends, with the context error, none is started either. The same happens when the last lease is given back and a
  new one is taken before the cancelled dial has ended. In the state that is reached the peer is open, a lease is
  held, there is no connection, no dial and no error, and waiting for the peer does not return.\<close>

theorem redial_is_lost:
  assumes p: "crossing remote d p" "p_lastDialErr p = None" "p_dialConfig p = Some config"
    and names: "\<not> preferOutbound localName (p_name p)" and e: "errors_Is e ContextCanceled"
  shows "(\<exists>p1 p2 p3. acceptInbound up localName g p = (None, p1, [CancelDial]) \<and> peer_disconnected g p1 = (p2, []) \<and>
      runDial_end (Some e) k now d p2 = (False, p3, [CloseClient k]) \<and>
      p_leases p3 = p_leases p \<and> stranded p3 \<and> Peer_WaitReady w False None p3 = Blocked) \<and>
    (p_leases p = 1 \<longrightarrow>
      (\<exists>p1 p2 p3. release p = (p1, [CancelDial]) \<and> acquire config p1 = (None, p2, []) \<and>
        runDial_end (Some e) k now d p2 = (False, p3, [CloseClient k]) \<and>
        stranded p3 \<and> Peer_WaitReady w False None p3 = Blocked))"
proof -
  note dl = crossing_dialing [OF p(1)]
  have "\<exists>p1 p2 p3. acceptInbound up localName g p = (None, p1, [CancelDial]) \<and> peer_disconnected g p1 = (p2, []) \<and>
      runDial_end (Some e) k now d p2 = (False, p3, [CloseClient k]) \<and> p_leases p3 = p_leases p \<and> stranded p3"
    using p dl names e
    by (auto simp: acceptInbound_def peer_disconnected_def peer_unlink_def ensureDial_def runDial_end_def crossing_def stranded_def)
  moreover have "\<exists>p1 p2 p3. release p = (p1, [CancelDial]) \<and> acquire config p1 = (None, p2, []) \<and>
        runDial_end (Some e) k now d p2 = (False, p3, [CloseClient k]) \<and> stranded p3" if "p_leases p = 1"
    using p dl e that
    by (auto simp: release_def acquire_def acquire_lease_def ensureDial_def runDial_end_def crossing_def stranded_def)
  ultimately show ?thesis using stranded_waits by blast
qed

theorem redial_is_lost_witness:
  "\<exists>p1 p2 p3. acceptInbound (\<lambda>_. False) ''zeta'' 5 (dialing_peer ''alpha'') = (None, p1, [CancelDial]) \<and>
     peer_disconnected 5 p1 = (p2, []) \<and>
     runDial_end (Some (Sentinel ContextCanceled)) 7 0 0 p2 = (False, p3, [CloseClient 7]) \<and>
     p_leases p3 = 1 \<and> stranded p3"
proof -
  let ?c = "\<lparr>dc_network = ''tcp'', dc_address = ''host:1'', dc_options = ()\<rparr>"
  have "p_lastDialErr (dialing_peer ''alpha'') = None" "p_dialConfig (dialing_peer ''alpha'') = Some ?c"
    "p_leases (dialing_peer ''alpha'') = 1" by (simp_all add: dialing_peer_eq newPeer_def)
  moreover have "\<not> preferOutbound ''zeta'' (p_name (dialing_peer ''alpha''))"
    by (simp add: dialing_peer_eq newPeer_def) code_simp
  ultimately show ?thesis
    using redial_is_lost [OF crossing_dialing_peer, of "''alpha''" ?c "''zeta''" "Sentinel ContextCanceled" "\<lambda>_. False" 5 7 0
        "undefined :: bytes world"]
    by auto
qed

subsection \<open>Waiting callers\<close>

text \<open>A caller of \<^verbatim>\<open>WaitReady\<close> that has reached the select holds the two channels it has read; a step of
  the peer wakes it by closing one of them.\<close>

record waiter =
  wt_ready :: nat
  wt_dialDone :: "nat option"

definition waits :: "'o Peer \<Rightarrow> waiter option" where
  "waits p =
     (if p_peerClosed p \<or> active_ready p \<or> \<not> p_dialing p \<and> p_lastDialErr p \<noteq> None then None
      else Some \<lparr>wt_ready = p_ready p, wt_dialDone = p_dialDone p\<rparr>)"

definition wakes :: "waiter \<Rightarrow> 'o Peer \<Rightarrow> 'o Peer \<Rightarrow> bool" where
  "wakes wt p p' \<longleftrightarrow>
     p_ready p = wt_ready wt \<and> \<not> p_readyClosed p \<and> p_ready p' = wt_ready wt \<and> p_readyClosed p' \<or>
     wt_dialDone wt \<noteq> None \<and> p_dialDone p = wt_dialDone wt \<and> p_dialDone p' \<noteq> p_dialDone p"

lemma close_ready_sel [simp]: "p_ready (close_ready p) = p_ready p"
  by (simp add: close_ready_def)

lemma ensureDial_ready: "ensureDial p = (p', evs) \<Longrightarrow> p_ready p' = p_ready p"
  by (auto simp: ensureDial_def split: option.splits if_splits)

lemma acquire_ready: "acquire config p = (r, p', evs) \<Longrightarrow> p_ready p' = p_ready p"
  by (erule acquire_cases) (auto dest: ensureDial_ready)

lemma peer_step_ready: "peer_step localName y y' \<Longrightarrow> p_ready (sy_peer y) \<le> p_ready (sy_peer y')"
proof (induction rule: peer_step.induct)
  case (step_acquire config y r p evs)
  then show ?case using acquire_ready by (fastforce simp: peer_effects_eq)
next
  case (step_release y p evs)
  then show ?case by (auto simp: peer_effects_eq release_def Let_def split: if_splits option.splits)
next
  case (step_accept up g y r p evs)
  then show ?case by (auto simp: peer_effects_eq acceptInbound_def Let_def split: if_splits option.splits)
next
  case (step_connected now g y r p)
  then show ?case by (auto simp: peer_connected_def split: if_splits option.splits)
next
  case (step_disconnected g y p evs)
  then show ?case by (auto simp: peer_effects_eq peer_disconnected_def peer_unlink_def Let_def dest: ensureDial_ready split: if_splits option.splits)
next
  case (step_dialed d y k err now keep p evs)
  then show ?case by (auto simp: peer_effects_eq runDial_end_def Let_def split: if_splits option.splits)
next
  case (step_lease config y r p)
  then show ?case by (auto elim: acquire_lease_cases)
next
  case (step_unlink g y b p)
  then show ?case by (auto simp: peer_unlink_def Let_def split: if_splits option.splits)
next
  case (step_ensureDial y p evs)
  then show ?case by (auto simp: peer_effects_eq dest: ensureDial_ready)
next
  case (step_close y p evs)
  then show ?case by (auto simp: peer_effects_eq peer_close_def split: if_splits)
qed

lemma peer_run_ready: "peer_run localName y y' \<Longrightarrow> p_ready (sy_peer y) \<le> p_ready (sy_peer y')"
  by (induction rule: rtranclp_induct) (auto dest: peer_step_ready)

text \<open>C35. A waiting caller can be forgotten. Let a connection be admitted and not yet established, no dial run, and a
  caller wait for the peer. If the connection is lost, its ready channel is replaced without being closed: neither
  this step nor any later step of the peer wakes the caller, also when the peer gets a connection again; only the end of
  its own context or that of the manager does.\<close>

theorem waiter_is_forgotten:
  assumes y: "sys_ok y" "g \<in> active_conn (sy_peer y)" "waits (sy_peer y) = Some wt" "\<not> p_dialing (sy_peer y)"
    and lost: "peer_disconnected g (sy_peer y) = (p1, evs)"
    and y1: "y1 = peer_effects evs (y\<lparr>sy_peer := p1, sy_inbound := sy_inbound y - {g}\<rparr>)"
  shows "\<not> wakes wt (sy_peer y) (sy_peer y1) \<and>
    (peer_run localName y1 y2 \<and> peer_step localName y2 y3 \<longrightarrow> \<not> wakes wt (sy_peer y2) (sy_peer y3))"
proof -
  from y have wt: "wt = \<lparr>wt_ready = p_ready (sy_peer y), wt_dialDone = None\<rparr>"
    by (auto simp: waits_def sys_ok_def peer_ok_def split: if_splits)
  from y(2) obtain l where l: "p_active (sy_peer y) = Some l" "l_conn l = Some g"
    by (auto simp: active_conn_def split: option.splits)
  with lost have r: "p_ready (sy_peer y1) = Suc (p_ready (sy_peer y))"
    by (auto simp: y1 peer_effects_eq peer_disconnected_def peer_unlink_def Let_def dest: ensureDial_ready split: if_splits)
  have "p_ready (sy_peer y2) \<noteq> wt_ready wt" if "peer_run localName y1 y2"
    using peer_run_ready [OF that] r wt by simp
  with r wt show ?thesis by (auto simp: wakes_def)
qed

text \<open>The witness: a peer that no lease holds; a connection is admitted and lost while a caller waits, and another one
  is admitted and established.\<close>

theorem waiter_is_forgotten_witness:
  "\<exists>y wt y1 y2 y3. peer_run ''zeta'' (new_sys ''alpha'' ''alpha'' :: unit peer_sys) y \<and> waits (sy_peer y) = Some wt \<and>
     peer_step ''zeta'' y y1 \<and> peer_run ''zeta'' y1 y2 \<and> peer_step ''zeta'' y2 y3 \<and> active_ready (sy_peer y3) \<and>
     \<not> wakes wt (sy_peer y) (sy_peer y1) \<and> \<not> wakes wt (sy_peer y2) (sy_peer y3)"
proof -
  let ?y0 = "new_sys ''alpha'' ''alpha'' :: unit peer_sys"
  let ?l = "\<lambda>g. \<lparr>l_direction = PeerDirectionInbound, l_client = None, l_conn = Some g, l_ready = False, l_connectedAt = 0\<rparr>"
  let ?p = "newPeer ''alpha'' ''alpha'' :: unit Peer"
  define y where "y = ?y0\<lparr>sy_peer := ?p\<lparr>p_active := Some (?l 5)\<rparr>, sy_inbound := {5}\<rparr>"
  define y1 where "y1 = ?y0\<lparr>sy_peer := ?p\<lparr>p_ready := 1\<rparr>\<rparr>"
  define y2 where "y2 = ?y0\<lparr>sy_peer := ?p\<lparr>p_ready := 1, p_active := Some (?l 6)\<rparr>, sy_inbound := {6}\<rparr>"
  define y3 where "y3 = y2\<lparr>sy_peer := snd (peer_connected 0 6 (sy_peer y2))\<rparr>"
  have a: "acceptInbound (\<lambda>_. False) ''zeta'' 5 ?p = (None, sy_peer y, [])"
    "acceptInbound (\<lambda>_. False) ''zeta'' 6 (sy_peer y1) = (None, sy_peer y2, [])"
    by (simp_all add: acceptInbound_def newPeer_def y_def y1_def y2_def)
  have s: "peer_step ''zeta'' ?y0 y" "peer_step ''zeta'' y1 y2"
    using step_accept [of "\<lambda>_. False" "''zeta''" 5 ?y0 None "sy_peer y" "[]"]
      step_accept [of "\<lambda>_. False" "''zeta''" 6 y1 None "sy_peer y2" "[]"] a
    by (simp_all add: y_def y1_def y2_def new_sys_def)
  have d: "peer_disconnected 5 (sy_peer y) = (sy_peer y1, [])" "y1 = peer_effects [] (y\<lparr>sy_peer := sy_peer y1, sy_inbound := sy_inbound y - {5}\<rparr>)"
    by (simp_all add: y_def y1_def peer_disconnected_def peer_unlink_def newPeer_def new_sys_def)
  from step_disconnected [OF d(1), of "''zeta''"] d(2) have s1: "peer_step ''zeta'' y y1" by simp
  have s2: "peer_step ''zeta'' y2 y3" unfolding y3_def by (rule step_connected [OF surjective_pairing])
  have run: "peer_run ''zeta'' ?y0 y" "peer_run ''zeta'' y1 y2" using s by (simp_all add: r_into_rtranclp)
  have w: "waits (sy_peer y) = Some \<lparr>wt_ready = 0, wt_dialDone = None\<rparr>"
    by (simp add: waits_def y_def newPeer_def active_ready_def)
  have "5 \<in> active_conn (sy_peer y)" "\<not> p_dialing (sy_peer y)" by (simp_all add: y_def newPeer_def active_conn_def)
  from waiter_is_forgotten [OF peer_run_ok [OF run(1) sys_ok_new] this(1) w this(2) d, of "''zeta''" y2 y3] run(2) s2
  have "\<not> wakes \<lparr>wt_ready = 0, wt_dialDone = None\<rparr> (sy_peer y) (sy_peer y1)"
    "\<not> wakes \<lparr>wt_ready = 0, wt_dialDone = None\<rparr> (sy_peer y2) (sy_peer y3)" by simp_all
  moreover have "active_ready (sy_peer y3)"
    by (simp add: y3_def y2_def peer_connected_def newPeer_def close_ready_def active_ready_def)
  ultimately show ?thesis using run s1 s2 w by blast
qed

subsection \<open>The manager keeps its peers\<close>

text \<open>What other goroutines do to the manager between two calls of one connection. A dial that ends brings
  a client that is new.\<close>

datatype ('v, 'o) manager_op =
    MDial string "'o peerDialConfig"
  | MRelease string
  | MDialed string "gerror option" nat int nat
  | MAccept "nat \<Rightarrow> bool" "'v Conn"
  | MConnected int "'v Conn"
  | MDisconnected "'v Conn"
  | MClose

fun on_peer :: "string \<Rightarrow> ('o Peer \<Rightarrow> 'o Peer) \<Rightarrow> 'o PeerManager \<Rightarrow> 'o PeerManager" where
  "on_peer key f m = (case map_of (m_peers m) key of None \<Rightarrow> m | Some p \<Rightarrow> put_peer key (f p) m)"

fun perform :: "('v, 'o) manager_op \<Rightarrow> 'o PeerManager \<Rightarrow> 'o PeerManager" where
  "perform (MDial name config) m = fst (snd (Dial_begin name config m))"
| "perform (MRelease key) m = on_peer key (\<lambda>p. fst (release p)) m"
| "perform (MDialed key err k now d) m =
     on_peer key (\<lambda>p. if k \<in> active_client p then p else fst (snd (runDial_end err k now d p))) m"
| "perform (MAccept up conn) m = fst (snd (manager_acceptInbound up conn m))"
| "perform (MConnected now conn) m = snd (manager_connected now conn m)"
| "perform (MDisconnected conn) m = fst (manager_disconnected conn m)"
| "perform MClose m = fst (manager_Close m)"

fun admits :: "u64 \<Rightarrow> ('v, 'o) manager_op \<Rightarrow> bool" where
  "admits g (MAccept up conn) = (c_generation conn = g)"
| "admits g _ = False"

definition others :: "u64 \<Rightarrow> ('v, 'o) manager_op list \<Rightarrow> 'o PeerManager \<Rightarrow> 'o PeerManager" where
  "others g ops m = fold perform (filter (\<lambda>op. \<not> admits g op) ops) m"

definition manager_ok :: "'o PeerManager \<Rightarrow> bool" where
  "manager_ok m \<longleftrightarrow>
     tbl_ok (m_peers m) \<and>
     (\<forall>key p. map_of (m_peers m) key = Some p \<longrightarrow>
        peer_ok p \<and> key \<noteq> '''' \<and> key \<noteq> normalizePeerName (m_localName m) \<and> (m_closed m \<longrightarrow> p_peerClosed p))"

definition holds :: "u64 \<Rightarrow> string \<Rightarrow> 'o PeerManager \<Rightarrow> bool" where
  "holds g key m \<longleftrightarrow> (\<exists>p. map_of (m_peers m) key = Some p \<and> g \<in> active_conn p)"

abbreviation peer_key :: "string \<Rightarrow> string" where
  "peer_key name \<equiv> normalizePeerName (TrimSpace name)"

definition held :: "string \<Rightarrow> u64 \<Rightarrow> 'o PeerManager \<Rightarrow> bool" where
  "held name g m \<longleftrightarrow> manager_ok m \<and> (\<forall>key. holds g key m \<longrightarrow> key = peer_key name)"

definition free :: "u64 \<Rightarrow> 'o PeerManager \<Rightarrow> bool" where
  "free g m \<longleftrightarrow> manager_ok m \<and> (\<forall>key. \<not> holds g key m)"

lemma free_new [simp]: "free g (NewPeerManager localName)"
  by (simp add: free_def manager_ok_def holds_def NewPeerManager_def)

lemma put_peer_sel [simp]:
  "m_peers (put_peer key p m) = tbl_put key p (m_peers m)" "m_localName (put_peer key p m) = m_localName m"
  "m_closed (put_peer key p m) = m_closed m"
  by (simp_all add: put_peer_def)

lemma holds_put: "holds g k (put_peer key p m) \<longleftrightarrow> (if k = key then g \<in> active_conn p else holds g k m)"
  by (simp add: holds_def)

lemma manager_ok_put:
  "manager_ok m \<Longrightarrow> map_of (m_peers m) key = Some p \<Longrightarrow> peer_ok p' \<Longrightarrow> (p_peerClosed p \<Longrightarrow> p_peerClosed p') \<Longrightarrow>
   manager_ok (put_peer key p' m)"
  by (auto simp: manager_ok_def split: if_splits)

text \<open>Every operation on a peer keeps it well formed and closed, and adds no connection but the admitted one.\<close>

definition peer_keeps :: "u64 set \<Rightarrow> 'o Peer \<Rightarrow> 'o Peer \<Rightarrow> bool" where
  "peer_keeps new p p' \<longleftrightarrow> peer_ok p' \<and> p_peerClosed p' = p_peerClosed p \<and> active_conn p' \<subseteq> active_conn p \<union> new"

lemma ensureDial_closed: "ensureDial p = (p', evs) \<Longrightarrow> p_peerClosed p' = p_peerClosed p"
  by (auto simp: ensureDial_def split: option.splits if_splits)

lemma acquire_keeps:
  assumes "acquire config p = (r, p', evs)" "peer_ok p"
  shows "peer_keeps {} p p'"
proof -
  from assms(1) have "p_peerClosed p' = p_peerClosed p" by (cases rule: acquire_cases) (auto dest: ensureDial_closed)
  with acquire_accounts [OF assms] show ?thesis by (auto simp: peer_keeps_def accounts_def)
qed

lemma release_keeps: "release p = (p', evs) \<Longrightarrow> peer_ok p \<Longrightarrow> peer_keeps {} p p'"
  using release_accounts [of p p' evs]
  by (auto simp: peer_keeps_def accounts_def release_def Let_def split: if_splits option.splits)

lemma runDial_keeps:
  assumes "runDial_end err k now d p = (keep, p', evs)" "peer_ok p" "k \<notin> active_client p"
  shows "peer_keeps {} p p'"
proof (cases "p_dialDone p = Some d")
  case True
  from assms(1) True have "p_peerClosed p' = p_peerClosed p"
    by (cases rule: runDial_end_cases) (simp_all add: close_ready_def)
  with runDial_accounts [OF assms(1,2) True assms(3)] show ?thesis by (simp add: peer_keeps_def)
next
  case False
  with assms show ?thesis by (auto simp: runDial_end_def peer_keeps_def)
qed

lemma acceptInbound_keeps:
  assumes "acceptInbound up localName g p = (r, p', evs)" "peer_ok p"
  shows "peer_keeps {g} p p'"
proof (cases "g \<in> active_conn p")
  case True
  then obtain l where "p_active p = Some l" "l_conn l = Some g" by (auto simp: active_conn_def split: option.splits)
  with assms have "p' = p" by (auto simp: acceptInbound_def split: if_splits)
  with assms show ?thesis by (auto simp: peer_keeps_def)
next
  case False
  have "p_peerClosed p' = p_peerClosed p"
    using assms(1) by (auto simp: acceptInbound_def Let_def split: if_splits option.splits)
  with acceptInbound_accounts [OF assms False] show ?thesis by (auto simp: peer_keeps_def accounts_def split: if_splits)
qed

lemma peer_connected_keeps: "peer_connected now g p = (r, p') \<Longrightarrow> peer_ok p \<Longrightarrow> peer_keeps {} p p'"
  using peer_connected_accounts [of now g p r p']
  by (auto simp: peer_keeps_def accounts_def peer_connected_def close_ready_def split: if_splits option.splits)

lemma peer_disconnected_keeps:
  "peer_disconnected g p = (p', evs) \<Longrightarrow> peer_ok p \<Longrightarrow> peer_keeps {} p p' \<and> g \<notin> active_conn p'"
  using peer_disconnected_accounts [of g p p' evs]
  by (auto simp: peer_keeps_def accounts_def peer_disconnected_def peer_unlink_def Let_def dest: ensureDial_closed
      split: if_splits option.splits)

lemma newPeer_ok [simp]: "peer_ok (newPeer name key)" "active_conn (newPeer name key) = {}"
  by (simp_all add: newPeer_def peer_defs)

lemma manager_peer_cases:
  assumes "manager_peer name create m = (r, m')" "manager_ok m"
  obtains (none) "m' = m" "\<And>key. r \<noteq> Inr (Some key)" "\<And>g. \<not> holds g (peer_key name) m"
    | (found) p where "r = Inr (Some (peer_key name))" "map_of (m_peers m') (peer_key name) = Some p" "peer_ok p"
        "manager_ok m'" "\<And>g key. holds g key m' = holds g key m"
proof -
  consider "m' = m" "\<And>key. r \<noteq> Inr (Some key)" "peer_key name = '''' \<or> peer_key name = normalizePeerName (m_localName m) \<or>
        m_closed m \<or> map_of (m_peers m) (peer_key name) = None"
    | p where "r = Inr (Some (peer_key name))" "m' = m" "map_of (m_peers m) (peer_key name) = Some p"
    | "r = Inr (Some (peer_key name))" "m' = put_peer (peer_key name) (newPeer (TrimSpace name) (peer_key name)) m"
      "map_of (m_peers m) (peer_key name) = None" "\<not> m_closed m" "peer_key name \<noteq> ''''"
      "peer_key name \<noteq> normalizePeerName (m_localName m)"
    using assms(1) unfolding manager_peer_def Let_def put_peer_def
    by (fastforce split: if_splits option.splits)
  then show thesis
  proof cases
    case 1
    have "\<not> holds g (peer_key name) m" for g
      using 1(3) assms(2) by (auto simp: holds_def manager_ok_def peer_ok_def active_conn_def)
    with 1 none show thesis by blast
  next
    case (2 p)
    with assms(2) found [of p] show thesis by (auto simp: manager_ok_def)
  next
    case 3
    have "manager_ok m'" using 3 assms(2) by (auto simp: manager_ok_def)
    moreover have "holds g key m' = holds g key m" for g key using 3(3) by (auto simp: 3(2) holds_put) (simp add: holds_def)
    ultimately show thesis using 3 found by simp
  qed
qed

text \<open>How an operation of the manager may change it: \<open>new\<close> are the connections and the key it may add.\<close>

definition manager_keeps :: "(u64 \<times> string) set \<Rightarrow> 'o PeerManager \<Rightarrow> 'o PeerManager \<Rightarrow> bool" where
  "manager_keeps new m m' \<longleftrightarrow>
     manager_ok m' \<and> (\<forall>g key. holds g key m' \<longrightarrow> holds g key m \<or> (g, key) \<in> new)"

lemma manager_keeps_put:
  assumes "manager_ok m" "map_of (m_peers m) key = Some p" "peer_keeps gs p p'"
  shows "manager_keeps {(g, key) | g. g \<in> gs} m (put_peer key p' m)"
  using assms manager_ok_put [OF assms(1,2), of p'] by (auto simp: manager_keeps_def holds_put peer_keeps_def holds_def split: if_splits)



lemma manager_acceptInbound_keeps:
  assumes "manager_acceptInbound up conn m = (r, m', evs)" "manager_ok m"
  shows "manager_keeps {(c_generation conn, peer_key (c_clientName conn))} m m'"
proof -
  obtain x m1 where x: "manager_peer (c_clientName conn) True m = (x, m1)" by fastforce
  from x assms(2) show ?thesis
  proof (cases rule: manager_peer_cases)
    case none
    with assms x show ?thesis
      by (auto simp: manager_acceptInbound_def manager_keeps_def split: sum.splits option.splits)
  next
    case (found p)
    obtain e p' ev where a: "acceptInbound up (m_localName m1) (c_generation conn) p = (e, p', ev)" by (metis prod_cases3)
    with assms(1) x found have "m' = put_peer (peer_key (c_clientName conn)) p' m1"
      by (simp add: manager_acceptInbound_def the_peer_def)
    with manager_keeps_put [OF found(4,2) acceptInbound_keeps [OF a found(3)]] found(4,5)
    show ?thesis by (simp add: manager_keeps_def)
  qed
qed

lemma manager_connected_keeps:
  assumes "manager_connected now conn m = (r, m')" "manager_ok m"
  shows "manager_keeps {} m m'"
proof -
  obtain x m1 where x: "manager_peer (c_clientName conn) False m = (x, m1)" by fastforce
  from x assms(2) show ?thesis
  proof (cases rule: manager_peer_cases)
    case none
    with assms x show ?thesis by (auto simp: manager_connected_def manager_keeps_def split: sum.splits option.splits)
  next
    case (found p)
    obtain e p' where a: "peer_connected now (c_generation conn) p = (e, p')" by fastforce
    with assms(1) x found have "m' = put_peer (peer_key (c_clientName conn)) p' m1"
      by (simp add: manager_connected_def the_peer_def)
    with manager_keeps_put [OF found(4,2) peer_connected_keeps [OF a found(3)]] found(4,5)
    show ?thesis by (simp add: manager_keeps_def)
  qed
qed

lemma manager_disconnected_keeps:
  assumes "manager_disconnected conn m = (m', evs)" "manager_ok m"
  shows "manager_keeps {} m m' \<and> \<not> holds (c_generation conn) (peer_key (c_clientName conn)) m'"
proof -
  obtain x m1 where x: "manager_peer (c_clientName conn) False m = (x, m1)" by fastforce
  from x assms(2) show ?thesis
  proof (cases rule: manager_peer_cases)
    case none
    with assms x show ?thesis by (auto simp: manager_disconnected_def manager_keeps_def split: sum.splits option.splits)
  next
    case (found p)
    obtain p' ev where a: "peer_disconnected (c_generation conn) p = (p', ev)" by fastforce
    with assms(1) x found have "m' = put_peer (peer_key (c_clientName conn)) p' m1"
      by (simp add: manager_disconnected_def the_peer_def)
    with peer_disconnected_keeps [OF a found(3)] manager_keeps_put [OF found(4,2), of "{}" p'] found(4,5)
    show ?thesis by (simp add: manager_keeps_def holds_put)
  qed
qed

lemma Dial_begin_keeps:
  assumes "Dial_begin name config m = (r, m', evs)" "manager_ok m"
  shows "manager_keeps {} m m'"
proof -
  obtain x m1 where x: "manager_peer (TrimSpace name) True m = (x, m1)" by fastforce
  have same: "manager_keeps {} m m" using assms(2) by (simp add: manager_keeps_def)
  from x assms(2) show ?thesis
  proof (cases rule: manager_peer_cases)
    case none
    with assms x same show ?thesis by (auto simp: Dial_begin_def Let_def split: if_splits sum.splits option.splits)
  next
    case (found p)
    have "m' = m \<or> (\<exists>c r p' ev. acquire c p = (r, p', ev) \<and> m' = put_peer (peer_key (TrimSpace name)) p' m1)"
      using assms(1) x found
      by (auto simp: Dial_begin_def Let_def the_peer_def split: if_splits option.splits prod.splits; blast)
    then show ?thesis
    proof
      assume "\<exists>c r p' ev. acquire c p = (r, p', ev) \<and> m' = put_peer (peer_key (TrimSpace name)) p' m1"
      then obtain c r p' ev where a: "acquire c p = (r, p', ev)" "m' = put_peer (peer_key (TrimSpace name)) p' m1" by blast
      with manager_keeps_put [OF found(4,2) acquire_keeps [OF a(1) found(3)]] found(4,5)
      show ?thesis by (simp add: manager_keeps_def)
    qed (simp add: same)
  qed
qed

lemma manager_Close_keeps:
  assumes "manager_Close m = (m', evs)" "manager_ok m"
  shows "manager_keeps {} m m'"
proof (cases "m_closed m")
  case False
  with assms(1) have m': "m_peers m' = map (\<lambda>(k, p). (k, fst (peer_close p))) (m_peers m)" "m_localName m' = m_localName m"
    by (auto simp: manager_Close_def)
  have of: "map_of (m_peers m') key = map_option (\<lambda>p. fst (peer_close p)) (map_of (m_peers m) key)" for key
    unfolding m' by (simp add: map_of_map)
  have close: "peer_ok (fst (peer_close p)) \<and> p_peerClosed (fst (peer_close p)) \<and> active_conn (fst (peer_close p)) = {}"
    if "peer_ok p" for p :: "'a Peer"
    using that peer_close_accounts [of p "fst (peer_close p)" "snd (peer_close p)"]
    by (auto simp: accounts_def peer_close_def active_conn_def peer_ok_def)
  have "tbl_ok (m_peers m')" using assms(2) unfolding m' by (simp add: manager_ok_def tbl_ok_def comp_def case_prod_unfold)
  with of close assms(2) show ?thesis by (auto simp: manager_keeps_def manager_ok_def m' holds_def)
next
  case True
  with assms show ?thesis by (simp add: manager_Close_def manager_keeps_def)
qed

lemma on_peer_keeps:
  assumes "manager_ok m" "\<And>p. peer_ok p \<Longrightarrow> peer_keeps {} p (f p)"
  shows "manager_keeps {} m (on_peer key f m)"
proof (cases "map_of (m_peers m) key")
  case None
  with assms(1) show ?thesis by (simp add: manager_keeps_def)
next
  case (Some p)
  with assms(1) have "peer_ok p" by (simp add: manager_ok_def)
  with Some manager_keeps_put [OF assms(1) Some assms(2)] show ?thesis by simp
qed

lemma perform_keeps:
  assumes "manager_ok m" "\<not> admits g op"
  shows "manager_ok (perform op m) \<and> (\<forall>key. holds g key (perform op m) \<longrightarrow> holds g key m)"
proof (cases op)
  case (MDial name config)
  with assms Dial_begin_keeps show ?thesis by (metis manager_keeps_def perform.simps(1) prod.collapse empty_iff)
next
  case (MRelease key)
  from on_peer_keeps [OF assms(1), of "\<lambda>p. fst (release p)" key] MRelease show ?thesis
    by (auto simp: manager_keeps_def intro: release_keeps [OF surjective_pairing])
next
  case (MDialed key err k now d)
  let ?f = "\<lambda>p. if k \<in> active_client p then p else fst (snd (runDial_end err k now d p))"
  have "peer_keeps {} p (?f p)" if "peer_ok p" for p
    using that runDial_keeps [of err k now d p "fst (runDial_end err k now d p)" "fst (snd (runDial_end err k now d p))"
        "snd (snd (runDial_end err k now d p))"] by (auto simp: peer_keeps_def)
  from on_peer_keeps [OF assms(1) this, of key] MDialed show ?thesis by (simp add: manager_keeps_def)
next
  case (MAccept up conn)
  obtain r m' ev where a: "manager_acceptInbound up conn m = (r, m', ev)" by (metis prod_cases3)
  with MAccept assms manager_acceptInbound_keeps [OF a assms(1)] show ?thesis by (auto simp: manager_keeps_def)
next
  case (MConnected now conn)
  with assms manager_connected_keeps show ?thesis by (metis manager_keeps_def perform.simps(5) prod.collapse empty_iff)
next
  case (MDisconnected conn)
  with assms manager_disconnected_keeps show ?thesis by (metis manager_keeps_def perform.simps(6) prod.collapse empty_iff)
next
  case MClose
  with assms manager_Close_keeps show ?thesis by (metis manager_keeps_def perform.simps(7) prod.collapse empty_iff)
qed

subsection \<open>The manager serves the server\<close>

text \<open>The manager behind the calls of \<^verbatim>\<open>serveConn\<close>. Before each call other goroutines have done
  any operations \<open>ops\<close> on it, with other connections.\<close>

definition manager_hooks :: "('v, 'o) manager_op list \<Rightarrow> (nat \<Rightarrow> bool) \<Rightarrow> int \<Rightarrow> ('v, 'o PeerManager) peer_hooks" where
  "manager_hooks ops up now =
     \<lparr>ph_acceptInbound = (\<lambda>c m. case manager_acceptInbound up c (others (c_generation c) ops m) of (err, m, evs) \<Rightarrow> (err, m)),
      ph_connected = (\<lambda>c m. manager_connected now c (others (c_generation c) ops m)),
      ph_disconnected = (\<lambda>c m. fst (manager_disconnected c (others (c_generation c) ops m)))\<rparr>"

lemma others_keeps:
  "manager_ok m \<Longrightarrow> manager_ok (others g ops m) \<and> (\<forall>key. holds g key (others g ops m) \<longrightarrow> holds g key m)"
proof (induction ops arbitrary: m)
  case Nil
  then show ?case by (simp add: others_def)
next
  case (Cons op ops)
  show ?case
  proof (cases "admits g op")
    case True
    with Cons show ?thesis by (simp add: others_def)
  next
    case False
    with Cons.IH [of "perform op m"] perform_keeps [OF Cons.prems False] show ?thesis by (auto simp: others_def)
  qed
qed

lemma others_free: "free g m \<Longrightarrow> free g (others g ops m)"
  using others_keeps by (fastforce simp: free_def)

lemma others_held: "held name g m \<Longrightarrow> held name g (others g ops m)"
  using others_keeps by (fastforce simp: held_def)

interpretation managed: peer_service "manager_hooks ops up now" held free
proof unfold_locales
  show "held name g m" if "free g m" for g m name using that by (simp add: free_def held_def)
  show "held (c_clientName c) (c_generation c) m'"
    if "ph_acceptInbound (manager_hooks ops up now) c m = (err, m')" "free (c_generation c) m" for c m err m'
  proof -
    from that(1) obtain evs where "manager_acceptInbound up c (others (c_generation c) ops m) = (err, m', evs)"
      by (auto simp: manager_hooks_def split: prod.splits)
    with manager_acceptInbound_keeps others_free [OF that(2), of ops] show ?thesis
      by (fastforce simp: free_def held_def manager_keeps_def)
  qed
  show "held (c_clientName c) (c_generation c) m'"
    if "ph_connected (manager_hooks ops up now) c m = (err, m')" "held (c_clientName c) (c_generation c) m" for c m err m'
    using that others_held [OF that(2), of ops] manager_connected_keeps
    by (fastforce simp: manager_hooks_def held_def manager_keeps_def)
  show "free (c_generation c) (ph_disconnected (manager_hooks ops up now) c m)"
    if "held (c_clientName c) (c_generation c) m" for c m
  proof -
    let ?m = "others (c_generation c) ops m"
    have "held (c_clientName c) (c_generation c) ?m" using that by (rule others_held)
    with manager_disconnected_keeps [of c ?m "fst (manager_disconnected c ?m)" "snd (manager_disconnected c ?m)"]
    show ?thesis by (auto simp: manager_hooks_def held_def free_def manager_keeps_def)
  qed
qed

text \<open>C31. A server leaves no dead connection in its peer manager. Whatever bytes the remote side sends, whether it is
  admitted, refused or fails in the handshake, when the serving of a connection has ended no peer of the
  manager refers to it, and every peer is well formed. Meanwhile leases may come and go, dials end,
  other connections be admitted and lost and the manager be closed, each as one operation.\<close>

theorem serveConn_frees_peer:
  assumes "serveConn hmac rand (Some (manager_hooks ops up now)) i counter r w s m = (c, evs, s', m')"
    "manager_ok m" "\<forall>key. \<not> holds (nextConnectionGeneration counter) key m"
  shows "manager_ok m' \<and> (\<forall>key. \<not> holds (c_generation c) key m')"
proof -
  have "c_generation c = nextConnectionGeneration counter" using serveConn_life [OF assms(1)] by simp
  with managed.serving_frees [OF assms(1)] assms(2,3) show ?thesis by (simp add: free_def)
qed

theorem serveConn_frees_peer_witness:
  "\<forall>key. \<not> holds (nextConnectionGeneration 0) key (snd (snd (snd (serveConn sampleMac sampleRandom
     (Some (manager_hooks [MDial ''alpha'' \<lparr>dc_network = ''tcp'', dc_address = ''host:1'', dc_options = ()\<rparr>] (\<lambda>_. False) 0))
     9 0 \<lparr>r_data = [0, 0], r_end = Sentinel IoEOF\<rparr> emptyWriter sampleServer (NewPeerManager ''zeta'')))))"
proof -
  let ?h = "serveConn sampleMac sampleRandom
     (Some (manager_hooks [MDial ''alpha'' \<lparr>dc_network = ''tcp'', dc_address = ''host:1'', dc_options = ()\<rparr>] (\<lambda>_. False) 0))
     9 0 \<lparr>r_data = [0, 0], r_end = Sentinel IoEOF\<rparr> emptyWriter sampleServer (NewPeerManager ''zeta'')"
  obtain c evs s' m' where h: "?h = (c, evs, s', m')" by (metis prod_cases4)
  have "free (nextConnectionGeneration 0) (NewPeerManager ''zeta'' :: unit PeerManager)" by simp
  then have "manager_ok (NewPeerManager ''zeta'' :: unit PeerManager)"
    "\<forall>key. \<not> holds (nextConnectionGeneration 0) key (NewPeerManager ''zeta'' :: unit PeerManager)" by (simp_all add: free_def)
  from serveConn_frees_peer [OF h this] serveConn_life [OF h] h show ?thesis by simp
qed

subsection \<open>Endpoints of one connection\<close>

definition endpoint_live :: "PeerEndpoint \<Rightarrow> 'v world \<Rightarrow> bool" where
  "endpoint_live e w \<longleftrightarrow>
     (case (pe_conn e, pe_client e) of
        (Some g, _) \<Rightarrow> c_generation (w_conns w g) = pe_generation e \<and> \<not> e_closed (w_conns w g)
      | (None, Some (k, conn)) \<Rightarrow> currentConnWithGeneration (w_clients w k) = Some (conn, pe_generation e)
      | (None, None) \<Rightarrow> False)"

definition only_at :: "PeerEndpoint \<Rightarrow> 'v world \<Rightarrow> 'v world \<Rightarrow> bool" where
  "only_at e w w' \<longleftrightarrow>
     (\<forall>k. (\<forall>conn. pe_client e \<noteq> Some (k, conn)) \<longrightarrow> w_clients w' k = w_clients w k) \<and>
     (\<forall>g. pe_conn e \<noteq> Some g \<longrightarrow> w_conns w' g = w_conns w g) \<and> w_network w' = w_network w"

definition endpoint_ok_for :: "u64 \<Rightarrow> PeerEndpoint \<Rightarrow> bool" where
  "endpoint_ok_for generation e \<longleftrightarrow> pe_generation e = generation \<and> generation \<noteq> 0 \<and> (pe_conn e = None \<longleftrightarrow> pe_client e \<noteq> None)"

lemma EndpointForGeneration_ok:
  assumes "EndpointForGeneration w generation (Some p) = Some e"
  shows "endpoint_ok_for generation e \<and> endpoint_live e w \<and> ps_Active (Peer_Status w p) \<and>
    ps_ConnectionGeneration (Peer_Status w p) = generation"
proof -
  from assms obtain l where l: "generation \<noteq> 0" "p_active p = Some l" "l_ready l"
    by (auto simp: EndpointForGeneration_def split: if_splits option.splits)
  show ?thesis
  proof (cases "l_direction l")
    case PeerDirectionInbound
    with assms l obtain g where "l_conn l = Some g" "c_generation (w_conns w g) = generation" "\<not> e_closed (w_conns w g)"
      "e = \<lparr>pe_generation = generation, pe_client = None, pe_conn = Some g\<rparr>"
      by (auto simp: EndpointForGeneration_def split: if_splits option.splits)
    with l PeerDirectionInbound show ?thesis
      by (simp add: endpoint_ok_for_def endpoint_live_def Peer_Status_def Let_def)
  next
    case PeerDirectionOutbound
    with assms l obtain k conn where "l_client l = Some k" "currentConnWithGeneration (w_clients w k) = Some (conn, generation)"
      "e = \<lparr>pe_generation = generation, pe_client = Some (k, conn), pe_conn = None\<rparr>"
      by (auto simp: EndpointForGeneration_def split: if_splits option.splits)
    with l PeerDirectionOutbound show ?thesis
      by (simp add: endpoint_ok_for_def endpoint_live_def Peer_Status_def Let_def)
  qed
qed

lemma hide_closed_error: "hide_closed r = Inl x \<Longrightarrow> \<not> errors_Is x ErrClosed"
  by (auto simp: hide_closed_def split: sum.splits if_splits)

lemma bound_route_dead:
  assumes "endpoint_ok_for generation e" "\<not> endpoint_live e w"
    and "\<And>conn c. \<not> isCurrentConnGeneration conn generation c \<Longrightarrow> onClient conn generation c = (Inl (Sentinel ErrUnavailable), c, [])"
  shows "bound_route onClient onConn (Some e) w = (Inl (Sentinel ErrUnavailable), w, [])"
proof (cases "pe_conn e")
  case (Some g)
  with assms(1,2) show ?thesis by (auto simp: bound_route_def endpoint_ok_for_def endpoint_live_def)
next
  case None
  with assms(1) obtain k conn where k: "pe_client e = Some (k, conn)" by (auto simp: endpoint_ok_for_def)
  with None assms(1,2) have "\<not> isCurrentConnGeneration conn generation (w_clients w k)"
    by (auto simp: endpoint_live_def endpoint_ok_for_def isCurrentConnGeneration_def currentConnWithGeneration_def)
  from assms(3) [OF this] None k assms(1) show ?thesis by (simp add: bound_route_def endpoint_ok_for_def hide_closed_def)
qed

lemma bound_route_only_at:
  assumes "bound_route onClient onConn (Some e) w = (r, w', evs)" "endpoint_ok_for generation e"
  shows "only_at e w w' \<and> (\<forall>x. r = Inl x \<longrightarrow> \<not> errors_Is x ErrClosed)"
proof (cases "pe_conn e")
  case (Some g)
  with assms show ?thesis
    by (auto simp: bound_route_def only_at_def endpoint_ok_for_def dest: hide_closed_error split: if_splits prod.splits)
next
  case None
  with assms show ?thesis
    by (auto simp: bound_route_def only_at_def endpoint_ok_for_def dest: hide_closed_error split: if_splits prod.splits)
qed

text \<open>C32. An endpoint belongs to one physical connection. An endpoint asked for by generation exists only
  while that generation is the one the status of the peer reports as active. From then on, whatever has become of the
  world, a notification or a call on it either finds this very connection still established, or fails with the
  error unavailable at once, without waiting, and changes nothing; in particular it is never sent over a connection that
  has replaced it. It touches no other connection or client, and never reports its connection as closed.\<close>

theorem endpoint_keeps_its_connection:
  assumes e: "EndpointForGeneration w generation (Some p) = Some e"
    and f: "function \<noteq> ''''" and resp: "validateResponseTarget resp = None"
  shows "generation \<noteq> 0 \<and> endpoint_live e w \<and>
    ps_Active (Peer_Status w p) \<and> ps_ConnectionGeneration (Peer_Status w p) = generation \<and>
    (\<not> endpoint_live e w' \<longrightarrow>
      PeerEndpoint_NotifyContext ccfg scfg ctx function req (Some e) w' = (Inl (Sentinel ErrUnavailable), w', []) \<and>
      PeerEndpoint_CallContext_begin ccfg scfg ctx function req resp ch (Some e) w' = (Inl (Sentinel ErrUnavailable), w', [])) \<and>
    (PeerEndpoint_NotifyContext ccfg scfg ctx function req (Some e) w' = (r, w'', evs) \<longrightarrow>
      only_at e w' w'' \<and> (\<forall>x. r = Inl x \<longrightarrow> \<not> errors_Is x ErrClosed)) \<and>
    (PeerEndpoint_CallContext_begin ccfg scfg ctx function req resp ch (Some e) w' = (r, w'', evs) \<longrightarrow>
      only_at e w' w'' \<and> (\<forall>x. r = Inl x \<longrightarrow> \<not> errors_Is x ErrClosed))"
proof -
  from EndpointForGeneration_ok [OF e] have ok: "endpoint_ok_for generation e" by simp
  have "PeerEndpoint_NotifyContext ccfg scfg ctx function req (Some e) w' = (Inl (Sentinel ErrUnavailable), w', []) \<and>
      PeerEndpoint_CallContext_begin ccfg scfg ctx function req resp ch (Some e) w' = (Inl (Sentinel ErrUnavailable), w', [])"
    if "\<not> endpoint_live e w'"
    unfolding PeerEndpoint_NotifyContext_def PeerEndpoint_CallContext_begin_def
    by (intro conjI bound_route_dead [OF ok that])
      (simp_all add: f resp Client_sendNotifyToConnection_def Client_sendRequestToConnection_def)
  moreover have "only_at e w' w'' \<and> (\<forall>x. r = Inl x \<longrightarrow> \<not> errors_Is x ErrClosed)"
    if "PeerEndpoint_NotifyContext ccfg scfg ctx function req (Some e) w' = (r, w'', evs)"
    using bound_route_only_at [OF that [unfolded PeerEndpoint_NotifyContext_def] ok] .
  moreover have "only_at e w' w'' \<and> (\<forall>x. r = Inl x \<longrightarrow> \<not> errors_Is x ErrClosed)"
    if "PeerEndpoint_CallContext_begin ccfg scfg ctx function req resp ch (Some e) w' = (r, w'', evs)"
    using bound_route_only_at [OF that [unfolded PeerEndpoint_CallContext_begin_def] ok] .
  ultimately show ?thesis using EndpointForGeneration_ok [OF e] ok unfolding endpoint_ok_for_def by blast
qed

text \<open>A server that has admitted one connection and lost it.\<close>

definition sampleWorld :: "bool \<Rightarrow> bytes world" where
  "sampleWorld gone =
     \<lparr>w_clients = (\<lambda>_. sampleClient), w_conns = (\<lambda>_. (newConn sampleServer emptyWriter 0)\<lparr>e_closed := gone\<rparr>),
      w_network = (\<lambda>_. ''tcp'')\<rparr>"

definition inboundPeer :: "unit Peer" where
  "inboundPeer = (newPeer ''alpha'' ''alpha'')\<lparr>p_active :=
     Some \<lparr>l_direction = PeerDirectionInbound, l_client = None, l_conn = Some 1, l_ready = True, l_connectedAt = 4\<rparr>,
     p_readyClosed := True\<rparr>"

theorem endpoint_keeps_its_connection_witness:
  "PeerEndpoint_NotifyContext sampleConfig sampleServer None ''f'' [1]
     (EndpointForGeneration (sampleWorld False) (nextConnectionGeneration 0) (Some inboundPeer)) (sampleWorld True) =
   (Inl (Sentinel ErrUnavailable), sampleWorld True, [])"
proof -
  let ?e = "\<lparr>pe_generation = nextConnectionGeneration 0, pe_client = None, pe_conn = Some 1\<rparr>"
  have "nextConnectionGeneration 0 \<noteq> 0" by code_simp
  then have e: "EndpointForGeneration (sampleWorld False) (nextConnectionGeneration 0) (Some inboundPeer) = Some ?e"
    by (simp add: EndpointForGeneration_def inboundPeer_def sampleWorld_def newConn_def)
  have "\<not> endpoint_live ?e (sampleWorld True)" by (simp add: endpoint_live_def sampleWorld_def newConn_def)
  with endpoint_keeps_its_connection [OF e, of "''f''" TargetPointer "sampleWorld True" sampleConfig sampleServer None "[1]"] e
  show ?thesis by (simp add: validateResponseTarget_def)
qed

end
