(* ===== verification/Singleflight.thy ===== *)
theory Singleflight
  imports Client_Conn
begin

text \<open>
  Sharing of concurrent identical calls (\<^verbatim>\<open>singleflight.go\<close> and the methods \<^verbatim>\<open>CallSingleflightContext\<close> of \<^verbatim>\<open>Client\<close> and
  \<^verbatim>\<open>Conn\<close>). \<^verbatim>\<open>do\<close> is cut at the points where it lets other goroutines run: what it does under the lock when
  it is called, what the executing caller does when its function has returned, and the wait of the others.
  The function that the executing caller runs is taken to return: if it panics, as the \<^verbatim>\<open>Marshal\<close> of a user codec may when
  a key is given, \<^verbatim>\<open>do\<close> is left without the deletion of the key and without the close, and later callers with
  the key wait until their contexts end. A \<^verbatim>\<open>singleflightCall\<close> is known by a number; its result and whether \<^verbatim>\<open>done\<close> is closed are tables of the group.
\<close>

subsection \<open>Keys\<close>

text \<open>\<^verbatim>\<open>base64.RawStdEncoding\<close>: the standard alphabet, without padding.\<close>

definition base64_alphabet :: string where
  "base64_alphabet = ''ABCDEFGHIJKLMNOPQRSTUVWXYZabcdefghijklmnopqrstuvwxyz0123456789+/''"

definition base64_char :: "nat \<Rightarrow> char" where
  "base64_char n = base64_alphabet ! n"

fun base64 :: "bytes \<Rightarrow> string" where
  "base64 [] = []"
| "base64 [a] = [base64_char (unat a div 4), base64_char (unat a mod 4 * 16)]"
| "base64 [a, b] =
     [base64_char (unat a div 4), base64_char (unat a mod 4 * 16 + unat b div 16), base64_char (unat b mod 16 * 4)]"
| "base64 (a # b # c # bs) =
     base64_char (unat a div 4) # base64_char (unat a mod 4 * 16 + unat b div 16) #
     base64_char (unat b mod 16 * 4 + unat c div 64) # base64_char (unat c mod 64) # base64 bs"

definition singleflightKey :: "'v Codec \<Rightarrow> string \<Rightarrow> string \<Rightarrow> 'v \<Rightarrow> string res" where
  "singleflightKey codec function key req =
     (if key \<noteq> '''' then Inr (function @ [CHR 0x00] @ key)
      else
        (case MarshalValue codec req of
           Inl e \<Rightarrow> Inl e
         | Inr payload \<Rightarrow> Inr (function @ [CHR 0x00] @ base64 payload)))"

subsection \<open>The group\<close>

record singleflightGroup =
  sf_calls :: "(string \<times> nat) list"
  sf_result :: "nat \<Rightarrow> Frame res option"
  sf_done :: "nat \<Rightarrow> bool"
  sf_next :: nat
  sf_panicked :: bool

definition newGroup :: singleflightGroup where
  "newGroup = \<lparr>sf_calls = [], sf_result = (\<lambda>_. None), sf_done = (\<lambda>_. False), sf_next = 0, sf_panicked = False\<rparr>"

text \<open>What a caller of \<^verbatim>\<open>do\<close> does next: run its function on its own, run it for everybody, or wait.\<close>

datatype flight = Alone | Lead nat | Join nat

definition do_enter :: "string \<Rightarrow> singleflightGroup \<Rightarrow> flight \<times> singleflightGroup" where
  "do_enter key g =
     (if key = '''' then (Alone, g)
      else
        (case map_of (sf_calls g) key of
           Some call \<Rightarrow> (Join call, g)
         | None \<Rightarrow> (Lead (sf_next g), g\<lparr>sf_calls := tbl_put key (sf_next g) (sf_calls g), sf_next := sf_next g + 1\<rparr>)))"

definition do_returned :: "string \<Rightarrow> nat \<Rightarrow> Frame res \<Rightarrow> singleflightGroup \<Rightarrow> singleflightGroup" where
  "do_returned key call result g =
     g\<lparr>sf_result := (sf_result g)(call \<mapsto> result), sf_calls := tbl_del key (sf_calls g)\<rparr>"

definition do_close :: "nat \<Rightarrow> singleflightGroup \<Rightarrow> singleflightGroup" where
  "do_close call g =
     (if sf_done g call then g\<lparr>sf_panicked := True\<rparr> else g\<lparr>sf_done := (sf_done g)(call := True)\<rparr>)"

text \<open>The wait. Where both cases of the select are ready, \<open>ctxFirst\<close> says which one is taken.\<close>

definition do_wait :: "bool \<Rightarrow> ctx option \<Rightarrow> nat \<Rightarrow> singleflightGroup \<Rightarrow> Frame res outcome" where
  "do_wait ctxFirst ctx call g =
     (let finished = (if sf_done g call
            then Some (case sf_result g call of Some r \<Rightarrow> r | None \<Rightarrow> Inr zeroFrame) else None) in
      case (ctx_err (normalizeContext ctx), finished) of
        (Some err, Some r) \<Rightarrow> Return (if ctxFirst then Inl err else r)
      | (Some err, None) \<Rightarrow> Return (Inl err)
      | (None, Some r) \<Rightarrow> Return r
      | (None, None) \<Rightarrow> Blocked)"

subsection \<open>Shared calls\<close>

text \<open>\<^verbatim>\<open>CallSingleflightContext\<close> up to \<^verbatim>\<open>do\<close>; the rest of it for the caller that leads, once \<^verbatim>\<open>callFrameContext\<close>
  has returned \<open>result\<close>; and for one that waits.\<close>

definition CallSingleflight_begin ::
  "'v Codec \<Rightarrow> string \<Rightarrow> string \<Rightarrow> 'v \<Rightarrow> target \<Rightarrow> singleflightGroup \<Rightarrow> (string \<times> flight) res \<times> singleflightGroup" where
  "CallSingleflight_begin codec function key req resp g =
     (if function = '''' then (Inl (Sentinel ErrInvalidFunction), g)
      else
        (case validateResponseTarget resp of
           Some err \<Rightarrow> (Inl err, g)
         | None \<Rightarrow>
             (case singleflightKey codec function key req of
                Inl err \<Rightarrow> (Inl (Errorf_prefix ''encode singleflight key'' err), g)
              | Inr sfKey \<Rightarrow> (case do_enter sfKey g of (fl, g) \<Rightarrow> (Inr (sfKey, fl), g)))))"

definition CallSingleflight_end :: "'v Codec \<Rightarrow> Frame res \<Rightarrow> 'v res" where
  "CallSingleflight_end codec result =
     (case result of Inl err \<Rightarrow> Inl err | Inr frame \<Rightarrow> decodeResponse codec frame)"

definition CallSingleflight_led ::
  "'v Codec \<Rightarrow> string \<Rightarrow> nat \<Rightarrow> Frame res \<Rightarrow> singleflightGroup \<Rightarrow> 'v res \<times> singleflightGroup" where
  "CallSingleflight_led codec sfKey call result g =
     (CallSingleflight_end codec result, do_close call (do_returned sfKey call result g))"

definition CallSingleflight_joined ::
  "'v Codec \<Rightarrow> bool \<Rightarrow> ctx option \<Rightarrow> nat \<Rightarrow> singleflightGroup \<Rightarrow> 'v res outcome" where
  "CallSingleflight_joined codec ctxFirst ctx call g =
     (case do_wait ctxFirst ctx call g of
        Blocked \<Rightarrow> Blocked
      | Return result \<Rightarrow> Return (CallSingleflight_end codec result))"

definition Client_CallSingleflight_begin where
  "Client_CallSingleflight_begin (cfg :: ('v, 'c) Config_scheme) = CallSingleflight_begin (reg_codec cfg)"

definition Conn_CallSingleflight_begin where
  "Conn_CallSingleflight_begin (server :: ('v, 'c) Config_scheme) = CallSingleflight_begin (reg_codec server)"

subsection \<open>Callers in any order\<close>

text \<open>The group with the functions that run, each with its call and key, and the calls whose function has returned
  and whose channel is not yet closed.\<close>

record sf_sys =
  sf_group :: singleflightGroup
  sf_leads :: "(nat \<times> string) set"
  sf_closing :: "nat set"

definition sf_new :: sf_sys where
  "sf_new = \<lparr>sf_group = newGroup, sf_leads = {}, sf_closing = {}\<rparr>"

inductive sf_step :: "sf_sys \<Rightarrow> sf_sys \<Rightarrow> bool" where
  sf_lead: "do_enter key (sf_group y) = (Lead call, g) \<Longrightarrow>
    sf_step y (y\<lparr>sf_group := g, sf_leads := insert (call, key) (sf_leads y)\<rparr>)"
| sf_returned: "(call, key) \<in> sf_leads y \<Longrightarrow>
    sf_step y (y\<lparr>sf_group := do_returned key call result (sf_group y), sf_leads := sf_leads y - {(call, key)},
      sf_closing := insert call (sf_closing y)\<rparr>)"
| sf_close: "call \<in> sf_closing y \<Longrightarrow>
    sf_step y (y\<lparr>sf_group := do_close call (sf_group y), sf_closing := sf_closing y - {call}\<rparr>)"

abbreviation sf_run :: "sf_sys \<Rightarrow> sf_sys \<Rightarrow> bool" where
  "sf_run \<equiv> sf_step\<^sup>*\<^sup>*"

text \<open>A call of the group runs, or has returned, or is over, and only one of these.\<close>

datatype call_state = Unused | Running | Returned "Frame res" | Over "Frame res"

definition call_state :: "sf_sys \<Rightarrow> nat \<Rightarrow> call_state" where
  "call_state y call =
     (case sf_result (sf_group y) call of
        Some r \<Rightarrow> if sf_done (sf_group y) call then Over r else Returned r
      | None \<Rightarrow> if call < sf_next (sf_group y) then Running else Unused)"

definition sf_ok :: "sf_sys \<Rightarrow> bool" where
  "sf_ok y \<longleftrightarrow>
     \<not> sf_panicked (sf_group y) \<and>
     (\<forall>key call. map_of (sf_calls (sf_group y)) key = Some call \<longleftrightarrow> (call, key) \<in> sf_leads y) \<and>
     (\<forall>call. (\<exists>key. (call, key) \<in> sf_leads y) \<longleftrightarrow> call_state y call = Running) \<and>
     (\<forall>call key key'. (call, key) \<in> sf_leads y \<and> (call, key') \<in> sf_leads y \<longrightarrow> key = key') \<and>
     (\<forall>call. call \<in> sf_closing y \<longleftrightarrow> (\<exists>r. call_state y call = Returned r)) \<and>
     (\<forall>call. sf_done (sf_group y) call \<longrightarrow> sf_result (sf_group y) call \<noteq> None) \<and>
     (\<forall>call. sf_result (sf_group y) call \<noteq> None \<longrightarrow> call < sf_next (sf_group y)) \<and>
     (\<forall>call. (call, '''') \<notin> sf_leads y)"

lemma sf_ok_new: "sf_ok sf_new"
  by (simp add: sf_ok_def sf_new_def newGroup_def call_state_def)

lemma do_enter_cases:
  assumes "do_enter key g = (fl, g')"
  obtains (alone) "key = ''''" "fl = Alone" "g' = g"
    | (join) call where "key \<noteq> ''''" "map_of (sf_calls g) key = Some call" "fl = Join call" "g' = g"
    | (lead) "key \<noteq> ''''" "map_of (sf_calls g) key = None" "fl = Lead (sf_next g)"
      "g' = g\<lparr>sf_calls := tbl_put key (sf_next g) (sf_calls g), sf_next := sf_next g + 1\<rparr>"
  using assms by (auto simp: do_enter_def split: if_splits option.splits)

text \<open>The state of a call after each step.\<close>

lemma call_state_lead:
  assumes "sf_ok y" "g = (sf_group y)\<lparr>sf_calls := t, sf_next := sf_next (sf_group y) + 1\<rparr>"
  shows "call_state (y\<lparr>sf_group := g, sf_leads := l\<rparr>) call =
    (if call = sf_next (sf_group y) then Running else call_state y call)"
proof -
  have "sf_result (sf_group y) (sf_next (sf_group y)) = None" using assms(1) by (auto simp: sf_ok_def)
  then show ?thesis by (auto simp: assms(2) call_state_def split: option.splits)
qed

lemma call_state_returned:
  assumes "sf_ok y" "(call, key) \<in> sf_leads y"
  shows "call_state (y\<lparr>sf_group := do_returned key call result (sf_group y), sf_leads := l, sf_closing := cs\<rparr>) c =
    (if c = call then Returned result else call_state y c)"
proof -
  have "call_state y call = Running" using assms by (auto simp: sf_ok_def)
  then have "sf_result (sf_group y) call = None" by (auto simp: call_state_def split: option.splits if_splits)
  then have "\<not> sf_done (sf_group y) call" using assms(1) by (auto simp: sf_ok_def)
  then show ?thesis by (auto simp: do_returned_def call_state_def split: option.splits)
qed

lemma call_state_close:
  assumes "sf_ok y" "call_state y call = Returned r"
  shows "call_state (y\<lparr>sf_group := do_close call (sf_group y), sf_closing := cs\<rparr>) c =
    (if c = call then Over r else call_state y c)"
  using assms by (auto simp: do_close_def call_state_def split: option.splits if_splits)

lemma sf_ok_calls: "sf_ok y \<Longrightarrow> map_of (sf_calls (sf_group y)) key = Some call \<longleftrightarrow> (call, key) \<in> sf_leads y"
  by (simp add: sf_ok_def)

lemma sf_ok_running: "sf_ok y \<Longrightarrow> call_state y call = Running \<longleftrightarrow> (\<exists>key. (call, key) \<in> sf_leads y)"
  by (simp add: sf_ok_def)

lemma one_lead: "sf_ok y \<Longrightarrow> (c, key) \<in> sf_leads y \<Longrightarrow> (c', key) \<in> sf_leads y \<Longrightarrow> c = c'"
  unfolding sf_ok_def by (metis option.inject)

lemma not_yet_done:
  assumes "sf_ok y" "(call, key) \<in> sf_leads y"
  shows "\<not> sf_done (sf_group y) call" "sf_result (sf_group y) call = None" "call < sf_next (sf_group y)"
proof -
  have st: "call_state y call = Running" using assms by (auto simp: sf_ok_def)
  then show "sf_result (sf_group y) call = None" "call < sf_next (sf_group y)"
    by (auto simp: call_state_def split: option.splits if_splits)
  then show "\<not> sf_done (sf_group y) call" using assms(1) by (auto simp: sf_ok_def)
qed

lemma sf_step_ok: "sf_step y y' \<Longrightarrow> sf_ok y \<Longrightarrow> sf_ok y'"
proof (induction rule: sf_step.induct)
  case (sf_lead key y call g)
  from sf_lead.hyps show ?case
  proof (cases rule: do_enter_cases)
    case lead
    note st = call_state_lead [OF sf_lead.prems lead(4)]
    have new: "call_state y call = Unused" using sf_lead.prems lead(3) by (auto simp: call_state_def sf_ok_def split: option.splits)
    then have "\<And>k. (call, k) \<notin> sf_leads y" using sf_lead.prems unfolding sf_ok_def by (metis call_state.distinct(1))
    moreover have "\<And>c. (c, key) \<notin> sf_leads y"
      using sf_lead.prems lead(2) unfolding sf_ok_def by (metis option.distinct(1))
    ultimately show ?thesis using sf_lead.prems lead new unfolding sf_ok_def st by (auto split: if_splits)
  qed simp_all
next
  case (sf_returned call key y result)
  note st = call_state_returned [OF sf_returned.prems sf_returned.hyps]
  from sf_returned one_lead [OF sf_returned.prems] not_yet_done [OF sf_returned.prems sf_returned.hyps]
  show ?case unfolding sf_ok_def st by (auto simp: do_returned_def split: if_splits)
next
  case (sf_close call y)
  then obtain r where r: "call_state y call = Returned r" by (auto simp: sf_ok_def)
  note st = call_state_close [OF sf_close.prems r]
  from sf_close r show ?case unfolding sf_ok_def st by (auto simp: do_close_def call_state_def split: if_splits option.splits)
qed

lemma sf_run_ok: "sf_run y y' \<Longrightarrow> sf_ok y \<Longrightarrow> sf_ok y'"
  by (induction rule: rtranclp_induct) (auto intro: sf_step_ok)

lemma Over_final: "sf_step y y' \<Longrightarrow> sf_ok y \<Longrightarrow> call_state y call = Over r \<Longrightarrow> call_state y' call = Over r"
proof (induction rule: sf_step.induct)
  case (sf_lead key y c g)
  from sf_lead.hyps show ?case
  proof (cases rule: do_enter_cases)
    case lead
    have "call_state y (sf_next (sf_group y)) = Unused"
      using sf_lead.prems(1) by (auto simp: call_state_def sf_ok_def split: option.splits)
    with call_state_lead [OF sf_lead.prems(1) lead(4)] sf_lead.prems(2) show ?thesis by auto
  qed simp_all
next
  case (sf_returned c key y result)
  then have "call_state y c = Running" by (auto simp: sf_ok_def)
  with call_state_returned [OF sf_returned.prems(1) sf_returned.hyps] sf_returned.prems(2) show ?case by auto
next
  case (sf_close c y)
  then obtain r' where "call_state y c = Returned r'" by (auto simp: sf_ok_def)
  with call_state_close [OF sf_close.prems(1) this] sf_close.prems(2) show ?case by auto
qed

lemma Over_stays: "sf_run y y' \<Longrightarrow> sf_ok y \<Longrightarrow> call_state y call = Over r \<Longrightarrow> call_state y' call = Over r"
  by (induction rule: rtranclp_induct) (auto intro: Over_final sf_run_ok)

lemma step_used: "sf_step y y' \<Longrightarrow> sf_ok y \<Longrightarrow> call_state y call \<noteq> Unused \<Longrightarrow> call_state y' call \<noteq> Unused"
proof (induction rule: sf_step.induct)
  case (sf_lead key y c g)
  from sf_lead.hyps show ?case
  proof (cases rule: do_enter_cases)
    case lead
    from call_state_lead [OF sf_lead.prems(1) lead(4)] sf_lead.prems(2) show ?thesis by auto
  qed simp_all
next
  case (sf_returned c key y result)
  from call_state_returned [OF sf_returned.prems(1) sf_returned.hyps] sf_returned.prems(2) show ?case by auto
next
  case (sf_close c y)
  then obtain r' where "call_state y c = Returned r'" by (auto simp: sf_ok_def)
  with call_state_close [OF sf_close.prems(1) this] sf_close.prems(2) show ?case by auto
qed

lemma run_used: "sf_run y y' \<Longrightarrow> sf_ok y \<Longrightarrow> call_state y call \<noteq> Unused \<Longrightarrow> call_state y' call \<noteq> Unused"
  by (induction rule: rtranclp_induct) (auto dest: step_used sf_run_ok)

lemma call_ends:
  assumes "sf_ok y" "call_state y call \<noteq> Unused"
  shows "\<exists>y' r. sf_run y y' \<and> call_state y' call = Over r"
proof -
  have closes: "\<exists>y' r. sf_run y y' \<and> call_state y' call = Over r" if "sf_ok y" "call_state y call = Returned r" for y r
  proof -
    have "call \<in> sf_closing y" using that by (auto simp: sf_ok_def)
    from r_into_rtranclp [of sf_step, OF sf_close [OF this]] call_state_close [OF that] show ?thesis by (metis (full_types))
  qed
  show ?thesis
  proof (cases "call_state y call")
    case Running
    then obtain key where k: "(call, key) \<in> sf_leads y" using sf_ok_running [OF assms(1)] by blast
    define y1 where "y1 = y\<lparr>sf_group := do_returned key call (Inr zeroFrame) (sf_group y), sf_leads := sf_leads y - {(call, key)},
      sf_closing := insert call (sf_closing y)\<rparr>"
    have s: "sf_step y y1" unfolding y1_def using k by (rule sf_returned)
    have "call_state y1 call = Returned (Inr zeroFrame)" unfolding y1_def using call_state_returned [OF assms(1) k] by simp
    from closes [OF sf_step_ok [OF s assms(1)] this] s show ?thesis by (metis converse_rtranclp_into_rtranclp)
  next
    case (Returned r)
    with closes [OF assms(1)] show ?thesis by blast
  qed (use assms(2) in blast)+
qed

lemma do_wait_state:
  "do_wait ctxFirst None call (sf_group y) = (case call_state y call of Over r \<Rightarrow> Return r | _ \<Rightarrow> Blocked)" if "sf_ok y"
  using that by (auto simp: do_wait_def call_state_def normalizeContext_def backgroundContext_def sf_ok_def
      split: option.splits call_state.splits)

text \<open>C37. Concurrent calls with one key share one execution, where the functions executed return. However callers enter, executions end and channels are
  closed, in any order: at most one execution runs for a key; a caller joins exactly if one runs for its key, and
  joins that one; else it starts one of its own, so that a result is never reused once its execution has returned; no
  channel is closed twice. A caller that has joined gets the result of that execution when it has returned and its
  channel is closed, and the same one however late it looks; as long as it waits, this can still happen.\<close>

theorem singleflight_shares:
  assumes run: "sf_run sf_new y"
  shows "\<not> sf_panicked (sf_group y) \<and>
    ((c, key) \<in> sf_leads y \<and> (c', key) \<in> sf_leads y \<longrightarrow> c = c') \<and>
    (key \<noteq> '''' \<longrightarrow>
      (do_enter key (sf_group y) = (Join call, sf_group y) \<longleftrightarrow> (call, key) \<in> sf_leads y) \<and>
      ((\<forall>c. (c, key) \<notin> sf_leads y) \<longrightarrow> fst (do_enter key (sf_group y)) = Lead (sf_next (sf_group y)))) \<and>
    ((call, key) \<in> sf_leads y \<longrightarrow>
      do_wait ctxFirst None call (do_close call (do_returned key call result (sf_group y))) = Return result \<and>
      (sf_run y y' \<longrightarrow>
        (case do_wait ctxFirst None call (sf_group y') of
           Blocked \<Rightarrow> \<exists>y'' r. sf_run y' y'' \<and> do_wait ctxFirst None call (sf_group y'') = Return r
         | Return r \<Rightarrow> \<forall>y''. sf_run y' y'' \<longrightarrow> do_wait ctxFirst None call (sf_group y'') = Return r)))"
proof -
  have ok: "sf_ok y" using run sf_ok_new by (rule sf_run_ok)
  have enter: "(do_enter key (sf_group y) = (Join call, sf_group y) \<longleftrightarrow> (call, key) \<in> sf_leads y) \<and>
      ((\<forall>c. (c, key) \<notin> sf_leads y) \<longrightarrow> fst (do_enter key (sf_group y)) = Lead (sf_next (sf_group y)))" if "key \<noteq> ''''"
    using that sf_ok_calls [OF ok, of key] one_lead [OF ok, of _ key] by (auto simp: do_enter_def split: option.splits)
  have result: "do_wait ctxFirst None call (do_close call (do_returned key call result (sf_group y))) = Return result"
    if "(call, key) \<in> sf_leads y"
    using not_yet_done [OF ok that]
    by (simp add: do_wait_def do_close_def do_returned_def normalizeContext_def backgroundContext_def)
  have later: "case do_wait ctxFirst None call (sf_group y') of
           Blocked \<Rightarrow> \<exists>y'' r. sf_run y' y'' \<and> do_wait ctxFirst None call (sf_group y'') = Return r
         | Return r \<Rightarrow> \<forall>y''. sf_run y' y'' \<longrightarrow> do_wait ctxFirst None call (sf_group y'') = Return r"
    if "(call, key) \<in> sf_leads y" "sf_run y y'"
  proof -
    have ok': "sf_ok y'" using that(2) ok by (rule sf_run_ok)
    have "call_state y call = Running" using sf_ok_running [OF ok] that(1) by blast
    then have used: "call_state y' call \<noteq> Unused" using run_used [OF that(2) ok] by simp
    obtain y2 r where "sf_run y' y2" "call_state y2 call = Over r" using call_ends [OF ok' used] by blast
    then have returns: "\<exists>y'' r. sf_run y' y'' \<and> do_wait ctxFirst None call (sf_group y'') = Return r"
      using do_wait_state [OF sf_run_ok [OF _ ok'], of y2 ctxFirst call] by (intro exI [of _ y2] exI [of _ r]) simp
    show ?thesis
    proof (cases "call_state y' call")
      case (Over r)
      have "do_wait ctxFirst None call (sf_group y'') = Return r" if "sf_run y' y''" for y''
        using Over_stays [OF that ok' Over] do_wait_state [OF sf_run_ok [OF that ok']] by simp
      with Over show ?thesis by (simp add: do_wait_state [OF ok'])
    next
      case Unused
      with used show ?thesis by simp
    qed (use returns do_wait_state [OF ok'] in auto)
  qed
  from ok enter result later one_lead [OF ok] show ?thesis unfolding sf_ok_def by blast
qed

theorem singleflight_shares_witness:
  "\<exists>y. sf_run sf_new y \<and> do_enter ''f'' (sf_group y) = (Join 0, sf_group y) \<and>
     do_wait False None 0 (do_close 0 (do_returned ''f'' 0 (Inr zeroFrame) (sf_group y))) = Return (Inr zeroFrame)"
proof -
  define y where "y = sf_new\<lparr>sf_group := newGroup\<lparr>sf_calls := tbl_put ''f'' 0 [], sf_next := 1\<rparr>, sf_leads := {(0, ''f'')}\<rparr>"
  have "sf_step sf_new y"
    using sf_lead [of "''f''" sf_new 0 "newGroup\<lparr>sf_calls := tbl_put ''f'' 0 [], sf_next := 1\<rparr>"]
    by (simp add: y_def sf_new_def newGroup_def do_enter_def)
  then have run: "sf_run sf_new y" by (rule r_into_rtranclp)
  have "(0, ''f'') \<in> sf_leads y" by (simp add: y_def)
  with singleflight_shares [OF run, of _ "''f''" _ 0 False "Inr zeroFrame" y] run show ?thesis by (intro exI [of _ y]) simp
qed

subsection \<open>When two calls have the same key\<close>

lemma base64_char_inject: "n < 64 \<Longrightarrow> m < 64 \<Longrightarrow> base64_char n = base64_char m \<longleftrightarrow> n = m"
proof -
  assume "n < 64" "m < 64"
  moreover have "distinct base64_alphabet" "length base64_alphabet = 64" by (simp_all add: base64_alphabet_def)
  ultimately show ?thesis unfolding base64_char_def by (simp add: nth_eq_iff_index_eq)
qed

lemma byte_digits:
  fixes a b c :: byte
  shows "unat a div 4 < 64" "unat a mod 4 * 16 < 64" "unat a mod 4 * 16 + unat b div 16 < 64"
    "unat b mod 16 * 4 < 64" "unat b mod 16 * 4 + unat c div 64 < 64" "unat c mod 64 < 64"
    "unat b div 16 < 16" "unat c div 64 < 4"
proof -
  have byte: "unat x < 256" for x :: byte using unsigned_less [of x, where 'a = nat] by simp
  show "unat a div 4 < 64" using byte [of a] by (intro less_mult_imp_div_less) simp
  show q: "unat b div 16 < 16" using byte [of b] by (intro less_mult_imp_div_less) simp
  show r: "unat c div 64 < 4" using byte [of c] by (intro less_mult_imp_div_less) simp
  have "unat a mod 4 \<le> 3" using mod_less_divisor [of 4 "unat a"] by linarith
  then show "unat a mod 4 * 16 < 64" "unat a mod 4 * 16 + unat b div 16 < 64" using q by linarith+
  have "unat b mod 16 \<le> 15" using mod_less_divisor [of 16 "unat b"] by linarith
  then show "unat b mod 16 * 4 < 64" "unat b mod 16 * 4 + unat c div 64 < 64" using r by linarith+
  show "unat c mod 64 < 64" by simp
qed

lemma two_digits:
  fixes a a' p p' k m :: nat
  assumes "a div m = a' div m" "a mod m * k + p = a' mod m * k + p'" "p < k" "p' < k"
  shows "a = a' \<and> p = p'"
proof -
  have "a mod m = a' mod m" using arg_cong [OF assms(2), of "\<lambda>n. n div k"] assms(3,4) by simp
  with assms(1,2) show ?thesis by (metis add_left_cancel div_mult_mod_eq)
qed

lemma base64_digits:
  fixes a a' b b' c c' :: byte
  shows "unat a div 4 = unat a' div 4 \<Longrightarrow> unat a mod 4 * 16 + unat b div 16 = unat a' mod 4 * 16 + unat b' div 16 \<Longrightarrow>
    a = a' \<and> unat b div 16 = unat b' div 16"
    and "unat b div 16 = unat b' div 16 \<Longrightarrow> unat b mod 16 * 4 + unat c div 64 = unat b' mod 16 * 4 + unat c' div 64 \<Longrightarrow>
    b = b' \<and> unat c div 64 = unat c' div 64"
    and "unat c div 64 = unat c' div 64 \<Longrightarrow> unat c mod 64 = unat c' mod 64 \<Longrightarrow> c = c'"
proof -
  note l = byte_digits(7) [of b] byte_digits(7) [of b'] byte_digits(8) [of c] byte_digits(8) [of c']
  show "a = a' \<and> unat b div 16 = unat b' div 16"
    if "unat a div 4 = unat a' div 4" "unat a mod 4 * 16 + unat b div 16 = unat a' mod 4 * 16 + unat b' div 16"
    using two_digits [OF that l(1,2)] unsigned_word_eqI by blast
  show "b = b' \<and> unat c div 64 = unat c' div 64"
    if "unat b div 16 = unat b' div 16" "unat b mod 16 * 4 + unat c div 64 = unat b' mod 16 * 4 + unat c' div 64"
    using two_digits [OF that l(3,4)] unsigned_word_eqI by blast
  show "c = c'" if "unat c div 64 = unat c' div 64" "unat c mod 64 = unat c' mod 64"
  proof -
    have "unat c = unat c'" using div_mult_mod_eq [of "unat c" 64] div_mult_mod_eq [of "unat c'" 64] that by metis
    then show ?thesis by (rule unsigned_word_eqI)
  qed
qed

lemma base64_inject: "base64 xs = base64 ys \<Longrightarrow> xs = ys"
proof (induction xs arbitrary: ys rule: base64.induct)
  case 1
  then show ?case by (cases ys rule: base64.cases) simp_all
next
  case (2 a)
  then show ?case
    using base64_digits(1) [of a _ 0 0]
    by (cases ys rule: base64.cases) (simp_all add: base64_char_inject byte_digits)
next
  case (3 a b)
  then show ?case
    using base64_digits(1) [of a _ b] base64_digits(2) [of b _ 0 0]
    by (cases ys rule: base64.cases) (simp_all add: base64_char_inject byte_digits)
next
  case (4 a b c bs)
  then obtain a' b' c' bs' where ys: "ys = a' # b' # c' # bs'" by (cases ys rule: base64.cases) simp_all
  from "4.prems" ys have "a = a' \<and> unat b div 16 = unat b' div 16" "base64 bs = base64 bs'"
    "unat b mod 16 * 4 + unat c div 64 = unat b' mod 16 * 4 + unat c' div 64" "unat c mod 64 = unat c' mod 64"
    using base64_digits(1) [of a a' b b'] by (simp_all add: base64_char_inject byte_digits)
  with base64_digits(2) [of b b' c c'] base64_digits(3) [of c c'] "4.IH" ys show ?case by simp
qed

text \<open>For functions whose names have no NUL character the key tells the function, the given key, and the payload
  of a call without one. A given key and a payload can agree: the base64 text of a payload is a possible key. A
  function whose name has a NUL character can share the key of another function.\<close>

lemma singleflightKey_tells:
  assumes "singleflightKey codec f k req = Inr x" "singleflightKey codec f' k' req' = Inr x"
    "CHR 0x00 \<notin> set f" "CHR 0x00 \<notin> set f'"
  shows "f = f' \<and> (k \<noteq> '''' \<and> k' \<noteq> '''' \<longrightarrow> k = k') \<and> (k = '''' \<and> k' = '''' \<longrightarrow> MarshalValue codec req = MarshalValue codec req')"
proof -
  have split: "f = f' \<and> y = y'" if "f @ [CHR 0x00] @ y = f' @ [CHR 0x00] @ y'" for y y'
    using that assms(3,4)
  proof (induction f arbitrary: f')
    case Nil
    then show ?case by (cases f') auto
  next
    case (Cons z f)
    then show ?case by (cases f') auto
  qed
  have key: "x = f @ [CHR 0x00] @ (if k \<noteq> '''' then k else base64 (projr (MarshalValue codec req)))"
    "x = f' @ [CHR 0x00] @ (if k' \<noteq> '''' then k' else base64 (projr (MarshalValue codec req')))"
    using assms(1,2) by (simp_all add: singleflightKey_def split: if_splits sum.splits)
  have "MarshalValue codec req = Inr (projr (MarshalValue codec req))" if "k = ''''"
    using assms(1) that by (simp add: singleflightKey_def split: sum.splits)
  moreover have "MarshalValue codec req' = Inr (projr (MarshalValue codec req'))" if "k' = ''''"
    using assms(2) that by (simp add: singleflightKey_def split: sum.splits)
  ultimately show ?thesis using split [OF trans [OF key(1) [symmetric] key(2)]]
      base64_inject [of "projr (MarshalValue codec req)" "projr (MarshalValue codec req')"] by (simp split: if_splits)
qed

lemma singleflightKey_collides:
  "singleflightKey codec ''a'' [CHR ''b'', CHR 0x00, CHR ''c''] req = singleflightKey codec [CHR ''a'', CHR 0x00, CHR ''b''] ''c'' req' \<and>
   (MarshalValue codec req = Inr payload \<and> payload \<noteq> [] \<longrightarrow>
      singleflightKey codec f '''' req = singleflightKey codec f (base64 payload) req')"
  by (cases payload rule: base64.cases) (auto simp: singleflightKey_def)

end
