(* ===== verification/Serving.thy ===== *)
theory Serving
  imports Reconnect "HOL-Library.Multiset"
begin

text \<open>
  The server as a whole (\<^verbatim>\<open>server.go\<close>: \<^verbatim>\<open>NewServer\<close>, \<^verbatim>\<open>ServeListener\<close> and its variants, \<^verbatim>\<open>Shutdown\<close>) and what the options of a
  client and a server make of its configuration (\<^verbatim>\<open>NewServer\<close>, \<^verbatim>\<open>NewClient\<close>). The goroutines of a server are the
  accept loops, one for each connection it serves and one for each handler; \<open>serving_step\<close> lets them run in any
  order, with the steps of \<^verbatim>\<open>Shutdown\<close> at any time: between \<^verbatim>\<open>Accept\<close> and the \<^verbatim>\<open>wg.Add\<close> for its connection, and between
  \<^verbatim>\<open>trackRequest\<close> and the \<^verbatim>\<open>wg.Add\<close> for its handler, among others. \<^verbatim>\<open>sync.WaitGroup\<close> is its counter.
\<close>

subsection \<open>Options\<close>

text \<open>The fields of \<^verbatim>\<open>ServerOptions\<close> and \<^verbatim>\<open>ClientOptions\<close> that configure the protocol. Callbacks, logger and peer manager are
  arguments of the definitions that use them, the timing fields are in \<open>timing\<close>.\<close>

record 'v Options =
  o_Codec :: "'v Codec option"
  o_Compression :: "Compressor option"
  o_MaxFrameSize :: int
  o_Auth :: Auth
  o_WriteTimeout :: int
  o_Backpressure :: BackpressureOptions
  o_StreamOptions :: StreamOptions
  o_UnaryInterceptor :: "UnaryInterceptor option"
  o_NotifyInterceptor :: "NotifyInterceptor option"
  o_StreamInterceptor :: "StreamInterceptor option"

definition NewServer :: "msgpcode \<Rightarrow> 'v Codec \<Rightarrow> 'v Options \<Rightarrow> 'v Server" where
  "NewServer mc lib opts =
     \<lparr>reg_codec = defaultCodec mc lib (o_Codec opts), handlers = Map.empty, notifyHandlers = Map.empty,
      serverStreamHandlers = Map.empty, clientStreamHandlers = Map.empty, bidiStreamHandlers = Map.empty,
      cf_mc = mc, cf_lib = lib, cf_compressor = normalizeCompressor (o_Compression opts),
      cf_maxFrameSize = normalizeMaxFrameSize (o_MaxFrameSize opts), cf_auth = o_Auth opts,
      cf_writeTimeout = normalizeWriteTimeout (o_WriteTimeout opts),
      cf_backpressure = normalizeBackpressureOptions (o_Backpressure opts),
      cf_streamOptions = normalizeStreamOptions (o_StreamOptions opts),
      cf_unaryInterceptor = o_UnaryInterceptor opts, cf_notifyInterceptor = o_NotifyInterceptor opts,
      cf_streamInterceptor = o_StreamInterceptor opts,
      sv_listeners = [], sv_conns = [], sv_shuttingDown = False, sv_wg = 0\<rparr>"

definition NewClient :: "msgpcode \<Rightarrow> 'v Codec \<Rightarrow> 'v Options \<Rightarrow> (nat \<Rightarrow> string \<times> string) \<Rightarrow> 'v Config \<times> 'v Client" where
  "NewClient mc lib opts addrs =
     (let cfg =
        \<lparr>reg_codec = defaultCodec mc lib (o_Codec opts), handlers = Map.empty, notifyHandlers = Map.empty,
         serverStreamHandlers = Map.empty, clientStreamHandlers = Map.empty, bidiStreamHandlers = Map.empty,
         cf_mc = mc, cf_lib = lib, cf_compressor = normalizeCompressor (o_Compression opts),
         cf_maxFrameSize = normalizeMaxFrameSize (o_MaxFrameSize opts), cf_auth = o_Auth opts,
         cf_writeTimeout = normalizeWriteTimeout (o_WriteTimeout opts),
         cf_backpressure = normalizeBackpressureOptions (o_Backpressure opts),
         cf_streamOptions = normalizeStreamOptions (o_StreamOptions opts),
         cf_unaryInterceptor = o_UnaryInterceptor opts, cf_notifyInterceptor = o_NotifyInterceptor opts,
         cf_streamInterceptor = o_StreamInterceptor opts\<rparr>
      in (cfg, newClientState cfg addrs))"

subsection \<open>Serving\<close>

text \<open>\<^verbatim>\<open>ServeListener\<close> up to its loop, with \<open>None\<close> for a nil listener: the error it returns with, if it does.\<close>

definition ServeListener_begin :: "nat option \<Rightarrow> 'v Server \<Rightarrow> gerror option \<times> 'v Server" where
  "ServeListener_begin lsn s =
     (case lsn of
        None \<Rightarrow> (Some (Errorf_suffix ErrProtocol ''nil listener''), s)
      | Some lsn \<Rightarrow>
          (case setListener lsn s of
             (False, s) \<Rightarrow> (Some (Sentinel ErrClosed), s)
           | (True, s) \<Rightarrow> (None, s)))"

text \<open>\<^verbatim>\<open>wg.Add(1)\<close> for a connection that \<^verbatim>\<open>Accept\<close> has returned and for a request that was tracked, and \<^verbatim>\<open>wg.Done\<close>.\<close>

definition wg_Add :: "'v Server \<Rightarrow> 'v Server" where
  "wg_Add s = s\<lparr>sv_wg := sv_wg s + 1\<rparr>"

definition wg_Done :: "'v Server \<Rightarrow> 'v Server" where
  "wg_Done s = s\<lparr>sv_wg := sv_wg s - 1\<rparr>"

text \<open>The pass of the loop whose \<^verbatim>\<open>Accept\<close> fails: the result, and the deferred calls in their order; the last one closes the
  listener.\<close>

definition ServeListener_fail :: "gerror \<Rightarrow> 'v Server \<Rightarrow> gerror option \<times> 'v Server" where
  "ServeListener_fail err s =
     (if sv_shuttingDown s \<or> errors_Is err NetErrClosed then None else Some err, wg_Done s)"

definition ServeListener_return :: "nat \<Rightarrow> 'v Server \<Rightarrow> 'v Server" where
  "ServeListener_return lsn s = clearListener lsn s"

text \<open>\<^verbatim>\<open>ServeTCP\<close>, \<^verbatim>\<open>ServeUnix\<close> and \<^verbatim>\<open>ServeUnixPacket\<close>: \<open>listen\<close> is \<^verbatim>\<open>net.Listen\<close>.\<close>

definition Serve_network :: "(string \<Rightarrow> string \<Rightarrow> nat res) \<Rightarrow> string \<Rightarrow> string \<Rightarrow> 'v Server \<Rightarrow> gerror option \<times> 'v Server" where
  "Serve_network listen network address s =
     (case listen network address of
        Inl err \<Rightarrow> (Some err, s)
      | Inr lsn \<Rightarrow> ServeListener_begin (Some lsn) s)"

definition ServeTCP where "ServeTCP listen address = Serve_network listen ''tcp'' address"
definition ServeUnix where "ServeUnix listen path = Serve_network listen ''unix'' path"
definition ServeUnixPacket where "ServeUnixPacket listen path = Serve_network listen ''unixpacket'' path"

text \<open>The wait of \<^verbatim>\<open>Shutdown\<close> for all goroutines that the group counts.\<close>

definition Shutdown_wait :: "ctx option \<Rightarrow> 'v Server \<Rightarrow> gerror option outcome" where
  "Shutdown_wait ctx s =
     (if sv_wg s = 0 then Return None
      else (case ctx_err (normalizeContext ctx) of Some err \<Rightarrow> Return (Some err) | None \<Rightarrow> Blocked))"

subsection \<open>The goroutines of a server\<close>

text \<open>The calls of \<^verbatim>\<open>ServeListener\<close> in their loops, those of them that have a connection from \<^verbatim>\<open>Accept\<close> and have not counted it
  yet, those past \<^verbatim>\<open>wg.Done\<close> and before \<^verbatim>\<open>clearListener\<close>; the open listeners; how many goroutines have a connection
  and have not asked to register it; those that serve a registered one; how many are past \<^verbatim>\<open>removeConn\<close>, or
  were refused, and before \<^verbatim>\<open>wg.Done\<close>; the handlers that a connection has tracked and not counted yet; the
  handlers that run, with the connection they belong to; whether a call of \<^verbatim>\<open>Shutdown\<close> has closed the listeners and the
  connections.\<close>

record 'v serving =
  sg_server :: "'v Server"
  sg_loops :: "nat set"
  sg_got :: "nat set"
  sg_stopping :: "nat set"
  sg_open :: "nat set"
  sg_accepted :: nat
  sg_running :: "nat set"
  sg_leaving :: nat
  sg_tracked :: "(nat \<times> job) multiset"
  sg_jobs :: "(nat \<times> job) multiset"
  sg_listenersClosed :: bool
  sg_connsClosed :: bool

definition on_conn :: "nat \<Rightarrow> 'v Conn \<Rightarrow> 'v Server \<Rightarrow> 'v Server" where
  "on_conn i c s = s\<lparr>sv_conns := tbl_put i c (sv_conns s)\<rparr>"

fun spawns :: "event list \<Rightarrow> job list" where
  "spawns [] = []"
| "spawns (EvSpawn j # evs) = j # spawns evs"
| "spawns (_ # evs) = spawns evs"

text \<open>What the goroutines do by themselves: a loop whose listener is closed ends, an accepted connection is counted and
  then registered or refused, a tracked handler is counted, the goroutine of a connection ends once the
  connection is closed and the goroutine is not about to start a handler, and a handler returns. That handlers and
  callbacks return is up to the user's code; the contexts of the handlers are cancelled with the connection.\<close>

inductive own_step :: "'v serving \<Rightarrow> 'v serving \<Rightarrow> bool" where
  sg_stop: "lsn \<in> sg_loops y \<Longrightarrow> lsn \<notin> sg_got y \<Longrightarrow> lsn \<notin> sg_open y \<Longrightarrow> errors_Is err NetErrClosed \<Longrightarrow>
    ServeListener_fail err (sg_server y) = (r, s) \<Longrightarrow>
    own_step y (y\<lparr>sg_server := s, sg_loops := sg_loops y - {lsn}, sg_stopping := insert lsn (sg_stopping y)\<rparr>)"
| sg_return: "lsn \<in> sg_stopping y \<Longrightarrow>
    own_step y (y\<lparr>sg_server := ServeListener_return lsn (sg_server y), sg_stopping := sg_stopping y - {lsn},
      sg_open := sg_open y - {lsn}\<rparr>)"
| sg_count: "lsn \<in> sg_got y \<Longrightarrow>
    own_step y (y\<lparr>sg_server := wg_Add (sg_server y), sg_got := sg_got y - {lsn}, sg_accepted := Suc (sg_accepted y)\<rparr>)"
| sg_register: "sg_accepted y = Suc m \<Longrightarrow> i \<notin> sg_running y \<Longrightarrow>
    addConn i (newConn (sg_server y) w n) (sg_server y) = (True, s) \<Longrightarrow>
    own_step y (y\<lparr>sg_server := s, sg_accepted := m, sg_running := insert i (sg_running y)\<rparr>)"
| sg_refuse: "sg_accepted y = Suc m \<Longrightarrow> addConn i (newConn (sg_server y) w n) (sg_server y) = (False, s) \<Longrightarrow>
    own_step y (y\<lparr>sg_server := s, sg_accepted := m, sg_leaving := Suc (sg_leaving y)\<rparr>)"
| sg_count_job: "sg_tracked y = add_mset p m \<Longrightarrow>
    own_step y (y\<lparr>sg_server := wg_Add (sg_server y), sg_tracked := m, sg_jobs := add_mset p (sg_jobs y)\<rparr>)"
| sg_job_end: "sg_jobs y = add_mset p m \<Longrightarrow> own_step y (y\<lparr>sg_server := wg_Done (sg_server y), sg_jobs := m\<rparr>)"
| sg_remove: "i \<in> sg_running y \<Longrightarrow> i \<notin> fst ` set_mset (sg_tracked y) \<Longrightarrow>
    map_of (sv_conns (sg_server y)) i = Some c \<Longrightarrow> e_closed c \<Longrightarrow>
    own_step y (y\<lparr>sg_server := removeConn i (sg_server y), sg_running := sg_running y - {i},
      sg_leaving := Suc (sg_leaving y)\<rparr>)"
| sg_end: "sg_leaving y = Suc m \<Longrightarrow> own_step y (y\<lparr>sg_server := wg_Done (sg_server y), sg_leaving := m\<rparr>)"

text \<open>All steps: these, and what callers, peers and the network do. A call of \<^verbatim>\<open>ServeListener\<close>, an \<^verbatim>\<open>Accept\<close> of an
  open listener that returns a connection or an error, the dispatch of a frame by the goroutine of a connection, any
  other operation on a connection (its failure and its end among them), and the steps of \<^verbatim>\<open>Shutdown\<close> in
  their order, of one call or of several.\<close>

inductive serving_step :: "'v serving \<Rightarrow> 'v serving \<Rightarrow> bool" where
  sg_own: "own_step y y' \<Longrightarrow> serving_step y y'"
| sg_serve: "lsn \<notin> sg_loops y \<union> sg_stopping y \<Longrightarrow> ServeListener_begin (Some lsn) (sg_server y) = (err, s) \<Longrightarrow>
    serving_step y (y\<lparr>sg_server := s, sg_loops := (if err = None then insert lsn (sg_loops y) else sg_loops y),
      sg_open := (if err = None then insert lsn (sg_open y) else sg_open y - {lsn})\<rparr>)"
| sg_accept: "lsn \<in> sg_loops y \<Longrightarrow> lsn \<in> sg_open y \<Longrightarrow> lsn \<notin> sg_got y \<Longrightarrow>
    serving_step y (y\<lparr>sg_got := insert lsn (sg_got y)\<rparr>)"
| sg_fail: "lsn \<in> sg_loops y \<Longrightarrow> lsn \<in> sg_open y \<Longrightarrow> lsn \<notin> sg_got y \<Longrightarrow> ServeListener_fail err (sg_server y) = (r, s) \<Longrightarrow>
    serving_step y (y\<lparr>sg_server := s, sg_loops := sg_loops y - {lsn}, sg_stopping := insert lsn (sg_stopping y)\<rparr>)"
| sg_dispatch: "i \<in> sg_running y \<Longrightarrow> i \<notin> fst ` set_mset (sg_tracked y) \<Longrightarrow>
    map_of (sv_conns (sg_server y)) i = Some c \<Longrightarrow> Conn_dispatch (sg_server y) fr c = (b, c', evs) \<Longrightarrow>
    serving_step y (y\<lparr>sg_server := on_conn i c' (sg_server y),
      sg_tracked := sg_tracked y + mset (map (Pair i) (spawns evs))\<rparr>)"
| sg_op: "i \<in> sg_running y \<Longrightarrow> map_of (sv_conns (sg_server y)) i = Some c \<Longrightarrow>
    conn_op (sg_server y) c is evs c' \<Longrightarrow> spawns evs = [] \<Longrightarrow>
    serving_step y (y\<lparr>sg_server := on_conn i c' (sg_server y)\<rparr>)"
| sg_shutdown_store: "serving_step y (y\<lparr>sg_server := Shutdown_store (sg_server y)\<rparr>)"
| sg_shutdown_listeners: "sv_shuttingDown (sg_server y) \<Longrightarrow>
    serving_step y (y\<lparr>sg_open := sg_open y - set (Shutdown_listeners (sg_server y)), sg_listenersClosed := True\<rparr>)"
| sg_shutdown_conns: "sg_listenersClosed y \<Longrightarrow> Shutdown_conns (sg_server y) = (s, evs) \<Longrightarrow>
    serving_step y (y\<lparr>sg_server := s, sg_connsClosed := True\<rparr>)"

abbreviation serving_run :: "'v serving \<Rightarrow> 'v serving \<Rightarrow> bool" where
  "serving_run \<equiv> serving_step\<^sup>*\<^sup>*"

definition new_serving :: "'v Server \<Rightarrow> 'v serving" where
  "new_serving s =
     \<lparr>sg_server = s, sg_loops = {}, sg_got = {}, sg_stopping = {}, sg_open = {}, sg_accepted = 0, sg_running = {},
      sg_leaving = 0, sg_tracked = {#}, sg_jobs = {#}, sg_listenersClosed = False, sg_connsClosed = False\<rparr>"

text \<open>The goroutines that the group counts.\<close>

definition goroutines :: "'v serving \<Rightarrow> nat" where
  "goroutines y = card (sg_loops y) + sg_accepted y + card (sg_running y) + sg_leaving y + size (sg_jobs y)"

definition serving_ok :: "'v serving \<Rightarrow> bool" where
  "serving_ok y \<longleftrightarrow>
     finite (sg_loops y) \<and> finite (sg_stopping y) \<and> finite (sg_running y) \<and> sg_got y \<subseteq> sg_loops y \<and>
     sg_loops y \<inter> sg_stopping y = {} \<and> fst ` set_mset (sg_tracked y) \<subseteq> sg_running y \<and>
     sv_wg (sg_server y) = goroutines y \<and> set (sv_listeners (sg_server y)) = sg_loops y \<union> sg_stopping y \<and>
     (\<forall>i. i \<in> sg_running y \<longleftrightarrow> map_of (sv_conns (sg_server y)) i \<noteq> None) \<and>
     (\<forall>i c. map_of (sv_conns (sg_server y)) i = Some c \<longrightarrow> endpoint_ok (cf_backpressure (sg_server y)) c) \<and>
     (sg_listenersClosed y \<longrightarrow> sv_shuttingDown (sg_server y) \<and> (sg_loops y \<union> sg_stopping y) \<inter> sg_open y = {}) \<and>
     (sg_connsClosed y \<longrightarrow>
        sg_listenersClosed y \<and> (\<forall>i c. map_of (sv_conns (sg_server y)) i = Some c \<longrightarrow> e_closed c))"

lemma serving_ok_new: "serving_ok (new_serving (NewServer mc lib opts))"
  by (simp add: serving_ok_def new_serving_def NewServer_def goroutines_def)

lemmas serving_defs = serving_ok_def goroutines_def

lemma server_fields [simp]:
  "cf_backpressure (on_conn i c s) = cf_backpressure s" "cf_backpressure (wg_Done s) = cf_backpressure s"
  "cf_backpressure (removeConn i s) = cf_backpressure s" "cf_backpressure (wg_Add s) = cf_backpressure s"
  "cf_backpressure (ServeListener_return lsn s) = cf_backpressure s"
  for s :: "'v Server"
  by (simp_all add: on_conn_def wg_Done_def removeConn_def wg_Add_def ServeListener_return_def clearListener_def)

lemma Shutdown_conns_closed:
  assumes "Shutdown_conns s = (s', evs)"
  shows "sv_shuttingDown s' = sv_shuttingDown s" "sv_wg s' = sv_wg s" "sv_listeners s' = sv_listeners s"
    "cf_backpressure s' = cf_backpressure s"
    "map_of (sv_conns s') i = map_option (\<lambda>c. fst (Conn_close c)) (map_of (sv_conns s) i)"
  using assms by (auto simp: Shutdown_conns_def map_of_map)

lemma own_step_ok: "own_step y y' \<Longrightarrow> serving_ok y \<Longrightarrow> serving_ok y'"
proof (induction rule: own_step.induct)
  case (sg_stop lsn y err r s)
  then have "s = wg_Done (sg_server y)" by (simp add: ServeListener_fail_def)
  with sg_stop card.remove [of "sg_loops y" lsn] show ?case by (auto simp: serving_defs wg_Done_def)
next
  case (sg_return lsn y)
  then show ?case by (auto simp: serving_defs ServeListener_return_def clearListener_def)
next
  case (sg_count lsn y)
  then show ?case by (auto simp: serving_defs wg_Add_def)
next
  case (sg_register y m i w n s)
  then have "s = on_conn i (newConn (sg_server y) w n) (sg_server y)" "\<not> sv_shuttingDown (sg_server y)"
    by (auto simp: addConn_def on_conn_def split: if_splits)
  with sg_register show ?case by (auto simp: serving_defs on_conn_def newConn_ok)
next
  case (sg_refuse y m i w n s)
  then have "s = sg_server y" by (auto simp: addConn_def split: if_splits)
  with sg_refuse show ?case by (auto simp: serving_defs)
next
  case (sg_count_job y p m)
  then show ?case by (auto simp: serving_defs wg_Add_def)
next
  case (sg_job_end y p m)
  then show ?case by (auto simp: serving_defs wg_Done_def)
next
  case (sg_remove i y c)
  with card.remove [of "sg_running y" i] show ?case by (auto simp: serving_defs removeConn_def)
next
  case (sg_end y m)
  then show ?case by (auto simp: serving_defs wg_Done_def)
qed

lemma on_conn_ok:
  assumes "serving_ok y" "i \<in> sg_running y" "map_of (sv_conns (sg_server y)) i = Some c" "conn_op (sg_server y) c is evs c'"
  shows "serving_ok (y\<lparr>sg_server := on_conn i c' (sg_server y)\<rparr>)"
proof -
  have "endpoint_ok (cf_backpressure (sg_server y)) c" using assms by (simp add: serving_ok_def)
  from conn_op_kept [OF assms(4) this] assms show ?thesis by (auto simp: serving_defs on_conn_def kept_def)
qed

lemma serving_step_ok: "serving_step y y' \<Longrightarrow> serving_ok y \<Longrightarrow> serving_ok y'"
proof (induction rule: serving_step.induct)
  case (sg_own y y')
  then show ?case by (rule own_step_ok)
next
  case (sg_serve lsn y err s)
  show ?case
  proof (cases "sv_shuttingDown (sg_server y)")
    case True
    with sg_serve have "s = sg_server y" "err \<noteq> None" by (auto simp: ServeListener_begin_def setListener_def)
    with sg_serve.prems show ?thesis by (auto simp: serving_defs)
  next
    case False
    with sg_serve have "s = (sg_server y)\<lparr>sv_listeners := List.insert lsn (sv_listeners (sg_server y)), sv_wg := sv_wg (sg_server y) + 1\<rparr>"
      "err = None" by (auto simp: ServeListener_begin_def setListener_def)
    with sg_serve.prems sg_serve.hyps(1) False show ?thesis by (auto simp: serving_defs)
  qed
next
  case (sg_fail lsn y err r s)
  then have "s = wg_Done (sg_server y)" by (simp add: ServeListener_fail_def)
  with sg_fail card.remove [of "sg_loops y" lsn] show ?case by (auto simp: serving_defs wg_Done_def)
next
  case (sg_dispatch i y c fr b c' evs)
  from on_conn_ok [OF sg_dispatch.prems sg_dispatch.hyps(1,3) op_dispatch [OF sg_dispatch.hyps(4)]] sg_dispatch.hyps(1)
  show ?case by (auto simp: serving_defs)
next
  case (sg_op i y c "is" evs c')
  then show ?case by (blast intro: on_conn_ok)
next
  case (sg_shutdown_conns y s evs)
  note sh = Shutdown_conns_closed [OF sg_shutdown_conns.hyps(2)]
  have "endpoint_ok (cf_backpressure (sg_server y)) (fst (Conn_close c)) \<and> e_closed (fst (Conn_close c))"
    if "map_of (sv_conns (sg_server y)) i = Some c" for i c
  proof -
    obtain c' ev where cl: "Conn_close c = (c', ev)" by fastforce
    have "endpoint_ok (cf_backpressure (sg_server y)) c" using sg_shutdown_conns.prems that by (simp add: serving_ok_def)
    from Conn_closeWithError_kept [OF cl [unfolded Conn_close_def] this] cl show ?thesis by (simp add: kept_def)
  qed
  with sg_shutdown_conns sh show ?case by (auto simp: serving_defs)
qed (auto simp: serving_defs Shutdown_store_def Shutdown_listeners_def)

lemma serving_run_ok: "serving_run y y' \<Longrightarrow> serving_ok y \<Longrightarrow> serving_ok y'"
  by (induction rule: rtranclp_induct) (auto intro: serving_step_ok)

subsection \<open>A closed connection starts no handler\<close>

lemma spawns_append [simp]: "spawns (evs @ evs') = spawns evs @ spawns evs'"
  by (induction evs rule: spawns.induct) simp_all

lemma run_effects_spawns: "run_effects ref es e = (e', evs) \<Longrightarrow> spawns evs = []"
  by (induction ref es e arbitrary: e' evs rule: run_effects.induct) (auto split: prod.splits)

lemma on_stream_spawns: "on_stream ref g e = (e', evs) \<Longrightarrow> spawns evs = []"
  by (auto simp: on_stream_def dest: run_effects_spawns split: option.splits prod.splits)

lemma stream_frame_spawns: "snd (deliverStreamFrame codec fr e) = (e', evs) \<Longrightarrow> spawns evs = []"
  by (auto simp: deliverStreamFrame_def dest: on_stream_spawns split: option.splits FrameType.splits if_splits)

lemma complete_spawns: "snd (Endpoint.complete i r e) = (e', evs) \<Longrightarrow> spawns evs = []"
  by (auto simp: Endpoint.complete_def deliverPending_def split: option.splits)

lemma cancel_request_spawns: "cancel_request i e = (e', evs) \<Longrightarrow> spawns evs = []"
  by (auto simp: cancel_request_def dest!: on_stream_spawns split: option.splits prod.splits)

lemma closed_write: "e_closed c \<Longrightarrow> write_handled (conn_link server) fr c = (Some (closedError c), c, [])"
  by (simp add: write_handled_def conn_link_def Conn_write_def Conn_handleWriteError_def Conn_closeWithError_def)

lemma closed_reject:
  assumes "e_closed c"
  shows "rejectWith (conn_link server) codec fr code msg c = (c, [])" "failWith (conn_link server) codec fr err c = (c, [])"
  using assms by (simp_all add: rejectWith_def failWith_def writeError_def closed_write split: sum.splits)

lemma closed_start_inbound:
  assumes "e_closed c" "start_inbound (conn_link server) cfg j a fr c = (c', evs)"
  shows "spawns evs = []"
  using assms
  by (cases "fst a"; cases a)
    (auto simp: start_inbound_def new_ctx_def alloc_stream_def Let_def addStream_def the_stream_def closed_reject)

lemma snd_eq: "x = (a, b) \<Longrightarrow> snd x = b"
  by simp

lemma closed_dispatch_spawns:
  assumes "e_closed c" "Conn_dispatch server fr c = (b, c', evs)"
  shows "spawns evs = []"
proof -
  have track: "lk_track (conn_link server) i k (snd (new_ctx c)) = (False, snd (new_ctx c))" for i k
    using assms(1) by (simp add: conn_link_def Conn_trackRequest_def new_ctx_def)
  have "spawns (snd (startRequest (conn_link server) server fr c)) = []"
    "spawns (snd (startNotify (conn_link server) server fr c)) = []"
    using assms(1) track by (auto simp: startRequest_def startNotify_def closed_reject Let_def split: option.splits prod.splits)
  moreover have "spawns (snd (startStream (conn_link server) server fr c)) = []"
    using assms(1) by (auto simp: startStream_def startServerStream_def startClientStream_def startBidiStream_def
        streamNotFound_def closed_reject split: StreamKind.splits option.splits intro: closed_start_inbound [OF _ prod.collapse [symmetric]])
  ultimately show ?thesis
    using assms(2)
    by (auto simp: Conn_dispatch_def dispatch_def finish_stream_def closed_write [OF assms(1)]
        split: FrameType.splits option.splits prod.splits if_splits
        dest: stream_frame_spawns complete_spawns cancel_request_spawns on_stream_spawns
          snd_eq [THEN stream_frame_spawns] snd_eq [THEN complete_spawns])
qed

subsection \<open>Shutting down\<close>

text \<open>How many steps of their own the goroutines can still take.\<close>

definition work :: "'v serving \<Rightarrow> nat" where
  "work y = 2 * card (sg_loops y) + card (sg_stopping y) + 4 * card (sg_got y) + 3 * sg_accepted y +
     2 * card (sg_running y) + sg_leaving y + 2 * size (sg_tracked y) + size (sg_jobs y)"

text \<open>The second state has no loop, no connection and no handler that the first one has not, apart from those of
  connections that had been accepted and of handlers that had been tracked; no connection is registered.\<close>

definition no_more :: "'v serving \<Rightarrow> 'v serving \<Rightarrow> bool" where
  "no_more y y' \<longleftrightarrow>
     sg_connsClosed y' \<and> sg_loops y' \<subseteq> sg_loops y \<and> sg_got y' \<subseteq> sg_got y \<and>
     sg_accepted y' + card (sg_got y') \<le> sg_accepted y + card (sg_got y) \<and> sg_running y' \<subseteq> sg_running y \<and>
     sg_tracked y' \<subseteq># sg_tracked y \<and> sg_jobs y' + sg_tracked y' \<subseteq># sg_jobs y + sg_tracked y"

lemma serving_ok_finite:
  "serving_ok y \<Longrightarrow> finite (sg_loops y) \<and> finite (sg_stopping y) \<and> finite (sg_running y) \<and> finite (sg_got y)"
  by (auto simp: serving_ok_def intro: finite_subset)

lemma own_step_work: "own_step y y' \<Longrightarrow> serving_ok y \<Longrightarrow> work y' < work y"
proof (induction rule: own_step.induct)
  case (sg_stop lsn y err r s)
  with card.remove [of "sg_loops y" lsn] show ?case by (auto simp: work_def card_insert_if serving_ok_finite)
next
  case (sg_return lsn y)
  with card.remove [of "sg_stopping y" lsn] show ?case by (auto simp: work_def serving_ok_finite)
next
  case (sg_count lsn y)
  with card.remove [of "sg_got y" lsn] show ?case by (auto simp: work_def serving_ok_finite)
next
  case (sg_register y m i w n s)
  then show ?case by (auto simp: work_def serving_ok_finite)
next
  case (sg_remove i y c)
  with card.remove [of "sg_running y" i] show ?case by (auto simp: work_def serving_ok_finite)
qed (auto simp: work_def)

lemma own_step_no_more:
  assumes "own_step y y'" "serving_ok y" "sg_connsClosed y"
  shows "no_more y y'"
proof -
  have down: "sv_shuttingDown (sg_server y)" using assms(2,3) by (simp add: serving_ok_def)
  from assms show ?thesis
  proof (cases rule: own_step.cases)
    case (sg_count lsn)
    with assms card.remove [of "sg_got y" lsn] show ?thesis by (auto simp: no_more_def serving_ok_finite)
  qed (use assms down in \<open>auto simp: no_more_def addConn_def\<close>)
qed

lemma closed_step:
  assumes "serving_step y y'" "serving_ok y" "sg_connsClosed y"
  shows "no_more y y' \<and> work y' \<le> work y"
proof -
  have down: "sv_shuttingDown (sg_server y)" "sg_loops y \<inter> sg_open y = {}" using assms(2,3) by (auto simp: serving_ok_def)
  from assms(1) show ?thesis
  proof (cases rule: serving_step.cases)
    case sg_own
    with own_step_no_more [OF _ assms(2,3)] own_step_work [OF _ assms(2)] show ?thesis by (simp add: less_imp_le)
  next
    case (sg_dispatch i c fr b c' evs)
    then have "e_closed c" using assms(2,3) by (simp add: serving_ok_def)
    from closed_dispatch_spawns [OF this sg_dispatch(5)] sg_dispatch assms(3) show ?thesis by (simp add: no_more_def work_def)
  qed (use assms(3) down in \<open>auto simp: no_more_def work_def ServeListener_begin_def setListener_def\<close>)
qed

lemma no_more_trans: "no_more y y' \<Longrightarrow> no_more y' y'' \<Longrightarrow> no_more y y''"
  unfolding no_more_def by (auto intro: subset_mset.order_trans)

lemma closed_run:
  assumes "serving_run y y'" "serving_ok y" "sg_connsClosed y"
  shows "no_more y y' \<and> work y' \<le> work y"
  using assms
proof (induction rule: rtranclp_induct)
  case base
  then show ?case by (simp add: no_more_def)
next
  case (step y1 y2)
  then have "sg_connsClosed y1" by (simp add: no_more_def)
  from closed_step [OF step.hyps(2) serving_run_ok [OF step.hyps(1) step.prems(1)] this] step show ?case
    by (auto intro: no_more_trans)
qed

lemma own_step_enabled:
  assumes ok: "serving_ok y" and closed: "sg_connsClosed y" and "work y > 0"
  shows "\<exists>y'. own_step y y'"
proof -
  have fin: "finite (sg_loops y)" "finite (sg_stopping y)" "finite (sg_running y)" "finite (sg_got y)"
    using serving_ok_finite [OF ok] by simp_all
  have down: "sv_shuttingDown (sg_server y)" "sg_loops y \<inter> sg_open y = {}" using ok closed by (auto simp: serving_ok_def)
  consider (got) lsn where "lsn \<in> sg_got y" | (loop) lsn where "lsn \<in> sg_loops y" "sg_got y = {}"
    | (stopping) lsn where "lsn \<in> sg_stopping y" | (accepted) m where "sg_accepted y = Suc m"
    | (tracked) p m where "sg_tracked y = add_mset p m" | (running) i where "i \<in> sg_running y" "sg_tracked y = {#}"
    | (leaving) m where "sg_leaving y = Suc m" | (job) p m where "sg_jobs y = add_mset p m"
  proof -
    have "sg_loops y \<noteq> {} \<or> sg_stopping y \<noteq> {} \<or> sg_got y \<noteq> {} \<or> sg_accepted y \<noteq> 0 \<or> sg_running y \<noteq> {} \<or>
        sg_leaving y \<noteq> 0 \<or> sg_tracked y \<noteq> {#} \<or> sg_jobs y \<noteq> {#}"
      using \<open>work y > 0\<close> by (auto simp: work_def)
    then show ?thesis using that by (metis all_not_in_conv multiset_cases not0_implies_Suc)
  qed
  then show ?thesis
  proof cases
    case got
    then show ?thesis by (blast intro: sg_count)
  next
    case loop
    from sg_stop [OF loop(1) _ _ _ surjective_pairing, of "Sentinel NetErrClosed"] loop down show ?thesis by auto
  next
    case stopping
    then show ?thesis by (blast intro: sg_return)
  next
    case accepted
    have "addConn 0 (newConn (sg_server y) w n) (sg_server y) = (False, sg_server y)" for w n
      using down by (simp add: addConn_def)
    from sg_refuse [OF accepted this] show ?thesis by blast
  next
    case tracked
    then show ?thesis by (blast intro: sg_count_job)
  next
    case running
    then obtain c where "map_of (sv_conns (sg_server y)) i = Some c" using ok by (auto simp: serving_ok_def)
    moreover from this have "e_closed c" using ok closed by (simp add: serving_ok_def)
    ultimately show ?thesis using sg_remove [OF running(1)] running(2) by auto
  next
    case leaving
    then show ?thesis by (blast intro: sg_end)
  next
    case job
    then show ?thesis by (blast intro: sg_job_end)
  qed
qed

lemma own_run_bound:
  "(own_step ^^ n) y y' \<Longrightarrow> serving_ok y \<Longrightarrow> n + work y' \<le> work y \<and> serving_run y y'"
proof (induction n arbitrary: y')
  case (Suc n)
  then obtain y1 where y1: "(own_step ^^ n) y y1" "own_step y1 y'" by auto
  with Suc have r: "n + work y1 \<le> work y" "serving_run y y1" by auto
  from own_step_work [OF y1(2) serving_run_ok [OF r(2) Suc.prems(2)]] r sg_own [OF y1(2)] show ?case by auto
qed simp

lemma own_run_ends: "serving_ok y \<Longrightarrow> \<exists>n y'. (own_step ^^ n) y y' \<and> (\<nexists>y''. own_step y' y'')"
proof (induction y rule: measure_induct_rule [of work])
  case (less y)
  show ?case
  proof (cases "\<exists>y1. own_step y y1")
    case True
    then obtain y1 where y1: "own_step y y1" by blast
    from less.IH [OF own_step_work [OF y1 less.prems] own_step_ok [OF y1 less.prems]] y1 show ?thesis
      by (meson relpowp_Suc_I2)
  qed (metis relpowp_0_I)
qed

text \<open>Nothing is left that could start or that still runs.\<close>

definition all_ended :: "'v serving \<Rightarrow> bool" where
  "all_ended y \<longleftrightarrow>
     sg_loops y = {} \<and> sg_got y = {} \<and> sg_accepted y = 0 \<and> sg_running y = {} \<and> sg_leaving y = 0 \<and> sg_tracked y = {#} \<and>
     sg_jobs y = {#} \<and> sv_conns (sg_server y) = []"

lemma wg_zero_all_ended:
  assumes "serving_ok y" "sv_wg (sg_server y) = 0"
  shows "all_ended y"
proof -
  have "goroutines y = 0" using assms by (simp add: serving_ok_def)
  then have e: "sg_loops y = {}" "sg_accepted y = 0" "sg_running y = {}" "sg_leaving y = 0" "sg_jobs y = {#}"
    using serving_ok_finite [OF assms(1)] by (simp_all add: goroutines_def)
  then have "sg_got y = {}" "sg_tracked y = {#}" "\<And>i. map_of (sv_conns (sg_server y)) i = None"
    using assms(1) by (auto simp: serving_ok_def)
  moreover from this have "sv_conns (sg_server y) = []" by (simp add: map_of_eq_empty_iff [symmetric] fun_eq_iff)
  ultimately show ?thesis using e by (simp add: all_ended_def)
qed


definition sampleOptions :: "bytes Options" where
  "sampleOptions =
     \<lparr>o_Codec = Some sampleCodec, o_Compression = None, o_MaxFrameSize = 0, o_Auth = noAuth, o_WriteTimeout = 0,
      o_Backpressure = cf_backpressure sampleConfig, o_StreamOptions = \<lparr>RecvBuffer = 2, RecvBytes = 8\<rparr>,
      o_UnaryInterceptor = None, o_NotifyInterceptor = None, o_StreamInterceptor = None\<rparr>"


end
