(* ===== verification/Api.thy ===== *)
theory Api
  imports Peers Singleflight Serving
begin

text \<open>
  The methods a program calls: the variants of calls and notifications with a timeout or without a context on
  \<^verbatim>\<open>Client\<close>, \<^verbatim>\<open>Conn\<close>, \<^verbatim>\<open>Peer\<close>, \<^verbatim>\<open>PeerClient\<close> and \<^verbatim>\<open>PeerEndpoint\<close> (\<^verbatim>\<open>client.go\<close>, \<^verbatim>\<open>server.go\<close>, \<^verbatim>\<open>peer.go\<close>), the typed
  functions, the constructors of clients, the accessors of a connection, registration, and the typed streams over the
  interface \<^verbatim>\<open>streamTarget\<close> (\<^verbatim>\<open>stream.go\<close>). A call is cut at its wait, as in \<open>Client_Conn\<close>; its end is the same
  for all variants. A timeout ends the wait of the call and reaches the handler of the other side.
\<close>

subsection \<open>Timeouts\<close>

text \<open>\<^verbatim>\<open>context.WithTimeout(context.Background(), timeout)\<close> at the time \<open>now\<close>, both in nanoseconds.\<close>

definition WithTimeout :: "int \<Rightarrow> int \<Rightarrow> ctx" where
  "WithTimeout now timeout = backgroundContext\<lparr>ctx_deadline := Some (now + timeout)\<rparr>"

text \<open>What the methods with a timeout have in common: \<open>plain\<close> is the method without a context, \<open>withContext\<close> the one
  with a context.\<close>

definition with_timeout :: "'r \<Rightarrow> (ctx option \<Rightarrow> 'r) \<Rightarrow> int \<Rightarrow> int \<Rightarrow> 'r" where
  "with_timeout plain withContext now timeout =
     (if timeout \<le> 0 then plain else withContext (Some (WithTimeout now timeout)))"

subsection \<open>Client\<close>

definition Client_Call_begin where
  "Client_Call_begin cfg = Client_CallContext_begin cfg (Some backgroundContext)"

definition Client_CallWithTimeout_begin where
  "Client_CallWithTimeout_begin cfg function req resp now timeout ch =
     with_timeout (Client_Call_begin cfg function req resp ch)
       (\<lambda>ctx. Client_CallContext_begin cfg ctx function req resp ch) now timeout"

definition Client_callContextOnConnection_begin where
  "Client_callContextOnConnection_begin cfg ctx conn generation function req resp ch c =
     (case validateResponseTarget resp of
        Some e \<Rightarrow> (Inl e, c, [])
      | None \<Rightarrow> Client_sendRequestToConnection cfg (Some (normalizeContext ctx)) (Some conn) generation function req (SyncPending ch) c)"

definition Client_callContextOnConnection_end where
  "Client_callContextOnConnection_end cfg conn generation requestID w c =
     (case Client_callFrameOnConnection_end cfg conn generation requestID w c of
        (Inl e, c, evs) \<Rightarrow> (Inl e, c, evs)
      | (Inr frame, c, evs) \<Rightarrow> (decodeResponse (reg_codec cfg) frame, c, evs))"

definition Client_AsyncCall where
  "Client_AsyncCall cfg = Client_AsyncCallContext cfg (Some backgroundContext)"

definition Client_AsyncCallWithTimeout where
  "Client_AsyncCallWithTimeout cfg function req handler correlationID now timeout =
     with_timeout (Client_AsyncCall cfg function req handler correlationID)
       (\<lambda>ctx. Client_AsyncCallContext cfg ctx function req handler correlationID) now timeout"

text \<open>The error of a send whose request identifier is not used.\<close>

definition drop_id :: "u64 res \<times> 'c \<times> event list \<Rightarrow> gerror option \<times> 'c \<times> event list" where
  "drop_id r = (case r of (Inl e, c, evs) \<Rightarrow> (Some e, c, evs) | (Inr _, c, evs) \<Rightarrow> (None, c, evs))"

definition Client_NotifyContext where
  "Client_NotifyContext cfg ctx function req c =
     (case Client_sendNotify cfg ctx function req c of Blocked \<Rightarrow> Blocked | Return r \<Rightarrow> Return (drop_id r))"

definition Client_Notify where
  "Client_Notify cfg = Client_NotifyContext cfg (Some backgroundContext)"

definition Client_NotifyWithTimeout where
  "Client_NotifyWithTimeout cfg function req now timeout =
     with_timeout (Client_Notify cfg function req) (\<lambda>ctx. Client_NotifyContext cfg ctx function req) now timeout"

definition Client_notifyContextOnConnection where
  "Client_notifyContextOnConnection cfg ctx conn generation function req c =
     drop_id (Client_sendNotifyToConnection cfg ctx conn generation function req c)"

text \<open>The generic functions take a client that may be nil; the result is decoded by the end of the call.\<close>

definition Call_begin ::
  "('v, 'c) Config_scheme \<Rightarrow> ctx option \<Rightarrow> string \<Rightarrow> 'v \<Rightarrow> nat \<Rightarrow> 'v Client option \<Rightarrow>
   (u64 res \<times> 'v Client option \<times> event list) outcome" where
  "Call_begin cfg ctx function req ch co =
     (case co of
        None \<Rightarrow> Return (Inl (Sentinel ErrClosed), None, [])
      | Some c \<Rightarrow>
          (case Client_CallContext_begin cfg ctx function req TargetPointer ch c of
             Blocked \<Rightarrow> Blocked
           | Return (r, c, evs) \<Rightarrow> Return (r, Some c, evs)))"

definition Function_begin where
  "Function_begin cfg function ctx req = Call_begin cfg ctx function req"

definition Notify ::
  "('v, 'c) Config_scheme \<Rightarrow> ctx option \<Rightarrow> string \<Rightarrow> 'v \<Rightarrow> 'v Client option \<Rightarrow>
   (gerror option \<times> 'v Client option \<times> event list) outcome" where
  "Notify cfg ctx function req co =
     (case co of
        None \<Rightarrow> Return (Some (Sentinel ErrClosed), None, [])
      | Some c \<Rightarrow>
          (case Client_NotifyContext cfg ctx function req c of
             Blocked \<Rightarrow> Blocked
           | Return (r, c, evs) \<Rightarrow> Return (r, Some c, evs)))"

definition Notification where
  "Notification cfg function ctx req = Notify cfg ctx function req"

text \<open>\<^verbatim>\<open>CallSingleflight\<close> (no timeout) and \<^verbatim>\<open>CallSingleflightWithTimeout\<close>: the context with which the caller leads, in
  \<^verbatim>\<open>callFrameContext\<close>, or waits, in \<open>CallSingleflight_joined\<close>.\<close>

definition CallSingleflight_context :: "int \<Rightarrow> int option \<Rightarrow> ctx" where
  "CallSingleflight_context now timeout =
     (case timeout of
        None \<Rightarrow> backgroundContext
      | Some timeout \<Rightarrow> with_timeout backgroundContext normalizeContext now timeout)"

definition Conn_CallSingleflight_context where "Conn_CallSingleflight_context = CallSingleflight_context"

subsection \<open>Making clients\<close>

text \<open>All options of a client. \<open>o_Timing\<close> holds the durations and the jitter; the write timeout, which configures the
  protocol too, is \<open>o_WriteTimeout\<close>.\<close>

record 'v ClientOptions = "'v Options" +
  o_ClientName :: string
  o_Timing :: timing

record 'v new_client =
  nc_network :: string
  nc_address :: string
  nc_name :: string
  nc_timing :: timing
  nc_config :: "'v Config"
  nc_client :: "'v Client"

definition zeroOptions :: "'v ClientOptions" where
  "zeroOptions =
     \<lparr>o_Codec = None, o_Compression = None, o_MaxFrameSize = 0, o_Auth = noAuth, o_WriteTimeout = 0,
      o_Backpressure = \<lparr>MaxPendingCalls = 0, MaxActiveStreams = 0, MaxConcurrentWrites = 0, OnBackpressure = False\<rparr>,
      o_StreamOptions = \<lparr>RecvBuffer = 0, RecvBytes = 0\<rparr>,
      o_UnaryInterceptor = None, o_NotifyInterceptor = None, o_StreamInterceptor = None, o_ClientName = '''',
      o_Timing = \<lparr>t_handshakeTimeout = 0, t_dialTimeout = 0, t_writeTimeout = 0, t_reconnectMinDelay = 0,
        t_reconnectMaxDelay = 0, t_reconnectJitter = Finite 0, t_pingInterval = 0, t_pingTimeout = 0\<rparr>\<rparr>"

text \<open>\<open>opts\<close> is the variadic argument, of which the first is used; the name is set after it, whatever it says.\<close>

definition named_options :: "string \<Rightarrow> 'v ClientOptions list \<Rightarrow> 'v ClientOptions" where
  "named_options clientName opts =
     (case opts of [] \<Rightarrow> zeroOptions | options # _ \<Rightarrow> options)\<lparr>o_ClientName := clientName\<rparr>"

definition NewClient_for ::
  "msgpcode \<Rightarrow> 'v Codec \<Rightarrow> (nat \<Rightarrow> string \<times> string) \<Rightarrow> string \<Rightarrow> string \<Rightarrow> 'v ClientOptions \<Rightarrow> 'v new_client" where
  "NewClient_for mc lib addrs network address options =
     (case NewClient mc lib (Options.truncate options) addrs of
        (cfg, c) \<Rightarrow>
          \<lparr>nc_network = network, nc_address = address, nc_name = o_ClientName options,
           nc_timing = NewClient_timing ((o_Timing options)\<lparr>t_writeTimeout := o_WriteTimeout options\<rparr>),
           nc_config = cfg, nc_client = c\<rparr>)"

definition newClientWithOptions where
  "newClientWithOptions mc lib addrs network address clientName opts =
     NewClient_for mc lib addrs network address (named_options clientName opts)"

definition NewTCPClient where "NewTCPClient mc lib addrs = newClientWithOptions mc lib addrs ''tcp''"
definition NewUnixClient where "NewUnixClient mc lib addrs = newClientWithOptions mc lib addrs ''unix''"
definition NewUnixPacketClient where "NewUnixPacketClient mc lib addrs = newClientWithOptions mc lib addrs ''unixpacket''"

text \<open>\<^verbatim>\<open>Dial\<close>: what the dialer gives for its network and address and how the waits end is \<open>ts\<close>, as in \<open>Connect\<close>; a
  failure returns no client.\<close>

definition Dial ::
  "msgpcode \<Rightarrow> 'v Codec \<Rightarrow> (bytes \<Rightarrow> bytes \<Rightarrow> bytes) \<Rightarrow> (nat \<Rightarrow> string \<times> string) \<Rightarrow>
   (string \<Rightarrow> string \<Rightarrow> (attempt \<times> wait) list) \<Rightarrow> string \<Rightarrow> string \<Rightarrow> 'v ClientOptions \<Rightarrow>
   ('v new_client res \<times> event list) option" where
  "Dial mc lib hmac addrs ts network address opts =
     (let n = NewClient_for mc lib addrs network address opts;
          env = \<lparr>ce_hmac = hmac, ce_name = nc_name n, ce_timing = nc_timing n\<rparr> in
      case Connect (nc_config n) env (ts network address) (Some (nc_client n)) of
        None \<Rightarrow> None
      | Some (_, Some err, _, evs) \<Rightarrow> Some (Inl err, evs)
      | Some (_, None, c, evs) \<Rightarrow> Some (Inr (n\<lparr>nc_client := the c\<rparr>), evs))"

definition dialWithOptions where
  "dialWithOptions mc lib hmac addrs ts network address clientName opts =
     Dial mc lib hmac addrs ts network address (named_options clientName opts)"

definition TCPDial where "TCPDial mc lib hmac addrs ts = dialWithOptions mc lib hmac addrs ts ''tcp''"
definition UnixDial where "UnixDial mc lib hmac addrs ts = dialWithOptions mc lib hmac addrs ts ''unix''"
definition UnixPacketDial where "UnixPacketDial mc lib hmac addrs ts = dialWithOptions mc lib hmac addrs ts ''unixpacket''"

subsection \<open>Accepted connections\<close>

text \<open>The accessors of a connection that may be nil.\<close>

definition Conn_ClientName :: "'v Conn option \<Rightarrow> string" where
  "Conn_ClientName c = (case c of None \<Rightarrow> '''' | Some c \<Rightarrow> c_clientName c)"

definition Conn_RemoteAddr :: "'v Conn option \<Rightarrow> string option" where
  "Conn_RemoteAddr c = map_option c_remoteAddr c"

definition Conn_LocalAddr :: "'v Conn option \<Rightarrow> string option" where
  "Conn_LocalAddr c = map_option c_localAddr c"

definition Conn_ConnectionGeneration :: "'v Conn option \<Rightarrow> u64" where
  "Conn_ConnectionGeneration c = (case c of None \<Rightarrow> 0 | Some c \<Rightarrow> c_generation c)"

text \<open>\<^verbatim>\<open>Done\<close>: the channel, as whether it is closed.\<close>

definition Conn_Done :: "'v Conn option \<Rightarrow> bool option" where
  "Conn_Done c = map_option e_closed c"

definition Conn_Close :: "'v Conn \<Rightarrow> gerror option \<times> 'v Conn \<times> event list" where
  "Conn_Close c = (None, Conn_close c)"

definition Conn_Call_begin where
  "Conn_Call_begin server = Conn_CallContext_begin server (Some backgroundContext)"

definition Conn_CallWithTimeout_begin where
  "Conn_CallWithTimeout_begin server function req resp now timeout ch =
     with_timeout (Conn_Call_begin server function req resp ch)
       (\<lambda>ctx. Conn_CallContext_begin server ctx function req resp ch) now timeout"

definition Conn_AsyncCall where
  "Conn_AsyncCall server = Conn_AsyncCallContext server (Some backgroundContext)"

definition Conn_AsyncCallWithTimeout where
  "Conn_AsyncCallWithTimeout server function req handler correlationID now timeout =
     with_timeout (Conn_AsyncCall server function req handler correlationID)
       (\<lambda>ctx. Conn_AsyncCallContext server ctx function req handler correlationID) now timeout"

definition Conn_Notify where
  "Conn_Notify server = Conn_NotifyContext server (Some backgroundContext)"

definition Conn_NotifyWithTimeout where
  "Conn_NotifyWithTimeout server function req now timeout =
     with_timeout (Conn_Notify server function req) (\<lambda>ctx. Conn_NotifyContext server ctx function req) now timeout"

subsection \<open>The message context\<close>

text \<open>A handler calls back over the connection that delivered its message, \<open>c\<close>; \<open>call\<close> is the method of that connection.\<close>

definition Context_RemoteAddr :: "Context option \<Rightarrow> string option" where
  "Context_RemoteAddr c = map_option rc_remoteAddr c"

definition Context_LocalAddr :: "Context option \<Rightarrow> string option" where
  "Context_LocalAddr c = map_option rc_localAddr c"

definition Context_Conn :: "Context option \<Rightarrow> bool" where
  "Context_Conn c = (case c of None \<Rightarrow> False | Some c \<Rightarrow> rc_conn c)"

definition over_conn ::
  "('v Conn \<Rightarrow> 'r res \<times> 'v Conn \<times> event list) \<Rightarrow> Context option \<Rightarrow> 'v Conn \<Rightarrow> 'r res \<times> 'v Conn \<times> event list" where
  "over_conn call rpc c = (if Context_Conn rpc then call c else (Inl (Sentinel ErrUnavailable), c, []))"

definition Context_Call_begin where
  "Context_Call_begin server function req resp ch = over_conn (Conn_Call_begin server function req resp ch)"

definition Context_CallWithTimeout_begin where
  "Context_CallWithTimeout_begin server function req resp now timeout ch =
     over_conn (Conn_CallWithTimeout_begin server function req resp now timeout ch)"

definition Context_CallContext_begin where
  "Context_CallContext_begin server ctx function req resp ch = over_conn (Conn_CallContext_begin server ctx function req resp ch)"

definition over_conn_notify ::
  "('v Conn \<Rightarrow> gerror option \<times> 'v Conn \<times> event list) \<Rightarrow> Context option \<Rightarrow> 'v Conn \<Rightarrow> gerror option \<times> 'v Conn \<times> event list" where
  "over_conn_notify send rpc c = (if Context_Conn rpc then send c else (Some (Sentinel ErrUnavailable), c, []))"

definition Context_Notify where
  "Context_Notify server function req = over_conn_notify (Conn_Notify server function req)"

definition Context_NotifyWithTimeout where
  "Context_NotifyWithTimeout server function req now timeout = over_conn_notify (Conn_NotifyWithTimeout server function req now timeout)"

definition Context_NotifyContext where
  "Context_NotifyContext server ctx function req = over_conn_notify (Conn_NotifyContext server ctx function req)"

subsection \<open>Peers\<close>

definition Peer_Call_begin where
  "Peer_Call_begin ccfg scfg function req resp ch stopped =
     Peer_CallContext_begin ccfg scfg (Some backgroundContext) function req resp ch stopped (Some backgroundContext)"

definition Peer_CallWithTimeout_begin where
  "Peer_CallWithTimeout_begin ccfg scfg function req resp now timeout ch stopped =
     with_timeout (Peer_Call_begin ccfg scfg function req resp ch stopped)
       (\<lambda>ctx. Peer_CallContext_begin ccfg scfg ctx function req resp ch stopped ctx) now timeout"

definition Peer_Notify where
  "Peer_Notify ccfg scfg function req stopped =
     Peer_NotifyContext ccfg scfg (Some backgroundContext) function req stopped (Some backgroundContext)"

definition PeerClient_Call_begin where
  "PeerClient_Call_begin ccfg scfg function req resp ch stopped =
     PeerClient_CallContext_begin ccfg scfg (Some backgroundContext) function req resp ch stopped"

definition PeerClient_Notify where
  "PeerClient_Notify ccfg scfg function req stopped =
     PeerClient_NotifyContext ccfg scfg (Some backgroundContext) function req stopped"

definition PeerClient_Status :: "'v world \<Rightarrow> PeerClient \<Rightarrow> 'o PeerManager \<Rightarrow> PeerStatus" where
  "PeerClient_Status w c m = Peer_Status w (the_peer (pc_peer c) m)"

definition PeerEndpoint_ConnectionGeneration :: "PeerEndpoint option \<Rightarrow> u64" where
  "PeerEndpoint_ConnectionGeneration e = (case e of None \<Rightarrow> 0 | Some e \<Rightarrow> pe_generation e)"

definition PeerEndpoint_Call_begin where
  "PeerEndpoint_Call_begin ccfg scfg = PeerEndpoint_CallContext_begin ccfg scfg (Some backgroundContext)"

definition PeerEndpoint_CallWithTimeout_begin where
  "PeerEndpoint_CallWithTimeout_begin ccfg scfg function req resp now timeout ch =
     with_timeout (PeerEndpoint_Call_begin ccfg scfg function req resp ch)
       (\<lambda>ctx. PeerEndpoint_CallContext_begin ccfg scfg ctx function req resp ch) now timeout"

definition PeerEndpoint_Notify where
  "PeerEndpoint_Notify ccfg scfg = PeerEndpoint_NotifyContext ccfg scfg (Some backgroundContext)"

definition PeerEndpoint_NotifyWithTimeout where
  "PeerEndpoint_NotifyWithTimeout ccfg scfg function req now timeout =
     with_timeout (PeerEndpoint_Notify ccfg scfg function req)
       (\<lambda>ctx. PeerEndpoint_NotifyContext ccfg scfg ctx function req) now timeout"

subsection \<open>Typed streams\<close>

text \<open>The interface \<^verbatim>\<open>streamTarget\<close> on a state, and the types that implement it. Opening a client stream takes the
  number of its response channel.\<close>

record ('v, 's) streamTarget =
  openServerStream :: "ctx option \<Rightarrow> string \<Rightarrow> 'v \<Rightarrow> StreamOptions \<Rightarrow> 's \<Rightarrow> (nat res \<times> 's \<times> event list) outcome"
  openClientStream :: "ctx option \<Rightarrow> string \<Rightarrow> StreamOptions \<Rightarrow> nat \<Rightarrow> 's \<Rightarrow> (nat res \<times> 's \<times> event list) outcome"
  openBidiStream :: "ctx option \<Rightarrow> string \<Rightarrow> StreamOptions \<Rightarrow> 's \<Rightarrow> (nat res \<times> 's \<times> event list) outcome"

definition client_target :: "('v, 'c) Config_scheme \<Rightarrow> ('v, 'v Client) streamTarget" where
  "client_target cfg =
     \<lparr>openServerStream = Client_openServerStream cfg, openClientStream = Client_openClientStream cfg,
      openBidiStream = Client_openBidiStream cfg\<rparr>"

definition conn_target :: "('v, 'c) Config_scheme \<Rightarrow> ('v, 'v Conn) streamTarget" where
  "conn_target server =
     \<lparr>openServerStream = (\<lambda>ctx function req opts c. Return (Conn_openServerStream server ctx function req opts c)),
      openClientStream = (\<lambda>ctx function opts ch c. Return (Conn_openClientStream server ctx function opts ch c)),
      openBidiStream = (\<lambda>ctx function opts c. Return (Conn_openBidiStream server ctx function opts c))\<rparr>"

definition peer_target :: "('v, 'c) Config_scheme \<Rightarrow> ('v, 'd) Config_scheme \<Rightarrow> bool \<Rightarrow> 'o Peer \<Rightarrow> ('v, 'v world) streamTarget" where
  "peer_target ccfg scfg stopped p =
     \<lparr>openServerStream = (\<lambda>ctx function req opts. Peer_openServerStream ccfg scfg ctx function req opts stopped ctx p),
      openClientStream = (\<lambda>ctx function opts ch. Peer_openClientStream ccfg scfg ctx function opts ch stopped ctx p),
      openBidiStream = (\<lambda>ctx function opts. Peer_openBidiStream ccfg scfg ctx function opts stopped ctx p)\<rparr>"

definition peerClient_target ::
  "('v, 'c) Config_scheme \<Rightarrow> ('v, 'd) Config_scheme \<Rightarrow> bool \<Rightarrow> PeerClient \<Rightarrow> 'o PeerManager \<Rightarrow> ('v, 'v world) streamTarget" where
  "peerClient_target ccfg scfg stopped c m =
     \<lparr>openServerStream = (\<lambda>ctx function req opts. PeerClient_openServerStream ccfg scfg ctx function req opts stopped c m),
      openClientStream = (\<lambda>ctx function opts ch. PeerClient_openClientStream ccfg scfg ctx function opts ch stopped c m),
      openBidiStream = (\<lambda>ctx function opts. PeerClient_openBidiStream ccfg scfg ctx function opts stopped c m)\<rparr>"

text \<open>The argument \<^verbatim>\<open>target any\<close>: nil, a value that does not implement the interface, or one that does.\<close>

datatype 't any_target = NilTarget | OtherTarget | StreamTarget 't

definition asStreamTarget :: "'t any_target \<Rightarrow> 't res" where
  "asStreamTarget target =
     (case target of
        NilTarget \<Rightarrow> Inl (Sentinel ErrClosed)
      | OtherTarget \<Rightarrow> Inl (Sentinel ErrInvalidHandler)
      | StreamTarget t \<Rightarrow> Inr t)"

definition zeroStreamOptions :: StreamOptions where "zeroStreamOptions = \<lparr>RecvBuffer = 0, RecvBytes = 0\<rparr>"

text \<open>Opening: the stream of the typed handle is a reference into the table of streams; a client stream has the
  response channel and the codec of its target as well.\<close>

definition ServerStreamWithOptions where
  "ServerStreamWithOptions ctx target function req opts s =
     (case asStreamTarget target of
        Inl err \<Rightarrow> Return (Inl err, s, [])
      | Inr endpoint \<Rightarrow> openServerStream endpoint ctx function req opts s)"

definition ServerStream where
  "ServerStream ctx target function req = ServerStreamWithOptions ctx target function req zeroStreamOptions"

definition ClientStreamWithOptions where
  "ClientStreamWithOptions ctx target function opts ch s =
     (case asStreamTarget target of
        Inl err \<Rightarrow> Return (Inl err, s, [])
      | Inr endpoint \<Rightarrow> openClientStream endpoint ctx function opts ch s)"

definition ClientStream where
  "ClientStream ctx target function = ClientStreamWithOptions ctx target function zeroStreamOptions"

definition BidiStreamWithOptions where
  "BidiStreamWithOptions ctx target function opts s =
     (case asStreamTarget target of
        Inl err \<Rightarrow> Return (Inl err, s, [])
      | Inr endpoint \<Rightarrow> openBidiStream endpoint ctx function opts s)"

definition BidiStream where
  "BidiStream ctx target function = BidiStreamWithOptions ctx target function zeroStreamOptions"

text \<open>The methods of the handles. A nil handle, and one without a stream, is \<open>None\<close>.\<close>

definition ClientStreamHandle_Send ::
  "writer \<Rightarrow> 'v \<Rightarrow> 'v ClientStreamHandle option \<Rightarrow>
   (gerror option outcome \<times> 'v ClientStreamHandle option \<times> effect list) option" where
  "ClientStreamHandle_Send wr item ho =
     (case ho of
        None \<Rightarrow> Some (Return (Some (Sentinel ErrClosed)), None, [])
      | Some h \<Rightarrow> map_option (\<lambda>(x, s, es). (x, Some (h\<lparr>ch_stream := s\<rparr>), es)) (Send wr item (ch_stream h)))"

text \<open>\<^verbatim>\<open>Cancel\<close> of a client stream first forgets the pending response (\<^verbatim>\<open>removePending\<close> of its endpoint \<open>e\<close>).\<close>

definition ClientStreamHandle_Cancel ::
  "writer \<Rightarrow> 'v ClientStreamHandle option \<Rightarrow> ('v, 'm) Endpoint_scheme \<Rightarrow>
   gerror option \<times> 'v ClientStreamHandle option \<times> ('v, 'm) Endpoint_scheme \<times> effect list" where
  "ClientStreamHandle_Cancel wr ho e =
     (case ho of
        None \<Rightarrow> (Some (Sentinel ErrClosed), None, e, [])
      | Some h \<Rightarrow>
          (case Cancel wr (ch_stream h) of
             (x, s, es) \<Rightarrow> (x, Some (h\<lparr>ch_stream := s\<rparr>), removePending (s_requestID (ch_stream h)) e, es)))"

definition BidiStreamHandle_Send where "BidiStreamHandle_Send = StreamWriter_Send"
definition BidiStreamHandle_Recv where "BidiStreamHandle_Recv = StreamReader_Recv"
definition BidiStreamHandle_CloseSend where "BidiStreamHandle_CloseSend = StreamWriter_Close"
definition BidiStreamHandle_Cancel where "BidiStreamHandle_Cancel = handle_Cancel"

definition Stream_RequestID :: "'v Stream option \<Rightarrow> u64" where
  "Stream_RequestID s = (case s of None \<Rightarrow> 0 | Some s \<Rightarrow> s_requestID s)"

definition Stream_Function :: "'v Stream option \<Rightarrow> string" where
  "Stream_Function s = (case s of None \<Rightarrow> '''' | Some s \<Rightarrow> s_function s)"

subsection \<open>Registration and broadcast\<close>

text \<open>The register methods of a client that may be nil; its registries are part of its configuration.\<close>

definition register_on ::
  "('h option \<Rightarrow> 'v Config \<Rightarrow> gerror option \<times> 'v Config) \<Rightarrow> 'h option \<Rightarrow> 'v Config option \<Rightarrow> gerror option \<times> 'v Config option" where
  "register_on reg h co =
     (case co of
        None \<Rightarrow> (Some (Sentinel ErrClosed), None)
      | Some cfg \<Rightarrow> (case reg h cfg of (err, cfg) \<Rightarrow> (err, Some cfg)))"

definition Client_registerHandler where
  "Client_registerHandler function = register_on (registerHandler function)"

definition Client_registerNotifyHandler where
  "Client_registerNotifyHandler function = register_on (registerNotifyHandler function)"

definition Client_registerServerStreamHandler where
  "Client_registerServerStreamHandler function = register_on (registerServerStreamHandler function)"

definition Client_registerClientStreamHandler where
  "Client_registerClientStreamHandler function = register_on (registerClientStreamHandler function)"

definition Client_registerBidiStreamHandler where
  "Client_registerBidiStreamHandler function = register_on (registerBidiStreamHandler function)"

definition MustRegister where "MustRegister target function fn = must (Register target function fn)"
definition MustRegisterNotify where "MustRegisterNotify target function fn = must (RegisterNotify target function fn)"
definition MustRegisterServerStream where
  "MustRegisterServerStream target function fn = must (RegisterServerStream target function fn)"
definition MustRegisterClientStream where
  "MustRegisterClientStream target function fn = must (RegisterClientStream target function fn)"
definition MustRegisterBidiStream where
  "MustRegisterBidiStream target function fn = must (RegisterBidiStream target function fn)"

text \<open>A registration that does not panic is the one the dispatcher finds, and no other function is touched.\<close>

lemma MustRegister_found:
  assumes "MustRegister (Registrar r) f (Some fn) = Some target"
  obtains r' where "target = Registrar r'" "handlers r f = None" "handlers r' = (handlers r)(f \<mapsto> wrapHandler (reg_codec r) fn)"
  using assms
  by (auto simp: MustRegister_def must_def Register_def register_target_def registerHandler_def register_in_def
      split: if_splits option.splits prod.splits)

lemma MustRegister_panics:
  "MustRegister target f fn = None \<longleftrightarrow>
     (case target of Registrar r \<Rightarrow> f = '''' \<or> fn = None \<or> handlers r f \<noteq> None | _ \<Rightarrow> True)"
  by (auto simp: MustRegister_def must_def Register_def register_target_def registerHandler_def register_in_def
      split: if_splits option.splits prod.splits registrar.splits)

definition NotifyAll where "NotifyAll = NotifyAllContext (Some backgroundContext)"

definition NotifyAllWithTimeout where
  "NotifyAllWithTimeout function req now timeout =
     with_timeout (NotifyAll function req) (\<lambda>ctx. NotifyAllContext ctx function req) now timeout"

subsection \<open>Opening streams keeps the invariants\<close>

text \<open>The contract of \<^verbatim>\<open>streamTarget\<close>: opening a stream keeps the invariant \<open>ok\<close> of the state it works on.\<close>

locale stream_service =
  fixes target :: "('v, 's) streamTarget" and ok :: "'s \<Rightarrow> bool"
  assumes server_kept: "openServerStream target cx f req opts s = Return (r, s', evs) \<Longrightarrow> ok s \<Longrightarrow> ok s'"
    and client_kept: "openClientStream target cx f opts ch s = Return (r, s', evs) \<Longrightarrow> ok s \<Longrightarrow> ok s'"
    and bidi_kept: "openBidiStream target cx f opts s = Return (r, s', evs) \<Longrightarrow> ok s \<Longrightarrow> ok s'"
begin

lemma typed_streams_kept:
  assumes "t = StreamTarget target \<or> t = NilTarget \<or> t = OtherTarget" "ok s"
  shows "ServerStream cx t f req s = Return (r, s', evs) \<Longrightarrow> ok s'"
    and "ClientStream cx t f ch s = Return (r, s', evs) \<Longrightarrow> ok s'"
    and "BidiStream cx t f s = Return (r, s', evs) \<Longrightarrow> ok s'"
  using assms
  by (auto simp: ServerStream_def ServerStreamWithOptions_def ClientStream_def ClientStreamWithOptions_def BidiStream_def
      BidiStreamWithOptions_def asStreamTarget_def intro: server_kept client_kept bidi_kept)

end

definition client_state_ok :: "('v, 'c) Config_scheme \<Rightarrow> 'v Client \<Rightarrow> bool" where
  "client_state_ok cfg c \<longleftrightarrow> endpoint_ok (cf_backpressure cfg) c \<and> client_ok c"

definition world_ok :: "('v, 'c) Config_scheme \<Rightarrow> ('v, 'd) Config_scheme \<Rightarrow> 'v world \<Rightarrow> bool" where
  "world_ok ccfg scfg w \<longleftrightarrow>
     (\<forall>k. client_state_ok ccfg (w_clients w k)) \<and> (\<forall>g. endpoint_ok (cf_backpressure scfg) (w_conns w g))"

interpretation conn_streams: stream_service "conn_target server" "endpoint_ok (cf_backpressure server)"
  for server :: "('v, 'c) Config_scheme"
  by unfold_locales
    (auto simp: conn_target_def kept_def dest: Conn_openServerStream_kept Conn_openClientStream_kept Conn_openBidiStream_kept)

interpretation client_streams: stream_service "client_target cfg" "client_state_ok cfg"
  for cfg :: "('v, 'c) Config_scheme"
  by unfold_locales
    (auto simp: client_target_def client_state_ok_def kept_def dest: Client_sendRequest_kept(3) Client_quiet_kept(3,4))

lemma route_world_ok:
  assumes "route onClient onConn stopped cx p w = Return (r, w', evs)" "world_ok ccfg scfg w"
    and "\<And>c r c' evs. onClient c = Return (r, c', evs) \<Longrightarrow> client_state_ok ccfg c \<Longrightarrow> client_state_ok ccfg c'"
    and "\<And>c r c' evs. onConn c = (r, c', evs) \<Longrightarrow> endpoint_ok (cf_backpressure scfg) c \<Longrightarrow> endpoint_ok (cf_backpressure scfg) c'"
  shows "world_ok ccfg scfg w'"
  using assms by (auto simp: route_def world_ok_def split: outcome.splits sum.splits prod.splits)

interpretation peer_streams: stream_service "peer_target ccfg scfg stopped p" "world_ok ccfg scfg"
  for ccfg :: "('v, 'c) Config_scheme" and scfg :: "('v, 'd) Config_scheme" and stopped and p :: "'o Peer"
proof unfold_locales
  note c = client_streams.server_kept client_streams.client_kept client_streams.bidi_kept
  note d = conn_streams.server_kept conn_streams.client_kept conn_streams.bidi_kept
  show "world_ok ccfg scfg w'" if "openServerStream (peer_target ccfg scfg stopped p) cx f req opts w = Return (r, w', evs)"
    "world_ok ccfg scfg w" for cx f req opts w r w' evs
    using that(1) unfolding peer_target_def Peer_openServerStream_def streamTarget.simps
    by (rule route_world_ok [OF _ that(2)])
      (use c(1) d(1) in \<open>auto simp: client_target_def conn_target_def\<close>)
  show "world_ok ccfg scfg w'" if "openClientStream (peer_target ccfg scfg stopped p) cx f opts ch w = Return (r, w', evs)"
    "world_ok ccfg scfg w" for cx f opts ch w r w' evs
    using that(1) unfolding peer_target_def Peer_openClientStream_def streamTarget.simps
    by (rule route_world_ok [OF _ that(2)])
      (use c(2) d(2) in \<open>auto simp: client_target_def conn_target_def\<close>)
  show "world_ok ccfg scfg w'" if "openBidiStream (peer_target ccfg scfg stopped p) cx f opts w = Return (r, w', evs)"
    "world_ok ccfg scfg w" for cx f opts w r w' evs
    using that(1) unfolding peer_target_def Peer_openBidiStream_def streamTarget.simps
    by (rule route_world_ok [OF _ that(2)])
      (use c(3) d(3) in \<open>auto simp: client_target_def conn_target_def\<close>)
qed

interpretation lease_streams: stream_service "peerClient_target ccfg scfg stopped c m" "world_ok ccfg scfg"
  for ccfg :: "('v, 'c) Config_scheme" and scfg :: "('v, 'd) Config_scheme" and stopped c and m :: "'o PeerManager"
  using peer_streams.server_kept peer_streams.client_kept peer_streams.bidi_kept
  by unfold_locales
    (auto simp: peerClient_target_def PeerClient_openServerStream_def PeerClient_openClientStream_def
      PeerClient_openBidiStream_def PeerClient_route_def peer_target_def split: option.splits)

subsection \<open>What the options make\<close>

definition config_ok :: "('v, 'c) Config_scheme \<Rightarrow> bool" where
  "config_ok cfg \<longleftrightarrow>
     0 < cf_maxFrameSize cfg \<and> cf_maxFrameSize cfg \<le> MaxUint32 \<and> 0 \<le> cf_writeTimeout cfg \<and>
     0 \<le> MaxPendingCalls (cf_backpressure cfg) \<and> 0 \<le> MaxActiveStreams (cf_backpressure cfg) \<and>
     0 \<le> MaxConcurrentWrites (cf_backpressure cfg) \<and>
     0 < RecvBuffer (cf_streamOptions cfg) \<and> 0 < RecvBytes (cf_streamOptions cfg) \<and>
     normalizeCompressor (cf_compressor cfg) = cf_compressor cfg"

definition timing_ok :: "timing \<Rightarrow> bool" where
  "timing_ok t \<longleftrightarrow>
     0 \<le> t_handshakeTimeout t \<and> 0 \<le> t_dialTimeout t \<and> 0 \<le> t_writeTimeout t \<and> 0 \<le> t_reconnectMinDelay t \<and>
     0 \<le> t_reconnectMaxDelay t \<and> 0 \<le> t_pingInterval t \<and> 0 \<le> t_pingTimeout t \<and>
     (case t_reconnectJitter t of Finite j \<Rightarrow> 0 \<le> j \<and> j \<le> 1 | x \<Rightarrow> x = NaN)"

lemmas default_durations =
  DefaultDialTimeout_def DefaultWriteTimeout_def DefaultReconnectMinDelay_def DefaultReconnectMaxDelay_def
  DefaultPingInterval_def DefaultPingTimeout_def DefaultHandshakeTimeout_def Second_def Millisecond_def

lemma normalizeReconnectJitter_range:
  "case normalizeReconnectJitter j of Finite j \<Rightarrow> 0 \<le> j \<and> j \<le> 1 | x \<Rightarrow> x = NaN"
  by (cases j) (auto simp: DefaultReconnectJitter_def)

lemma NewClient_timing_ok: "timing_ok (NewClient_timing t)"
  using normalizeReconnectJitter_range [of "t_reconnectJitter t"]
  by (simp add: timing_ok_def NewClient_timing_def normalizeDialTimeout_def normalizeWriteTimeout_def
      normalizeReconnectMinDelay_def normalizeReconnectMaxDelay_def normalizePingInterval_def normalizePingTimeout_def
      normalizeHandshakeTimeout_def default_durations)

lemma normalizeMaxFrameSize_range: "0 < normalizeMaxFrameSize n" "normalizeMaxFrameSize n \<le> MaxUint32"
  by (simp_all add: normalizeMaxFrameSize_def DefaultMaxFrameSize_def MaxUint32_def)

lemma normalizeStreamOptions_range: "0 < RecvBuffer (normalizeStreamOptions o')" "0 < RecvBytes (normalizeStreamOptions o')"
  by (simp_all add: normalizeStreamOptions_def streamRecvBuffer_def DefaultMaxFrameSize_def Let_def)

lemma normalizeBackpressureOptions_range:
  "0 \<le> MaxPendingCalls (normalizeBackpressureOptions b)" "0 \<le> MaxActiveStreams (normalizeBackpressureOptions b)"
  "0 \<le> MaxConcurrentWrites (normalizeBackpressureOptions b)"
  by (simp_all add: normalizeBackpressureOptions_def Let_def)

lemma normalizeWriteTimeout_range: "0 \<le> normalizeWriteTimeout t"
  by (simp add: normalizeWriteTimeout_def default_durations)

lemma normalizeCompressor_idem: "normalizeCompressor (normalizeCompressor z) = normalizeCompressor z"
  by (simp add: normalizeCompressor_def split: option.splits)

lemmas normalized_ranges =
  normalizeMaxFrameSize_range normalizeStreamOptions_range normalizeBackpressureOptions_range normalizeWriteTimeout_range
  normalizeCompressor_idem

lemma NewServer_config_ok: "config_ok (NewServer mc lib opts)"
  by (simp add: config_ok_def NewServer_def normalized_ranges)

lemma NewClient_config_ok: "config_ok (fst (NewClient mc lib opts addrs))"
  by (simp add: config_ok_def NewClient_def Let_def normalized_ranges)

lemma opened_stream_room:
  "recvCap (newStreamWithOptions mc lib cx i f codec (mergeStreamOptions base override)) > 0"
  using normalizeStreamOptions_range(1) [of "mergeStreamOptions base override"]
  by (simp add: newStreamWithOptions_def Let_def)

lemma opened_stream_bytes:
  assumes "RecvBytes base < 2 ^ 63" "RecvBytes override < 2 ^ 63"
  shows "recvByteLimit (newStreamWithOptions mc lib cx i f codec (mergeStreamOptions base override)) \<noteq> 0"
proof -
  let ?n = "RecvBytes (normalizeStreamOptions (mergeStreamOptions base override))"
  have n: "0 < ?n" "?n < 2 ^ 64"
    using assms normalizeStreamOptions_range(2) [of "mergeStreamOptions base override"]
    by (simp_all add: mergeStreamOptions_def normalizeStreamOptions_def Let_def DefaultMaxFrameSize_def)
  then have "uint (word_of_int ?n :: u64) = ?n" by (simp add: uint_word_of_int)
  with n(1) show ?thesis by (auto simp: newStreamWithOptions_def Let_def)
qed

text \<open>C40. Whatever the options are, what is built from them is well formed: the frame limit of a server and of a client is
  positive and fits the length field, no limit or duration is negative, the jitter is a fraction (or not a number), a
  compressor is named, and a stream opened with any options of its own has room for an item and for a byte.
  A client and a server with the same options use the same codec, compressor and frame limit. A frame limit in range is
  used as it is. The client starts unconnected, under the name that was given and not the one of the options, and is a
  valid state of the client machine, as the server is of the server machine.\<close>

theorem options_well_formed:
  fixes mc :: msgpcode and lib :: "'v Codec" and opts :: "'v ClientOptions" and addrs :: "nat \<Rightarrow> string \<times> string"
    and network address clientName :: string
  defines "server \<equiv> NewServer mc lib (Options.truncate opts)"
    and "n \<equiv> newClientWithOptions mc lib addrs network address clientName [opts]"
  shows "config_ok server \<and> config_ok (nc_config n) \<and> timing_ok (nc_timing n) \<and>
    nc_name n = clientName \<and> cl_conn (nc_client n) = None \<and> client_ok (nc_client n) \<and> endpoint_ok (cf_backpressure (nc_config n)) (nc_client n) \<and>
    serving_ok (new_serving server) \<and>
    reg_codec (nc_config n) = reg_codec server \<and> cf_compressor (nc_config n) = cf_compressor server \<and>
    cf_maxFrameSize (nc_config n) = cf_maxFrameSize server \<and>
    (0 < o_MaxFrameSize opts \<and> o_MaxFrameSize opts \<le> MaxUint32 \<longrightarrow> cf_maxFrameSize server = o_MaxFrameSize opts) \<and>
    recvCap (newStreamWithOptions mc lib cx i f codec (mergeStreamOptions (cf_streamOptions server) override)) > 0 \<and>
    (RecvBytes (o_StreamOptions opts) < 2 ^ 63 \<and> RecvBytes override < 2 ^ 63 \<longrightarrow>
      recvByteLimit (newStreamWithOptions mc lib cx i f codec (mergeStreamOptions (cf_streamOptions server) override)) \<noteq> 0)"
proof -
  let ?o = "named_options clientName [opts]"
  obtain cfg c where nc: "NewClient mc lib (Options.truncate ?o) addrs = (cfg, c)" by fastforce
  have n: "nc_config n = cfg" "nc_client n = c" "nc_name n = clientName" "timing_ok (nc_timing n)"
    by (simp_all add: n_def newClientWithOptions_def NewClient_for_def nc NewClient_timing_ok)
      (simp add: named_options_def)
  have cfg: "config_ok cfg" "c = newClientState cfg addrs" "reg_codec cfg = reg_codec server"
    "cf_compressor cfg = cf_compressor server" "cf_maxFrameSize cfg = cf_maxFrameSize server"
    using NewClient_config_ok [of mc lib "Options.truncate ?o" addrs] nc
    by (auto simp: NewClient_def Let_def server_def NewServer_def named_options_def Options.truncate_def)
  have "client_ok c" "endpoint_ok (cf_backpressure cfg) c" "cl_conn c = None" unfolding cfg(2)
    by (simp_all add: newClientState_ok) (simp add: newClientState_def)
  moreover have "cf_maxFrameSize server = o_MaxFrameSize opts" if "0 < o_MaxFrameSize opts" "o_MaxFrameSize opts \<le> MaxUint32"
    using that by (simp add: server_def NewServer_def normalizeMaxFrameSize_def Options.truncate_def)
  moreover have "RecvBytes (cf_streamOptions server) < 2 ^ 63" if "RecvBytes (o_StreamOptions opts) < 2 ^ 63"
    using that by (simp add: server_def NewServer_def normalizeStreamOptions_def Let_def DefaultMaxFrameSize_def Options.truncate_def)
  ultimately show ?thesis
    using cfg n opened_stream_room opened_stream_bytes serving_ok_new NewServer_config_ok
    unfolding server_def by metis
qed

theorem options_well_formed_witness:
  "nc_name (newClientWithOptions msgpcode_spec sampleCodec (\<lambda>_. ('''', '''')) ''tcp'' ''a'' ''me''
      [zeroOptions\<lparr>o_MaxFrameSize := 7, o_ClientName := ''other''\<rparr>]) = ''me'' \<and>
   cf_maxFrameSize (NewServer msgpcode_spec sampleCodec (Options.truncate (zeroOptions\<lparr>o_MaxFrameSize := 7, o_ClientName := ''other''\<rparr>))) = 7"
  using options_well_formed [of msgpcode_spec sampleCodec "zeroOptions\<lparr>o_MaxFrameSize := 7, o_ClientName := ''other''\<rparr>"
      "\<lambda>_. ('''', '''')" "''tcp''" "''a''" "''me''"]
  by (simp add: zeroOptions_def MaxUint32_def)

subsection \<open>Timeouts across the connection\<close>

lemma endpoint_call_on_connection:
  "PeerEndpoint_CallContext_begin ccfg scfg ctx function req resp ch =
     bound_route (\<lambda>conn generation. Client_callContextOnConnection_begin ccfg ctx conn generation function req resp ch)
       (Conn_CallContext_begin scfg ctx function req resp ch)"
  by (simp add: PeerEndpoint_CallContext_begin_def Client_callContextOnConnection_begin_def [abs_def])

text \<open>The context of a call with a timeout, and the cancel frame of a call.\<close>

definition call_ctx :: "int \<Rightarrow> int \<Rightarrow> ctx option" where
  "call_ctx now timeout = Some (if timeout \<le> 0 then backgroundContext else WithTimeout now timeout)"

definition cancel_frame :: "u64 \<Rightarrow> Frame" where
  "cancel_frame i = zeroFrame\<lparr>Type := FrameCancel, RequestID := i\<rparr>"

lemma CallWithTimeout_ctx:
  "Client_CallWithTimeout_begin cfg f req TargetPointer now timeout ch c = Client_callFrame_begin cfg (call_ctx now timeout) f req ch c"
  by (simp add: Client_CallWithTimeout_begin_def with_timeout_def call_ctx_def Client_Call_begin_def
      Client_CallContext_begin_def validateResponseTarget_def)

lemma call_ctx_simps [simp]:
  "ctx_err (normalizeContext (call_ctx now timeout)) = None"
  "ctx_deadline (normalizeContext (call_ctx now timeout)) = (if timeout \<le> 0 then None else Some (now + timeout))"
  by (simp_all add: call_ctx_def normalizeContext_def WithTimeout_def backgroundContext_def)

lemma request_frame_deadline:
  "DeadlineUnixNano (request_frame (call_ctx now timeout) i f p) = (if timeout \<le> 0 then 0 else now + timeout)"
  by (simp add: request_frame_def with_deadline_def zeroFrame_def)

lemma request_frame_valid:
  assumes "0 \<le> now" "now + timeout \<le> MaxInt64"
  shows "Frame_valid (request_frame (call_ctx now timeout) i f p)"
  using assms plain_frame_valid [where t = FrameRequest and i = i and f = f and p = p]
  by (auto simp: Frame_valid_def request_frame_def with_deadline_def MaxInt64_def)

lemma cancel_frame_simps [simp]:
  "Type (cancel_frame i) = FrameCancel" "RequestID (cancel_frame i) = i" "Compression (cancel_frame i) = []"
  "Frame_valid (cancel_frame i)"
proof -
  show "Frame_valid (cancel_frame i)" using FrameType_of_byte_byte [of FrameCancel] plain_frame_valid [where t = FrameRequest and i = i and f = "[]" and p = "[]"]
    by (simp add: cancel_frame_def Frame_valid_def zeroFrame_def)
qed (simp_all add: cancel_frame_def zeroFrame_def)

text \<open>What the client has written between two of its states is the one frame that the connection reads next.\<close>

definition conn_reads :: "('v, 'b) Config_scheme \<Rightarrow> 'v Conn \<Rightarrow> 'v Client \<Rightarrow> 'v Client \<Rightarrow> Frame \<Rightarrow> bool" where
  "conn_reads server sc c c' f \<longleftrightarrow>
     readFrameWithCompression (cf_mc server) (cf_lib server) (sent (e_writer c) (e_writer c')) (cf_maxFrameSize server)
       (Some (reg_codec server)) (e_compressor sc) = (Inr f, \<lparr>r_data = [], r_end = Sentinel IoEOF\<rparr>)"

lemma call_given_up:
  assumes "can_send cfg c" "cl_conn c = Some conn" "encode_with cfg c (cancel_frame i) = Inr d"
  shows "Client_CallContext_end cfg i (WakeCtx err) c =
    (Inl err, c\<lparr>e_pending := tbl_del i (e_pending c), e_writer := put_out d (e_writer c)\<rparr>, [])"
proof -
  let ?c = "removePending i c"
  have "writeToConnection cfg conn 0 (cancel_frame i) ?c = (None, ?c\<lparr>e_writer := put_out d (e_writer ?c)\<rparr>, [])"
    using assms by (intro writeToConnection_sends) (simp_all add: can_send_def encode_with_def isCurrentConnGeneration_def removePending_def)
  then show ?thesis using assms(2)
    by (simp add: Client_CallContext_end_def Client_callFrame_end_def call_wait_def cancel_frame_def [symmetric] write_handled_def
        client_link_def Let_def) (simp add: removePending_def)
qed

text \<open>C39. A timeout bounds a call on both sides. Take a connected client and an accepted connection that agree on the
  wire, with working transports, and a call with a timeout of a registered function at the time now. The request that
  the connection reads starts one handler, whose context has the deadline now plus the timeout, or none if the
  timeout is zero or negative. When the caller gives up before the response is there, it gets the error of its
  context, its table of calls is as before the call, and the one frame it writes makes the connection cancel the
  context of exactly that handler; the request stays tracked until the handler ends.\<close>

theorem timeout_bounds_both_sides:
  fixes cfg :: "('v, 'a) Config_scheme" and server :: "('v, 'b) Config_scheme"
  assumes wire: "same_wire cfg server" "e_compressor sc = e_compressor c" "normalizeCompressor (e_compressor c) = e_compressor c"
      "\<forall>z. e_compressor c = Some z \<longrightarrow> compressor_lawful z"
    and client: "can_send cfg c" "cl_conn c = Some conn" "\<not> pending (e_nextID c + 1) c" "e_nextID c + 1 \<noteq> 0"
      "MaxPendingCalls (cf_backpressure cfg) > 0 \<longrightarrow> int (length (e_pending c)) < MaxPendingCalls (cf_backpressure cfg)"
    and srv: "\<not> e_closed sc" "findStream (e_nextID c + 1) sc = None" "handlers server f = Some h" "f \<noteq> []"
    and time: "0 \<le> now" "now + timeout \<le> MaxInt64"
    and fits: "MarshalValue (reg_codec cfg) req = Inr p"
      "encode_with cfg c (request_frame (call_ctx now timeout) (e_nextID c + 1) f p) = Inr d1"
      "encode_with cfg c (cancel_frame (e_nextID c + 1)) = Inr d2"
  shows "\<exists>c1 q sc1 k c2 x.
    Client_CallWithTimeout_begin cfg f req TargetPointer now timeout ch c = Return (Inr (e_nextID c + 1), c1, []) \<and>
    conn_reads server sc c c1 q \<and> Conn_dispatch server q sc = (True, sc1, [EvSpawn (JobUnary q k)]) \<and>
    rc_deadline (rpcContext (conn_link server) q False False (StreamKindOther 0) sc1) =
      (if timeout \<le> 0 then None else Some (now + timeout)) \<and>
    Client_CallContext_end cfg (e_nextID c + 1) (WakeCtx err) c1 = (Inl err, c2, []) \<and> e_pending c2 = e_pending c \<and>
    conn_reads server sc c1 c2 x \<and> Conn_dispatch server x sc1 = (True, sc1, [EvCancelCtx k]) \<and>
    map_of (e_requests sc1) (e_nextID c + 1) = Some k"
proof -
  let ?i = "e_nextID c + 1"
  define q where "q = (request_frame (call_ctx now timeout) ?i f p)\<lparr>Version := ProtocolVersion\<rparr>"
  define x where "x = (cancel_frame ?i)\<lparr>Version := ProtocolVersion\<rparr>"
  define c1 where "c1 = c\<lparr>e_nextID := e_nextID c + 2, e_pending := tbl_put ?i (SyncPending ch) (e_pending c),
      e_writer := put_out d1 (e_writer c)\<rparr>"
  define c2 where "c2 = c1\<lparr>e_pending := tbl_del ?i (e_pending c1), e_writer := put_out d2 (e_writer c1)\<rparr>"
  define sc1 where "sc1 = sc\<lparr>e_nextCtx := Suc (e_nextCtx sc), e_requests := tbl_put ?i (e_nextCtx sc) (e_requests sc)\<rparr>"
  have read: "conn_reads server sc e e' (g\<lparr>Version := ProtocolVersion\<rparr>)"
    if "Frame_valid g" "Compression g = []" "encode_with cfg c g = Inr d" "e_writer e' = put_out d (e_writer e)"
    for g d and e e' :: "'v Client"
    using read_sent [of cfg "e_compressor c", OF _ wire(3,4) that(1,2) that(3) [unfolded encode_with_def]] wire(1,2) that(4)
    by (simp add: conn_reads_def same_wire_def)
  have "Client_CallWithTimeout_begin cfg f req TargetPointer now timeout ch c = Return (Inr ?i, c1, [])"
    unfolding CallWithTimeout_ctx c1_def
    by (rule call_sends [OF client(1,2) _ srv(4) fits(1) client(5) fits(2)]) simp
  moreover have "conn_reads server sc c c1 q" unfolding q_def
    by (rule read [OF request_frame_valid [OF time] _ fits(2)]) (simp_all add: c1_def)
  moreover have "Conn_dispatch server q sc = (True, sc1, [EvSpawn (JobUnary q (e_nextCtx sc))])"
    using dispatch_starts [of sc q server h] srv client(4) by (simp add: sc1_def q_def)
  moreover have "rc_deadline (rpcContext (conn_link server) q False False (StreamKindOther 0) sc1) =
      (if timeout \<le> 0 then None else Some (now + timeout))"
    using time(1) by (simp add: rpcContext_def contextFromFrame_def q_def request_frame_deadline)
  moreover have "Client_CallContext_end cfg ?i (WakeCtx err) c1 = (Inl err, c2, [])" unfolding c2_def
    by (rule call_given_up) (use client(1,2) fits(3) in \<open>simp_all add: c1_def can_send_def encode_with_def\<close>)
  moreover have "e_pending c2 = e_pending c" using client(3) by (simp add: c2_def c1_def pending_def tbl_del_put)
  moreover have "conn_reads server sc c1 c2 x" unfolding x_def by (rule read [OF _ _ fits(3)]) (simp_all add: c2_def)
  moreover have "Conn_dispatch server x sc1 = (True, sc1, [EvCancelCtx (e_nextCtx sc)])"
    using srv(2) by (simp add: Conn_dispatch_def dispatch_def x_def cancel_request_def sc1_def findStream_def)
  moreover have "map_of (e_requests sc1) ?i = Some (e_nextCtx sc)" by (simp add: sc1_def)
  ultimately show ?thesis by blast
qed

lemma sample_timeout_frames_encode:
  "\<not> isl (encode_with sampleConfig sampleConnected (request_frame (call_ctx 5 7) 1 ''echo'' [7])) \<and>
   \<not> isl (encode_with sampleConfig sampleConnected (cancel_frame 1))"
  by code_simp

theorem timeout_bounds_both_sides_witness:
  "\<exists>c1 q sc1 k.
     Client_CallWithTimeout_begin sampleConfig ''echo'' [7] TargetPointer 5 7 3 sampleConnected = Return (Inr 1, c1, []) \<and>
     conn_reads sampleConfig sampleConn sampleConnected c1 q \<and>
     Conn_dispatch sampleConfig q sampleConn = (True, sc1, [EvSpawn (JobUnary q k)]) \<and>
     rc_deadline (rpcContext (conn_link sampleConfig) q False False (StreamKindOther 0) sc1) = Some 12"
proof -
  obtain d1 where d1: "encode_with sampleConfig sampleConnected (request_frame (call_ctx 5 7) 1 ''echo'' [7]) = Inr d1"
    using sample_timeout_frames_encode by (metis sum.exhaust_disc isl_def sum.collapse(2))
  obtain d2 where d2: "encode_with sampleConfig sampleConnected (cancel_frame 1) = Inr d2"
    using sample_timeout_frames_encode by (metis sum.exhaust_disc isl_def sum.collapse(2))
  have e: "e_nextID sampleConnected = 0" "e_pending sampleConnected = []" "e_compressor sampleConnected = None"
    "e_compressor sampleConn = None" "e_streams sampleConn = []" "\<not> e_closed sampleConn" "cl_conn sampleConnected = Some 1"
    "can_send sampleConfig sampleConnected"
    by (simp_all add: sampleConnected_eq sampleClient_def newClientState_def sampleConn_def newConn_def sampleConfig_def
        can_send_def emptyWriter_def newWriteLimiter_def wl_acquire_def)
  have cfg: "same_wire sampleConfig sampleConfig" "\<exists>h. handlers sampleConfig ''echo'' = Some h"
    "reg_codec sampleConfig = sampleCodec" "MaxPendingCalls (cf_backpressure sampleConfig) = 2"
    using sampleCodec_lawful by (simp_all add: same_wire_def sampleConfig_def)
  then obtain h where h: "handlers sampleConfig ''echo'' = Some h" by blast
  from timeout_bounds_both_sides [where cfg = sampleConfig and server = sampleConfig and c = sampleConnected and sc = sampleConn
      and conn = 1 and f = "''echo''" and req = "[7]" and p = "[7]" and h = h and now = 5 and timeout = 7 and ?d1.0 = d1
      and ?d2.0 = d2 and ch = 3 and err = "Sentinel ContextCanceled"] e cfg h d1 d2 sample_values
  show ?thesis
    by (simp add: pending_def findStream_def normalizeCompressor_def MaxInt64_def) blast
qed

end
